(* ===== verification/Csi_Prelude.thy ===== *)
theory Csi_Prelude
  imports
    Main
    "HOL-Library.State_Monad"
    "HOL-Library.AList"
    "HOL-Library.Char_ord"
    "HOL-Library.List_Lexorder"
    "HOL-Library.Sublist"
    "HOL-Library.Multiset"
begin

text \<open>
  Shared base of the development: Go's maps and their unspecified iteration order, the few
  functions of Go's \<^verbatim>\<open>strings\<close> package the driver uses, and a weakest-precondition
  calculus for the state monad in which the effectful code is written.
\<close>

named_theorems wp "weakest preconditions of state-monad programs"
named_theorems pres "programs that preserve a state predicate"
named_theorems go_string "equations of the modelled string functions"

section \<open>Go maps\<close>

text \<open>
  A Go map that is only looked up is a partial function; \<^verbatim>\<open>nil\<close> is \<^term>\<open>None\<close>.
  Reading a missing key of a \<open>map[string]string\<close>, or any key of a nil map, gives the empty
  string.
\<close>

type_synonym strmap = "string \<rightharpoonup> string"

definition go_lookup :: "strmap \<Rightarrow> string \<Rightarrow> string" where
  "go_lookup m k = (case m k of None \<Rightarrow> [] | Some v \<Rightarrow> v)"

definition go_lookup_nil :: "strmap option \<Rightarrow> string \<Rightarrow> string" where
  "go_lookup_nil m k = (case m of None \<Rightarrow> [] | Some f \<Rightarrow> go_lookup f k)"

text \<open>
  A Go map that is iterated is an association list with distinct keys. The order of a
  \<^verbatim>\<open>range\<close> over it is not specified and differs between iterations, so every loop gets
  an arbitrary function \<open>ord\<close> that proposes an order; \<open>go_range\<close> turns the proposal into a
  permutation of the keys. Every permutation is reached by some proposal.
\<close>

definition go_range :: "('a list \<Rightarrow> 'a list) \<Rightarrow> 'a list \<Rightarrow> 'a list" where
  "go_range ord xs =
     (let ys = filter (\<lambda>y. y \<in> set xs) (remdups (ord xs))
      in ys @ filter (\<lambda>x. x \<notin> set ys) xs)"

lemma set_go_range [simp]: "set (go_range ord xs) = set xs"
  by (auto simp: go_range_def Let_def)

lemma distinct_go_range [simp]: "distinct xs \<Longrightarrow> distinct (go_range ord xs)"
  by (auto simp: go_range_def Let_def)

lemma mset_go_range: "distinct xs \<Longrightarrow> mset (go_range ord xs) = mset xs"
  by (rule set_eq_iff_mset_eq_distinct [THEN iffD1]) simp_all

lemma go_range_perm: "distinct xs \<Longrightarrow> mset (ord xs) = mset xs \<Longrightarrow> go_range ord xs = ord xs"
proof -
  assume d: "distinct xs" and m: "mset (ord xs) = mset xs"
  then have "distinct (ord xs)" "set (ord xs) = set xs"
    by (metis mset_eq_imp_distinct_iff, metis mset_eq_setD)
  then show ?thesis
    by (simp add: go_range_def distinct_remdups_id)
qed

lemma find_SomeD: "find P xs = Some y \<Longrightarrow> y \<in> set xs \<and> P y"
  by (auto simp: find_Some_iff)

lemma go_range_Nil [simp]: "go_range ord [] = []"
  by (simp add: go_range_def)

text \<open>Lookup in an association list with a default, and the laws used with it.\<close>

definition alookup :: "('k \<times> 'v list) list \<Rightarrow> 'k \<Rightarrow> 'v list" where
  "alookup m k = (case map_of m k of None \<Rightarrow> [] | Some vs \<Rightarrow> vs)"

lemma alookup_update [simp]:
  "alookup (AList.update k v m) k' = (if k' = k then v else alookup m k')"
  by (simp add: alookup_def update_conv')

lemma map_of_delete: "map_of (AList.delete k m) = (map_of m)(k := None)"
  by (simp add: delete_conv')

lemma alookup_delete [simp]:
  "alookup (AList.delete k m) k' = (if k' = k then [] else alookup m k')"
  by (simp add: alookup_def map_of_delete)

lemma keys_update [simp]: "fst ` set (AList.update k v m) = insert k (fst ` set m)"
  using dom_update [of k v m] by (simp add: dom_map_of_conv_image_fst)

lemma keys_delete [simp]: "fst ` set (AList.delete k m) = fst ` set m - {k}"
  by (auto simp: AList.delete_eq image_iff)

lemma distinct_keys_update [simp]:
  "distinct (map fst m) \<Longrightarrow> distinct (map fst (AList.update k v m))"
  by (rule distinct_update)

lemma distinct_keys_delete [simp]:
  "distinct (map fst m) \<Longrightarrow> distinct (map fst (AList.delete k m))"
  by (rule distinct_delete)

section \<open>Strings\<close>

text \<open>Strings are byte sequences, as in Go.\<close>

definition has_prefix :: "string \<Rightarrow> string \<Rightarrow> bool" where
  "has_prefix s p \<longleftrightarrow> take (length p) s = p"

definition cut_prefix :: "string \<Rightarrow> string \<Rightarrow> string option" where
  "cut_prefix s p = (if has_prefix s p then Some (drop (length p) s) else None)"

definition index_of :: "char \<Rightarrow> string \<Rightarrow> int" where
  "index_of c s = (if c \<in> set s then int (length (takeWhile (\<lambda>x. x \<noteq> c) s)) else -1)"

definition split2 :: "char \<Rightarrow> string \<Rightarrow> string \<times> string" where
  "split2 c s = (takeWhile (\<lambda>x. x \<noteq> c) s, tl (dropWhile (\<lambda>x. x \<noteq> c) s))"

definition trim_char :: "char \<Rightarrow> string \<Rightarrow> string" where
  "trim_char c s = rev (dropWhile (\<lambda>x. x = c) (rev (dropWhile (\<lambda>x. x = c) s)))"

fun join_with :: "string \<Rightarrow> string list \<Rightarrow> string" where
  "join_with sep [] = []"
| "join_with sep [x] = x"
| "join_with sep (x # y # xs) = x @ sep @ join_with sep (y # xs)"

text \<open>\<^verbatim>\<open>strconv.FormatInt(n, 10)\<close>.\<close>

fun digits_of_nat :: "nat \<Rightarrow> string" where
  "digits_of_nat n =
     (if n < 10 then [char_of (48 + n)]
      else digits_of_nat (n div 10) @ [char_of (48 + n mod 10)])"

declare digits_of_nat.simps [simp del]

definition format_int :: "int \<Rightarrow> string" where
  "format_int n =
     (if n < 0 then CHR ''-'' # digits_of_nat (nat (- n)) else digits_of_nat (nat n))"

lemma has_prefix_append [simp]: "has_prefix (p @ s) p"
  by (simp add: has_prefix_def)

lemma has_prefix_Nil [simp]: "has_prefix s []"
  by (simp add: has_prefix_def)

lemma has_prefix_iff: "has_prefix s p \<longleftrightarrow> (\<exists>t. s = p @ t)"
  by (metis append_eq_conv_conj has_prefix_def)

lemma cut_prefix_Some: "cut_prefix s p = Some t \<longleftrightarrow> s = p @ t"
  by (auto simp: cut_prefix_def has_prefix_def) (metis append_take_drop_id)

lemma split2_append [go_string]:
  "c \<notin> set k \<Longrightarrow> split2 c (k @ c # v) = (k, v)"
  by (induct k) (auto simp: split2_def)

lemma split2_eq: "c \<in> set s \<Longrightarrow> split2 c s = (k, v) \<Longrightarrow> s = k @ c # v \<and> c \<notin> set k"
  by (induct s arbitrary: k) (auto simp: split2_def split: if_splits)

lemma index_of_append [go_string]:
  "c \<notin> set k \<Longrightarrow> index_of c (k @ c # v) = int (length k)"
  by (auto simp: index_of_def) (induct k, auto)

lemma index_of_notin [go_string]: "c \<notin> set s \<Longrightarrow> index_of c s = -1"
  by (simp add: index_of_def)

lemma index_of_minus_one [simp]: "index_of c s = -1 \<longleftrightarrow> c \<notin> set s"
  by (simp add: index_of_def)

text \<open>A string is trimmed if it neither starts nor ends with the character.\<close>

definition trimmed_of :: "char \<Rightarrow> string \<Rightarrow> bool" where
  "trimmed_of c s \<longleftrightarrow> (s = [] \<or> hd s \<noteq> c \<and> last s \<noteq> c)"

lemma dropWhile_hd_id: "s = [] \<or> \<not> P (hd s) \<Longrightarrow> dropWhile P s = s"
  by (cases s) auto

lemma trimmed_of_Nil [simp]: "trimmed_of c []"
  by (simp add: trimmed_of_def)

lemma trim_char_id: "trimmed_of c s \<Longrightarrow> trim_char c s = s"
  by (auto simp: trim_char_def trimmed_of_def dropWhile_hd_id hd_rev)

lemma hd_dropWhile_neq: "dropWhile P xs \<noteq> [] \<Longrightarrow> \<not> P (hd (dropWhile P xs))"
  by (rule hd_dropWhile)

lemma trimmed_trim_char [simp]: "trimmed_of c (trim_char c s)"
proof (cases "trim_char c s = []")
  case False
  let ?m = "dropWhile (\<lambda>x. x = c) s"
  let ?r = "dropWhile (\<lambda>x. x = c) (rev ?m)"
  have ne: "?r \<noteq> []" using False by (simp add: trim_char_def)
  then have l: "last (trim_char c s) \<noteq> c"
    using hd_dropWhile_neq [OF ne] by (simp add: trim_char_def last_rev)
  obtain ys where ys: "rev ?m = ys @ ?r"
    by (metis takeWhile_dropWhile_id)
  then have m: "?m = trim_char c s @ rev ys"
    by (metis rev_append rev_rev_ident trim_char_def)
  then have "?m \<noteq> []" using False by simp
  then have "hd ?m \<noteq> c" by (rule hd_dropWhile_neq)
  then have "hd (trim_char c s) \<noteq> c" using m False by simp
  with l show ?thesis by (simp add: trimmed_of_def)
qed (simp add: trimmed_of_def)

section \<open>Weakest preconditions\<close>

text \<open>
  \<open>wp m Q s\<close>: running \<open>m\<close> from \<open>s\<close> ends in a result and a state that satisfy \<open>Q\<close>. The
  programs are total, so this is both partial and total correctness.
\<close>

definition wp :: "('s, 'a) state \<Rightarrow> ('a \<Rightarrow> 's \<Rightarrow> bool) \<Rightarrow> 's \<Rightarrow> bool" where
  "wp m Q s \<longleftrightarrow> (case run_state m s of (a, s') \<Rightarrow> Q a s')"

lemma wp_return [wp]: "wp (State_Monad.return a) Q s \<longleftrightarrow> Q a s"
  by (simp add: wp_def)

lemma wp_bind [wp]: "wp (State_Monad.bind m f) Q s \<longleftrightarrow> wp m (\<lambda>a. wp (f a) Q) s"
  by (simp add: wp_def split: prod.split)

lemma wp_State [wp]: "wp (State f) Q s \<longleftrightarrow> (case f s of (a, s') \<Rightarrow> Q a s')"
  by (simp add: wp_def)

lemma wp_if [wp]: "wp (if b then m else n) Q s \<longleftrightarrow> (if b then wp m Q s else wp n Q s)"
  by simp

lemma wp_option [wp]:
  "wp (case x of None \<Rightarrow> m | Some y \<Rightarrow> f y) Q s \<longleftrightarrow>
     (case x of None \<Rightarrow> wp m Q s | Some y \<Rightarrow> wp (f y) Q s)"
  by (simp split: option.split)

lemma wp_sum [wp]:
  "wp (case x of Inl y \<Rightarrow> f y | Inr z \<Rightarrow> g z) Q s \<longleftrightarrow>
     (case x of Inl y \<Rightarrow> wp (f y) Q s | Inr z \<Rightarrow> wp (g z) Q s)"
  by (simp split: sum.split)

lemma wp_prod [wp]:
  "wp (case x of (y, z) \<Rightarrow> f y z) Q s \<longleftrightarrow> (case x of (y, z) \<Rightarrow> wp (f y z) Q s)"
  by (simp split: prod.split)

lemma wp_list [wp]:
  "wp (case x of [] \<Rightarrow> m | y # ys \<Rightarrow> f y ys) Q s \<longleftrightarrow>
     (case x of [] \<Rightarrow> wp m Q s | y # ys \<Rightarrow> wp (f y ys) Q s)"
  by (simp split: list.split)

lemma wp_mono: "wp m Q s \<Longrightarrow> (\<And>a s'. Q a s' \<Longrightarrow> R a s') \<Longrightarrow> wp m R s"
  by (auto simp: wp_def split: prod.splits)

lemma wp_conj: "wp m (\<lambda>a s'. Q a s' \<and> R a s') s \<longleftrightarrow> wp m Q s \<and> wp m R s"
  by (auto simp: wp_def split: prod.splits)

lemma wp_runD: "wp m Q s \<Longrightarrow> run_state m s = (a, s') \<Longrightarrow> Q a s'"
  by (simp add: wp_def)

lemma wp_snd: "wp m (\<lambda>_. P) s \<longleftrightarrow> P (snd (run_state m s))"
  by (simp add: wp_def split: prod.split)


text \<open>A program preserves a predicate on the state.\<close>

definition preserves :: "('s \<Rightarrow> bool) \<Rightarrow> ('s, 'a) state \<Rightarrow> bool" where
  "preserves I m \<longleftrightarrow> (\<forall>s. I s \<longrightarrow> wp m (\<lambda>_. I) s)"

lemma preservesI: "(\<And>s. I s \<Longrightarrow> wp m (\<lambda>_. I) s) \<Longrightarrow> preserves I m"
  by (simp add: preserves_def)

lemma preservesD: "preserves I m \<Longrightarrow> I s \<Longrightarrow> wp m (\<lambda>_. I) s"
  by (simp add: preserves_def)

lemma preserves_snd: "preserves I m \<Longrightarrow> I s \<Longrightarrow> I (snd (run_state m s))"
  by (simp add: preserves_def wp_snd)

lemma preserves_return [pres]: "preserves I (State_Monad.return a)"
  by (simp add: preserves_def wp_return)

lemma preserves_bind [pres]:
  assumes m: "preserves I m" and f: "\<And>a. preserves I (f a)"
  shows "preserves I (State_Monad.bind m f)"
proof (rule preservesI)
  fix s
  assume "I s"
  with m have "wp m (\<lambda>_. I) s" by (rule preservesD)
  then have "wp m (\<lambda>a. wp (f a) (\<lambda>_. I)) s"
    by (rule wp_mono) (rule preservesD [OF f])
  then show "wp (State_Monad.bind m f) (\<lambda>_. I) s"
    by (simp only: wp_bind)
qed

lemma preserves_if [pres]: "(b \<Longrightarrow> preserves I m) \<Longrightarrow> (\<not> b \<Longrightarrow> preserves I n) \<Longrightarrow> preserves I (if b then m else n)"
  by simp

lemma preserves_option [pres]:
  "(x = None \<Longrightarrow> preserves I m) \<Longrightarrow> (\<And>y. x = Some y \<Longrightarrow> preserves I (f y)) \<Longrightarrow>
     preserves I (case x of None \<Rightarrow> m | Some y \<Rightarrow> f y)"
  by (simp split: option.split)

lemma preserves_sum [pres]:
  "(\<And>y. x = Inl y \<Longrightarrow> preserves I (f y)) \<Longrightarrow> (\<And>y. x = Inr y \<Longrightarrow> preserves I (g y)) \<Longrightarrow>
     preserves I (case x of Inl y \<Rightarrow> f y | Inr y \<Rightarrow> g y)"
  by (simp split: sum.split)

lemma preserves_prod [pres]:
  "(\<And>y z. x = (y, z) \<Longrightarrow> preserves I (f y z)) \<Longrightarrow> preserves I (case x of (y, z) \<Rightarrow> f y z)"
  by (simp split: prod.split)

lemma preserves_list [pres]:
  "(x = [] \<Longrightarrow> preserves I m) \<Longrightarrow> (\<And>y ys. x = y # ys \<Longrightarrow> preserves I (f y ys)) \<Longrightarrow>
     preserves I (case x of [] \<Rightarrow> m | y # ys \<Rightarrow> f y ys)"
  by (simp split: list.split)

lemma preserves_let [pres]: "(\<And>y. y = x \<Longrightarrow> preserves I (f y)) \<Longrightarrow> preserves I (let y = x in f y)"
  by simp

lemma preserves_read [pres]: "preserves I (State (\<lambda>s. (f s, s)))"
  by (simp add: preserves_def wp_State)

text \<open>The same, with a fact about the result.\<close>

definition yields :: "('s \<Rightarrow> bool) \<Rightarrow> ('s, 'a) state \<Rightarrow> ('a \<Rightarrow> bool) \<Rightarrow> bool" where
  "yields I m Q \<longleftrightarrow> (\<forall>s. I s \<longrightarrow> wp m (\<lambda>a s'. I s' \<and> Q a) s)"

lemma yieldsI: "(\<And>s. I s \<Longrightarrow> wp m (\<lambda>a s'. I s' \<and> Q a) s) \<Longrightarrow> yields I m Q"
  by (simp add: yields_def)

lemma yieldsD: "yields I m Q \<Longrightarrow> I s \<Longrightarrow> wp m (\<lambda>a s'. I s' \<and> Q a) s"
  by (simp add: yields_def)

lemma yields_return: "Q a \<Longrightarrow> yields I (State_Monad.return a) Q"
  by (simp add: yields_def wp_return)

lemma yields_bind:
  assumes m: "yields I m P" and f: "\<And>a. P a \<Longrightarrow> yields I (f a) Q"
  shows "yields I (State_Monad.bind m f) Q"
proof (rule yieldsI)
  fix s
  assume "I s"
  with m have "wp m (\<lambda>a s'. I s' \<and> P a) s" by (rule yieldsD)
  then have "wp m (\<lambda>a. wp (f a) (\<lambda>a s'. I s' \<and> Q a)) s"
    by (rule wp_mono) (rule yieldsD [OF f], simp_all)
  then show "wp (State_Monad.bind m f) (\<lambda>a s'. I s' \<and> Q a) s"
    by (simp only: wp_bind)
qed

lemma yields_weaken: "yields I m P \<Longrightarrow> (\<And>a. P a \<Longrightarrow> Q a) \<Longrightarrow> yields I m Q"
  by (auto simp: yields_def intro: wp_mono)

lemma yields_preserves: "yields I m Q \<Longrightarrow> preserves I m"
  unfolding yields_def preserves_def by (blast intro: wp_mono)

lemma preserves_yields: "preserves I m \<Longrightarrow> yields I m (\<lambda>_. True)"
  by (simp add: yields_def preserves_def)

lemma preserves_bind_yields:
  assumes "yields I m P" and "\<And>a. P a \<Longrightarrow> preserves I (f a)"
  shows "preserves I (State_Monad.bind m f)"
  by (rule yields_preserves [OF yields_bind [OF assms(1) preserves_yields]]) (rule assms(2))

lemma yields_bind_preserves:
  assumes "preserves I m" and "\<And>a. yields I (f a) Q"
  shows "yields I (State_Monad.bind m f) Q"
  using assms by (intro yields_bind [OF preserves_yields]) auto

end
