(* ===== verification/Keyed_Store.thy ===== *)
theory Keyed_Store
  imports Csi_Prelude
begin

text \<open>
  The contract shared by the two key-value containers the driver hands to Mountpoint: its
  command-line arguments (\<^verbatim>\<open>mountpoint.Args\<close>) and its environment
  (\<^verbatim>\<open>envprovider.Environment\<close>). A client that writes keys one after the other, or writes
  a key only when it is absent, reasons from these laws alone.
\<close>

locale keyed_store =
  fixes look :: "'s \<Rightarrow> string \<Rightarrow> string option"
    and put :: "string \<Rightarrow> string \<Rightarrow> 's \<Rightarrow> 's"
    and invar :: "'s \<Rightarrow> bool"
    and norm :: "string \<Rightarrow> string"
  assumes look_put: "invar s \<Longrightarrow> look (put k v s) k' = (if norm k' = norm k then Some v else look s k')"
    and invar_put: "invar s \<Longrightarrow> invar (put k v s)"
    and look_norm: "norm k = norm k' \<Longrightarrow> look s k = look s k'"
begin

lemma look_put_same: "invar s \<Longrightarrow> look (put k v s) k = Some v"
  by (simp add: look_put)

lemma look_put_other: "invar s \<Longrightarrow> norm k' \<noteq> norm k \<Longrightarrow> look (put k v s) k' = look s k'"
  by (simp add: look_put)

lemma invar_fold_put: "invar s \<Longrightarrow> invar (fold (\<lambda>(k, v). put k v) kvs s)"
  by (induction kvs arbitrary: s) (auto simp: invar_put)

text \<open>Writing a list of entries: the last entry for a key wins, other keys keep their value.\<close>

lemma look_fold_put:
  "invar s \<Longrightarrow>
     look (fold (\<lambda>(k, v). put k v) kvs s) k =
       (case find (\<lambda>(k', v). norm k' = norm k) (rev kvs) of
          None \<Rightarrow> look s k | Some (_, v) \<Rightarrow> Some v)"
proof (induction kvs rule: rev_induct)
  case Nil
  then show ?case by simp
next
  case (snoc kv kvs)
  obtain k1 v1 where kv: "kv = (k1, v1)" by (cases kv)
  have "invar (fold (\<lambda>(k, v). put k v) kvs s)"
    using snoc.prems by (rule invar_fold_put)
  then show ?case using snoc kv by (auto simp: look_put)
qed

end

text \<open>A store with the operation that writes a key only when it is absent.\<close>

locale absent_store = keyed_store +
  fixes put_absent :: "string \<Rightarrow> string \<Rightarrow> 's \<Rightarrow> 's"
  assumes put_absent: "invar s \<Longrightarrow> put_absent k v s = (if look s k = None then put k v s else s)"
begin

lemma invar_put_absent: "invar s \<Longrightarrow> invar (put_absent k v s)"
  by (simp add: put_absent invar_put)

lemma look_put_absent:
  "invar s \<Longrightarrow> look (put_absent k v s) k' =
     (if norm k' = norm k \<and> look s k' = None then Some v else look s k')"
  using look_norm [of k k' s] by (auto simp: put_absent look_put)

lemma put_absent_keeps: "invar s \<Longrightarrow> look s k = Some v \<Longrightarrow> look (put_absent k' v' s) k = Some v"
  by (simp add: look_put_absent)

lemma put_absent_present: "invar s \<Longrightarrow> look (put_absent k v s) k \<noteq> None"
  by (simp add: look_put_absent)

end

end
