(* ===== verification/Args.thy ===== *)
theory Args
  imports Keyed_Store
begin

text \<open>
  \<^verbatim>\<open>pkg/mountpoint/args.go\<close>: the arguments passed to Mountpoint. \<^verbatim>\<open>Args\<close> is a Go set of
  key/value pairs, here a list without repetitions; \<open>ord\<close> is the order in which one call
  happens to walk that set.
\<close>

section \<open>Data\<close>

record arg =
  arg_key :: string
  arg_value :: string

type_synonym args = "arg list"
type_synonym walk = "arg list \<Rightarrow> arg list"

definition ArgNoValue :: string where "ArgNoValue = []"
definition ArgForeground :: string where "ArgForeground = ''--foreground''"
definition ArgReadOnly :: string where "ArgReadOnly = ''--read-only''"
definition ArgAllowOther :: string where "ArgAllowOther = ''--allow-other''"
definition ArgAllowRoot :: string where "ArgAllowRoot = ''--allow-root''"
definition ArgRegion :: string where "ArgRegion = ''--region''"
definition ArgCache :: string where "ArgCache = ''--cache''"
definition ArgMaxCacheSize :: string where "ArgMaxCacheSize = ''--max-cache-size''"
definition ArgUserAgentPrefix :: string where "ArgUserAgentPrefix = ''--user-agent-prefix''"
definition ArgAWSMaxAttempts :: string where "ArgAWSMaxAttempts = ''--aws-max-attempts''"
definition ArgGid :: string where "ArgGid = ''--gid''"
definition ArgDirMode :: string where "ArgDirMode = ''--dir-mode''"
definition ArgFileMode :: string where "ArgFileMode = ''--file-mode''"
definition ArgDebug :: string where "ArgDebug = ''--debug''"
definition ArgDebugCRT :: string where "ArgDebugCRT = ''--debug-crt''"
definition ArgFsTab :: string where "ArgFsTab = ''-o''"
definition ArgCABundle :: string where "ArgCABundle = ''--ca-bundle''"

lemmas arg_consts = ArgNoValue_def ArgForeground_def ArgReadOnly_def ArgAllowOther_def
  ArgAllowRoot_def ArgRegion_def ArgCache_def ArgMaxCacheSize_def ArgUserAgentPrefix_def
  ArgAWSMaxAttempts_def ArgGid_def ArgDirMode_def ArgFileMode_def ArgFsTab_def ArgCABundle_def

section \<open>Operations\<close>

definition arg_String :: "arg \<Rightarrow> string" where
  "arg_String a =
     (if arg_value a = ArgNoValue then arg_key a else arg_key a @ ''='' @ arg_value a)"

definition normalizeKey :: "string \<Rightarrow> string" where
  "normalizeKey key = (if \<not> has_prefix key ''-'' then ''--'' @ key else key)"

text \<open>The keys \<^verbatim>\<open>ParseArgs\<close> drops because they make no sense in a CSI driver.\<close>

definition disallowed_keys :: "string list" where
  "disallowed_keys = [''--foreground'', ''-f'', ''--help'', ''-h'', ''--version'', ''-v'']"

text \<open>The body of the loop of \<^verbatim>\<open>ParseArgs\<close>, up to the normalisation of the key.\<close>

definition parse_one :: "string \<Rightarrow> arg" where
  "parse_one a =
     (let trimmed = trim_char CHR '' '' a;
          spacePos = index_of CHR '' '' trimmed;
          equalsPos = index_of CHR ''='' trimmed;
          (k, v) =
            (if spacePos \<noteq> -1 \<and> (equalsPos = -1 \<or> spacePos < equalsPos)
             then (let (p, q) = split2 CHR '' '' trimmed in (p, trim_char CHR '' '' q))
             else if equalsPos \<noteq> -1
             then (let (p, q) = split2 CHR ''='' trimmed in (p, trim_char CHR '' '' q))
             else (trimmed, ArgNoValue))
      in \<lparr>arg_key = normalizeKey k, arg_value = v\<rparr>)"

fun parse_loop :: "args \<Rightarrow> string list \<Rightarrow> args" where
  "parse_loop acc [] = acc"
| "parse_loop acc (a # as) =
     (let x = parse_one a
      in if arg_key x \<in> set disallowed_keys then parse_loop acc as
         else parse_loop (List.insert x acc) as)"

definition ParseArgs :: "string list \<Rightarrow> args" where
  "ParseArgs passedArgs = parse_loop [] passedArgs"

definition args_find :: "walk \<Rightarrow> args \<Rightarrow> string \<Rightarrow> arg \<times> bool" where
  "args_find ord a key =
     (let key = normalizeKey key
      in case find (\<lambda>x. key = arg_key x) (go_range ord a) of
           Some x \<Rightarrow> (x, True)
         | None \<Rightarrow> (\<lparr>arg_key = [], arg_value = []\<rparr>, False))"

definition args_Value :: "walk \<Rightarrow> args \<Rightarrow> string \<Rightarrow> string \<times> bool" where
  "args_Value ord a key = (let (x, exists) = args_find ord a key in (arg_value x, exists))"

definition args_Has :: "walk \<Rightarrow> args \<Rightarrow> string \<Rightarrow> bool" where
  "args_Has ord a key = snd (args_find ord a key)"

definition args_Remove :: "walk \<Rightarrow> args \<Rightarrow> string \<Rightarrow> args \<times> string \<times> bool" where
  "args_Remove ord a key =
     (let (x, exists) = args_find ord a key
      in (if exists then removeAll x a else a, arg_value x, exists))"

definition args_Set :: "walk \<Rightarrow> args \<Rightarrow> string \<Rightarrow> string \<Rightarrow> args" where
  "args_Set ord a key value =
     (let key = normalizeKey key; (a', _, _) = args_Remove ord a key
      in List.insert \<lparr>arg_key = key, arg_value = value\<rparr> a')"

definition args_SetIfAbsent :: "walk \<Rightarrow> args \<Rightarrow> string \<Rightarrow> string \<Rightarrow> args" where
  "args_SetIfAbsent ord a key value =
     (if \<not> args_Has ord a key then args_Set ord a key value else a)"

definition args_SortedList :: "walk \<Rightarrow> args \<Rightarrow> string list" where
  "args_SortedList ord a = sort (map arg_String (go_range ord a))"

section \<open>Parsing\<close>

text \<open>What holds of every parsed argument: a dash, no separator in the key, a trimmed value.\<close>

definition arg_ok :: "arg \<Rightarrow> bool" where
  "arg_ok x \<longleftrightarrow> has_prefix (arg_key x) ''-'' \<and> CHR '' '' \<notin> set (arg_key x) \<and>
     CHR ''='' \<notin> set (arg_key x) \<and> trimmed_of CHR '' '' (arg_value x)"

lemma normalizeKey_idem [simp]: "normalizeKey (normalizeKey k) = normalizeKey k"
  by (simp add: normalizeKey_def has_prefix_def)

lemma normalizeKey_dash [simp]: "has_prefix (normalizeKey k) ''-''"
  by (simp add: normalizeKey_def has_prefix_def)

lemma normalizeKey_id: "has_prefix k ''-'' \<Longrightarrow> normalizeKey k = k"
  by (simp add: normalizeKey_def)

lemma set_normalizeKey [simp]: "c \<noteq> CHR ''-'' \<Longrightarrow> c \<in> set (normalizeKey k) \<longleftrightarrow> c \<in> set k"
  by (simp add: normalizeKey_def)

lemma notin_takeWhile [simp]: "c \<notin> set (takeWhile (\<lambda>x. x \<noteq> c) s)"
  by (auto dest: set_takeWhileD)

lemma index_of_ge: "c \<in> set s \<Longrightarrow> index_of c s = int (length (takeWhile (\<lambda>x. x \<noteq> c) s))"
  by (simp add: index_of_def)

lemma before_first:
  "c \<in> set s \<Longrightarrow> d \<notin> set s \<or> index_of c s < index_of d s \<Longrightarrow>
     d \<notin> set (takeWhile (\<lambda>x. x \<noteq> c) s)"
  by (induction s) (auto simp: index_of_def dest: set_takeWhileD split: if_splits)

lemma first_order:
  "c \<in> set s \<Longrightarrow> d \<in> set s \<Longrightarrow> c \<noteq> d \<Longrightarrow> index_of c s \<noteq> index_of d s"
  by (induction s) (auto simp: index_of_def split: if_splits)

lemma parse_one_ok: "arg_ok (parse_one a)"
proof -
  let ?t = "trim_char CHR '' '' a"
  have 1: "CHR '' '' \<in> set ?t \<Longrightarrow> CHR ''='' \<notin> set ?t \<or> index_of CHR '' '' ?t < index_of CHR ''='' ?t
      \<Longrightarrow> CHR ''='' \<notin> set (takeWhile (\<lambda>x. x \<noteq> CHR '' '') ?t)"
    by (rule before_first)
  have 2: "CHR '' '' \<notin> set (takeWhile (\<lambda>x. x \<noteq> CHR ''='') ?t)"
    if eq: "CHR ''='' \<in> set ?t"
      and sp: "\<not> (CHR '' '' \<in> set ?t \<and> index_of CHR '' '' ?t < index_of CHR ''='' ?t)"
  proof (rule before_first [OF eq])
    show "CHR '' '' \<notin> set ?t \<or> index_of CHR ''='' ?t < index_of CHR '' '' ?t"
      using first_order [OF eq, of "CHR '' ''"] sp by (simp, linarith)
  qed
  show ?thesis
    using 1 2 by (auto simp: parse_one_def arg_ok_def Let_def split2_def ArgNoValue_def
        split: if_splits)
qed


lemma parse_loop_set:
  "set (parse_loop acc as) =
     set acc \<union> {x \<in> parse_one ` set as. arg_key x \<notin> set disallowed_keys}"
  by (induction as arbitrary: acc) (auto simp: Let_def)

lemma set_ParseArgs:
  "set (ParseArgs as) = {x \<in> parse_one ` set as. arg_key x \<notin> set disallowed_keys}"
  by (simp add: ParseArgs_def parse_loop_set)

lemma distinct_parse_loop: "distinct acc \<Longrightarrow> distinct (parse_loop acc as)"
  by (induction as arbitrary: acc) (auto simp: Let_def)

lemma distinct_ParseArgs [simp]: "distinct (ParseArgs as)"
  by (simp add: ParseArgs_def distinct_parse_loop)

lemma ParseArgs_ok: "x \<in> set (ParseArgs as) \<Longrightarrow> arg_ok x \<and> arg_key x \<notin> set disallowed_keys"
  using parse_one_ok by (auto simp: set_ParseArgs)

section \<open>Rendering and parsing back\<close>

lemma arg_key_not_space: "arg_ok x \<Longrightarrow> hd (arg_key x) \<noteq> CHR '' '' \<and> arg_key x \<noteq> []"
  by (cases "arg_key x") (auto simp: arg_ok_def has_prefix_def)

lemma trimmed_arg_String:
  assumes "arg_ok x"
  shows "trimmed_of CHR '' '' (arg_String x)"
proof -
  have "last (arg_key x) \<in> set (arg_key x)"
    using arg_key_not_space [OF assms] by simp
  then have "last (arg_key x) \<noteq> CHR '' ''"
    using assms by (metis arg_ok_def)
  then show ?thesis
    using assms arg_key_not_space [OF assms]
    by (auto simp: trimmed_of_def arg_String_def arg_ok_def ArgNoValue_def)
qed

lemma parse_one_String:
  assumes "arg_ok x"
  shows "parse_one (arg_String x) = x"
proof (cases "arg_value x = []")
  case True
  then show ?thesis
    using assms trim_char_id [OF trimmed_arg_String [OF assms]]
    by (simp add: parse_one_def arg_String_def arg_ok_def Let_def ArgNoValue_def normalizeKey_id)
next
  case False
  let ?s = "arg_key x @ CHR ''='' # arg_value x"
  have s: "arg_String x = ?s"
    using False by (simp add: arg_String_def ArgNoValue_def)
  then have t: "trim_char CHR '' '' (arg_String x) = ?s"
    using trim_char_id [OF trimmed_arg_String [OF assms]] by simp
  have k: "CHR ''='' \<notin> set (arg_key x)" "CHR '' '' \<notin> set (arg_key x)"
    using assms by (simp_all add: arg_ok_def)
  have e: "index_of CHR ''='' ?s = int (length (arg_key x))"
    using k by (simp add: index_of_append)
  have "takeWhile (\<lambda>c. c \<noteq> CHR '' '') ?s =
      arg_key x @ takeWhile (\<lambda>c. c \<noteq> CHR '' '') (CHR ''='' # arg_value x)"
    using k(2) by (intro takeWhile_append2) auto
  then have "CHR '' '' \<in> set ?s \<Longrightarrow> \<not> index_of CHR '' '' ?s < int (length (arg_key x))"
    by (simp add: index_of_def)
  then show ?thesis
    using assms k e by (auto simp: parse_one_def t Let_def split2_append arg_ok_def
        trim_char_id normalizeKey_id)
qed

lemma set_SortedList [simp]: "set (args_SortedList ord a) = arg_String ` set a"
  by (simp add: args_SortedList_def)

lemma SortedList_unordered:
  "distinct a \<Longrightarrow> distinct b \<Longrightarrow> set a = set b \<Longrightarrow>
     args_SortedList ord a = args_SortedList ord' b"
proof -
  assume d: "distinct a" "distinct b" and eq: "set a = set b"
  have "mset (go_range ord a) = mset (go_range ord' b)"
    using d eq by (simp add: mset_go_range set_eq_iff_mset_eq_distinct)
  then have "mset (map arg_String (go_range ord a)) = mset (map arg_String (go_range ord' b))"
    by simp
  then show ?thesis
    unfolding args_SortedList_def by (metis sorted_list_of_multiset_mset)
qed

lemma set_ParseArgs_SortedList:
  assumes "\<And>x. x \<in> set a \<Longrightarrow> arg_ok x \<and> arg_key x \<notin> set disallowed_keys"
  shows "set (ParseArgs (args_SortedList ord a)) = set a"
  using assms by (auto simp: set_ParseArgs parse_one_String image_iff)

section \<open>Lookup and update\<close>

definition unique_keys :: "args \<Rightarrow> bool" where
  "unique_keys a \<longleftrightarrow> distinct (map arg_key a)"

definition args_look :: "walk \<Rightarrow> args \<Rightarrow> string \<Rightarrow> string option" where
  "args_look ord a key = (case args_Value ord a key of (v, True) \<Rightarrow> Some v | _ \<Rightarrow> None)"

lemma unique_keysD: "unique_keys a \<Longrightarrow> x \<in> set a \<Longrightarrow> y \<in> set a \<Longrightarrow> arg_key x = arg_key y \<Longrightarrow> x = y"
  by (auto simp: unique_keys_def distinct_map dest: inj_onD)

lemma find_go_range_unique:
  assumes "unique_keys a" "x \<in> set a" "arg_key x = k"
  shows "find (\<lambda>x. k = arg_key x) (go_range ord a) = Some x"
proof (cases "find (\<lambda>x. k = arg_key x) (go_range ord a)")
  case None
  then show ?thesis using assms by (auto simp: find_None_iff)
next
  case (Some y)
  then have "y \<in> set a" "arg_key y = arg_key x"
    using assms(3) by (auto dest: find_SomeD)
  then have "y = x"
    using assms by (meson distinct_map inj_onD unique_keys_def)
  with Some show ?thesis by simp
qed

lemma args_find_None:
  "\<not> (\<exists>x \<in> set a. arg_key x = normalizeKey k) \<Longrightarrow>
     args_find ord a k = (\<lparr>arg_key = [], arg_value = []\<rparr>, False)"
proof -
  assume "\<not> (\<exists>x \<in> set a. arg_key x = normalizeKey k)"
  then have "find (\<lambda>x. normalizeKey k = arg_key x) (go_range ord a) = None"
    by (auto simp: find_None_iff)
  then show ?thesis by (simp add: args_find_def)
qed

lemma args_find_Some:
  assumes "\<exists>x \<in> set a. arg_key x = normalizeKey k"
  shows "\<exists>x \<in> set a. arg_key x = normalizeKey k \<and> args_find ord a k = (x, True)"
proof (cases "find (\<lambda>x. normalizeKey k = arg_key x) (go_range ord a)")
  case None
  then show ?thesis using assms by (auto simp: find_None_iff)
next
  case (Some y)
  then show ?thesis by (auto simp: args_find_def dest: find_SomeD)
qed

lemma args_find_unique:
  assumes "unique_keys a" "x \<in> set a" "arg_key x = normalizeKey k"
  shows "args_find ord a k = (x, True)"
  using find_go_range_unique [OF assms] by (simp add: args_find_def)

lemma args_Has_iff: "args_Has ord a k \<longleftrightarrow> (\<exists>x \<in> set a. arg_key x = normalizeKey k)"
proof (cases "\<exists>x \<in> set a. arg_key x = normalizeKey k")
  case True
  then show ?thesis using args_find_Some [OF True, of ord] by (auto simp: args_Has_def)
next
  case False
  then show ?thesis using args_find_None [OF False, of ord] by (auto simp: args_Has_def)
qed

lemma args_look_None: "args_look ord a k = None \<longleftrightarrow> \<not> args_Has ord a k"
  by (auto simp: args_look_def args_Value_def args_Has_def split: prod.split bool.split)

lemma args_look_unique:
  assumes "unique_keys a"
  shows "args_look ord a k = map_of (map (\<lambda>x. (arg_key x, arg_value x)) a) (normalizeKey k)"
proof (cases "\<exists>x \<in> set a. arg_key x = normalizeKey k")
  case True
  then obtain x where x: "x \<in> set a" "arg_key x = normalizeKey k" by blast
  have "map_of (map (\<lambda>x. (arg_key x, arg_value x)) a) (arg_key x) = Some (arg_value x)"
    using assms x(1) by (auto simp: unique_keys_def comp_def intro!: map_of_is_SomeI)
  then show ?thesis
    using args_find_unique [OF assms x] x by (simp add: args_look_def args_Value_def)
next
  case False
  then have "map_of (map (\<lambda>x. (arg_key x, arg_value x)) a) (normalizeKey k) = None"
    by (auto simp: map_of_eq_None_iff)
  then show ?thesis
    using args_find_None [OF False] by (simp add: args_look_def args_Value_def)
qed

lemma unique_keys_distinct: "unique_keys a \<Longrightarrow> distinct a"
  by (simp add: unique_keys_def distinct_map)

text \<open>With unique keys, removing a key removes the one entry that has it.\<close>

lemma args_Remove_unique:
  assumes "unique_keys a"
  shows "fst (args_Remove ord a k) = filter (\<lambda>x. arg_key x \<noteq> normalizeKey k) a"
proof (cases "\<exists>x \<in> set a. arg_key x = normalizeKey k")
  case True
  then obtain x where x: "x \<in> set a" "arg_key x = normalizeKey k" by blast
  have "removeAll x a = filter (\<lambda>y. arg_key y \<noteq> normalizeKey k) a"
    unfolding removeAll_filter_not_eq
    by (rule filter_cong [OF refl]) (use x unique_keysD [OF assms x(1)] in metis)
  then show ?thesis
    using args_find_unique [OF assms x] by (simp add: args_Remove_def)
next
  case False
  then have "filter (\<lambda>x. arg_key x \<noteq> normalizeKey k) a = a"
    by (intro filter_True) auto
  then show ?thesis
    using args_find_None [OF False] by (simp add: args_Remove_def)
qed

lemma args_Set_unique:
  assumes "unique_keys a"
  shows "args_Set ord a k v =
    \<lparr>arg_key = normalizeKey k, arg_value = v\<rparr> # filter (\<lambda>x. arg_key x \<noteq> normalizeKey k) a"
proof -
  obtain a' w b where r: "args_Remove ord a (normalizeKey k) = (a', w, b)"
    by (cases "args_Remove ord a (normalizeKey k)")
  have "a' = filter (\<lambda>x. arg_key x \<noteq> normalizeKey k) a"
    using args_Remove_unique [OF assms, of ord "normalizeKey k"] r by simp
  then show ?thesis
    by (simp add: args_Set_def r List.insert_def Let_def)
qed

lemma unique_keys_Set: "unique_keys a \<Longrightarrow> unique_keys (args_Set ord a k v)"
  by (auto simp: args_Set_unique) (auto simp: unique_keys_def distinct_map_filter)

lemma map_of_filter_arg_key:
  "map_of (map (\<lambda>x. (arg_key x, arg_value x)) (filter (\<lambda>x. arg_key x \<noteq> n) a)) k =
     (if k = n then None else map_of (map (\<lambda>x. (arg_key x, arg_value x)) a) k)"
  by (induction a) auto

lemma args_look_Set:
  "unique_keys a \<Longrightarrow> args_look ord (args_Set ord a k v) k' =
     (if normalizeKey k' = normalizeKey k then Some v else args_look ord a k')"
  by (simp add: args_look_unique unique_keys_Set) (simp add: args_Set_unique map_of_filter_arg_key)

lemma unique_keys_Remove: "unique_keys a \<Longrightarrow> unique_keys (fst (args_Remove ord a k))"
  by (auto simp: args_Remove_unique) (auto simp: unique_keys_def distinct_map_filter)

lemma args_look_Remove:
  "unique_keys a \<Longrightarrow> args_look ord (fst (args_Remove ord a k)) k' =
     (if normalizeKey k' = normalizeKey k then None else args_look ord a k')"
  by (simp add: args_look_unique unique_keys_Remove) (simp add: args_Remove_unique map_of_filter_arg_key)

lemma args_Remove_result:
  "snd (args_Remove ord a k) = (case args_look ord a k of None \<Rightarrow> ([], False) | Some v \<Rightarrow> (v, True))"
proof (cases "\<exists>x \<in> set a. arg_key x = normalizeKey k")
  case True
  then show ?thesis
    using args_find_Some [OF True, of ord] by (auto simp: args_Remove_def args_look_def args_Value_def)
next
  case False
  then show ?thesis
    using args_find_None [OF False, of ord] by (simp add: args_Remove_def args_look_def args_Value_def)
qed

interpretation args_store: absent_store "args_look ord" "\<lambda>k v a. args_Set ord a k v" unique_keys
  normalizeKey "\<lambda>k v a. args_SetIfAbsent ord a k v" for ord
proof
  fix s k v
  assume "unique_keys s"
  show "args_SetIfAbsent ord s k v = (if args_look ord s k = None then args_Set ord s k v else s)"
    by (simp add: args_SetIfAbsent_def args_look_None)
next
  fix s k k'
  assume "normalizeKey k = normalizeKey k'"
  then show "args_look ord s k = args_look ord s k'"
    by (simp add: args_look_def args_Value_def args_find_def)
qed (simp_all add: args_look_Set unique_keys_Set)


section \<open>Properties\<close>

text \<open>C31: whatever arguments a volume is configured with, parsing them, rendering the sorted
  list that is sent to the Mountpoint process and parsing that again yields the same set of
  arguments: the node, the wire and the mounter agree on them.\<close>

theorem parse_sorted_parse:
  "set (ParseArgs (args_SortedList ord (ParseArgs passed))) = set (ParseArgs passed)"
  using ParseArgs_ok by (intro set_ParseArgs_SortedList) blast

text \<open>C32: no parsed argument is there twice, and each one has a key that starts with a dash, holds no
  separator and is none of the options a CSI driver must not pass on, and a value without surrounding
  spaces. (The same key can be there with two values.)\<close>

theorem parsed_args_wellformed:
  "distinct (ParseArgs passed) \<and>
   (\<forall>x \<in> set (ParseArgs passed). arg_ok x \<and>
      arg_key x \<notin> {''--foreground'', ''-f'', ''--help'', ''-h'', ''--version'', ''-v''})"
  using ParseArgs_ok [of _ passed] by (simp add: disallowed_keys_def)

theorem parsed_args_wellformed_witness:
  "arg_ok \<lparr>arg_key = ''--region'', arg_value = ''eu-west-1''\<rparr> \<and>
   distinct (ParseArgs [''help'', ''region=eu-west-1'', '' region=  eu-west-1 ''])"
proof -
  have "\<lparr>arg_key = ''--region'', arg_value = ''eu-west-1''\<rparr> \<in>
      set (ParseArgs [''help'', ''region=eu-west-1'', '' region=  eu-west-1 ''])"
    by code_simp
  then show ?thesis using parsed_args_wellformed by blast
qed

text \<open>the list rendered for Mountpoint is sorted and does not depend on the order in which
  the underlying set happens to be walked.\<close>

theorem sorted_list_deterministic:
  "sorted (args_SortedList ord (ParseArgs passed)) \<and>
     args_SortedList ord (ParseArgs passed) = args_SortedList ord' (ParseArgs passed)"
  by (simp add: SortedList_unordered [of _ _ ord ord']) (simp add: args_SortedList_def)

text \<open>on arguments in which no key is repeated, \<^verbatim>\<open>Set\<close> replaces the value of its key and
  nothing else, \<^verbatim>\<open>SetIfAbsent\<close> never overrides a value the user gave, and both keep the keys
  unique.\<close>

theorem set_and_set_if_absent:
  "unique_keys a \<Longrightarrow>
     args_look ord (args_Set ord a k v) k' =
       (if normalizeKey k' = normalizeKey k then Some v else args_look ord a k') \<and>
     args_look ord (args_SetIfAbsent ord a k v) k' =
       (if normalizeKey k' = normalizeKey k \<and> args_look ord a k' = None then Some v
        else args_look ord a k') \<and>
     unique_keys (args_Set ord a k v) \<and> unique_keys (args_SetIfAbsent ord a k v)"
  by (simp add: args_store.look_put args_store.look_put_absent args_store.invar_put
      args_store.invar_put_absent)

theorem set_and_set_if_absent_witness:
  "args_look rev (args_SetIfAbsent rev [\<lparr>arg_key = ''--gid'', arg_value = ''1''\<rparr>] ''gid'' ''2'') ''--gid''
     = Some ''1''"
proof -
  have u: "unique_keys [\<lparr>arg_key = ''--gid'', arg_value = ''1''\<rparr>]"
    by (simp add: unique_keys_def)
  have "args_look rev [\<lparr>arg_key = ''--gid'', arg_value = ''1''\<rparr>] ''--gid'' = Some ''1''"
    using u by (simp add: args_look_unique normalizeKey_def has_prefix_def)
  then show ?thesis
    using set_and_set_if_absent [OF u, of rev "''gid''" "''2''" "''--gid''"] by simp
qed

text \<open>without that hypothesis \<^verbatim>\<open>Set\<close> does not replace: an option given twice keeps one of its
  old values next to the new one, in whatever order the set is walked.\<close>

theorem set_keeps_a_duplicate:
  "\<exists>x \<in> set (args_Set ord (ParseArgs [''gid=1'', ''gid=2'']) ''gid'' ''3'').
     arg_key x = ''--gid'' \<and> arg_value x \<noteq> ''3''"
proof -
  let ?a = "ParseArgs [''gid=1'', ''gid=2'']"
  have p: "parse_one ''gid=1'' = \<lparr>arg_key = ''--gid'', arg_value = ''1''\<rparr>"
    "parse_one ''gid=2'' = \<lparr>arg_key = ''--gid'', arg_value = ''2''\<rparr>"
    by code_simp+
  have a: "set ?a = {\<lparr>arg_key = ''--gid'', arg_value = ''1''\<rparr>, \<lparr>arg_key = ''--gid'', arg_value = ''2''\<rparr>}"
    by (auto simp: set_ParseArgs p disallowed_keys_def)
  have n: "normalizeKey ''gid'' = ''--gid''" "normalizeKey ''--gid'' = ''--gid''"
    by (simp_all add: normalizeKey_def has_prefix_def)
  have "\<exists>x \<in> set ?a. arg_key x = normalizeKey ''--gid''"
    by (auto simp: a n)
  then obtain x where x: "args_find ord ?a ''--gid'' = (x, True)"
    using args_find_Some by blast
  have s: "set (args_Set ord ?a ''gid'' ''3'') =
      insert \<lparr>arg_key = ''--gid'', arg_value = ''3''\<rparr> (set ?a - {x})"
    by (simp add: args_Set_def args_Remove_def n x Let_def)
  have "\<lparr>arg_key = ''--gid'', arg_value = ''1''\<rparr> \<in> set (args_Set ord ?a ''gid'' ''3'') \<or>
      \<lparr>arg_key = ''--gid'', arg_value = ''2''\<rparr> \<in> set (args_Set ord ?a ''gid'' ''3'')"
    unfolding s a by (cases "x = \<lparr>arg_key = ''--gid'', arg_value = ''1''\<rparr>") simp_all
  then show ?thesis
    by (elim disjE) (rule bexI [rotated], assumption, simp)+
qed

end
