(* ===== verification/Paths.thy ===== *)
theory Paths
  imports Csi_Prelude
begin

text \<open>
  Paths: the two functions of Go's \<^verbatim>\<open>path/filepath\<close> the driver uses, the paths shared between
  the node and the Mountpoint Pods (\<^verbatim>\<open>pkg/podmounter/mppod/path.go\<close>), kubelet's directory on the
  host and in the container (\<^verbatim>\<open>pkg/util/kubelet.go\<close>) and the target paths kubelet hands to a CSI
  driver (\<^verbatim>\<open>pkg/driver/node/targetpath\<close>).
\<close>

section \<open>Cleaning and joining\<close>

fun split_all :: "char \<Rightarrow> string \<Rightarrow> string list" where
  "split_all c [] = [[]]"
| "split_all c (x # xs) =
     (if x = c then [] # split_all c xs
      else case split_all c xs of [] \<Rightarrow> [[x]] | w # ws \<Rightarrow> (x # w) # ws)"

text \<open>
  \<^verbatim>\<open>filepath.Clean\<close> on the components: empty components and dots vanish, a double dot removes the
  component before it, is dropped at the root and kept at the start of a relative path. The stack
  holds the cleaned components, innermost first.
\<close>

fun clean_components :: "bool \<Rightarrow> string list \<Rightarrow> string list \<Rightarrow> string list" where
  "clean_components rooted stack [] = rev stack"
| "clean_components rooted stack (w # ws) =
     (if w = [] \<or> w = ''.'' then clean_components rooted stack ws
      else if w = ''..'' then
        (case stack of
           [] \<Rightarrow> clean_components rooted (if rooted then [] else [w]) ws
         | t # ts \<Rightarrow> if t = ''..'' then clean_components rooted (w # stack) ws
                    else clean_components rooted ts ws)
      else clean_components rooted (w # stack) ws)"

definition path_clean :: "string \<Rightarrow> string" where
  "path_clean p =
     (let rooted = has_prefix p ''/'';
          out = (if rooted then ''/'' else []) @
                join_with ''/'' (clean_components rooted [] (split_all CHR ''/'' p))
      in if out = [] then ''.'' else out)"

definition path_join :: "string list \<Rightarrow> string" where
  "path_join elems =
     (case dropWhile (\<lambda>e. e = []) elems of
        [] \<Rightarrow> []
      | es \<Rightarrow> path_clean (join_with ''/'' es))"

section \<open>Known paths\<close>

definition KnownPathMountSock :: string where "KnownPathMountSock = ''mount.sock''"
definition KnownPathMountError :: string where "KnownPathMountError = ''mount.err''"
definition KnownPathMountExit :: string where "KnownPathMountExit = ''mount.exit''"
definition KnownPathCredentials :: string where "KnownPathCredentials = ''credentials''"
definition CommunicationDirName :: string where "CommunicationDirName = ''comm''"
definition LocalCacheDirName :: string where "LocalCacheDirName = ''local-cache''"

definition PathOnHost :: "string \<Rightarrow> string list \<Rightarrow> string" where
  "PathOnHost podPathOnHost path =
     path_join ([podPathOnHost, ''/volumes/kubernetes.io~empty-dir/'', CommunicationDirName] @ path)"

definition PathInsideMountpointPod :: "string list \<Rightarrow> string" where
  "PathInsideMountpointPod path = path_join ([''/'', CommunicationDirName] @ path)"

definition SourceMountDir :: "string \<Rightarrow> string" where
  "SourceMountDir kubeletPath = path_join [kubeletPath, ''plugins'', ''s3.csi.aws.com'', ''mnt'']"

section \<open>Kubelet's directory\<close>

text \<open>The environment of the process: \<^verbatim>\<open>os.Getenv\<close> gives the empty string for an unset name.\<close>

type_synonym getenv = "string \<Rightarrow> string"

definition defaultKubeletPath :: string where "defaultKubeletPath = ''/var/lib/kubelet''"

definition ContainerKubeletPath :: "getenv \<Rightarrow> string" where
  "ContainerKubeletPath env =
     (let kubeletPath = env ''CONTAINER_KUBELET_PATH''
      in if kubeletPath = [] then defaultKubeletPath else kubeletPath)"

definition HostKubeletPath :: "getenv \<Rightarrow> string" where
  "HostKubeletPath env =
     (let kubeletPath = env ''HOST_KUBELET_PATH''
      in if kubeletPath = [] then defaultKubeletPath else kubeletPath)"

datatype path_error = NotUnderKubelet string string

text \<open>
  \<^verbatim>\<open>strings.Replace(path, hostPath, containerPath, 1)\<close> replaces the first occurrence, which is the
  prefix the code has just tested for.
\<close>

definition KubeletHostPathToContainerPath :: "getenv \<Rightarrow> string \<Rightarrow> path_error + string" where
  "KubeletHostPathToContainerPath env path =
     (let hostPath = HostKubeletPath env; containerPath = ContainerKubeletPath env
      in if hostPath = containerPath
         then (if has_prefix path containerPath then Inr path
               else Inl (NotUnderKubelet path containerPath))
         else if has_prefix path hostPath
         then Inr (containerPath @ drop (length hostPath) path)
         else Inl (NotUnderKubelet path hostPath))"

section \<open>Target paths\<close>

record target_path =
  tp_pod_id :: string
  tp_volume_id :: string

text \<open>
  The regular expression of \<^verbatim>\<open>targetpath.Parse\<close>,
  \<^verbatim>\<open>/pods/(?P<podid>[^/]+)/volumes/kubernetes.io~csi/(?P<volumeid>[^/]+)/mount$\<close>,
  matched at the start of a string. Its dot stands for any byte but a newline.
\<close>

definition match_target :: "string \<Rightarrow> target_path option" where
  "match_target s =
     (case cut_prefix s ''/pods/'' of None \<Rightarrow> None | Some s1 \<Rightarrow>
        let pod = takeWhile (\<lambda>c. c \<noteq> CHR ''/'') s1; s2 = dropWhile (\<lambda>c. c \<noteq> CHR ''/'') s1
        in if pod = [] then None else
        case cut_prefix s2 ''/volumes/kubernetes'' of None \<Rightarrow> None | Some s3 \<Rightarrow>
          if s3 = [] \<or> hd s3 = CHR 0x0A then None else
          case cut_prefix (tl s3) ''io~csi/'' of None \<Rightarrow> None | Some s4 \<Rightarrow>
            let vol = takeWhile (\<lambda>c. c \<noteq> CHR ''/'') s4; s5 = dropWhile (\<lambda>c. c \<noteq> CHR ''/'') s4
            in if vol \<noteq> [] \<and> s5 = ''/mount''
               then Some \<lparr>tp_pod_id = pod, tp_volume_id = vol\<rparr> else None)"

text \<open>\<^verbatim>\<open>FindStringSubmatch\<close> takes the leftmost match.\<close>

fun find_target :: "string \<Rightarrow> target_path option" where
  "find_target [] = None"
| "find_target (c # s) =
     (case match_target (c # s) of Some t \<Rightarrow> Some t | None \<Rightarrow> find_target s)"

datatype target_error = ErrInvalidTargetPath

definition parse_target :: "string \<Rightarrow> target_error + target_path" where
  "parse_target path =
     (case find_target path of None \<Rightarrow> Inl ErrInvalidTargetPath | Some t \<Rightarrow> Inr t)"

section \<open>Properties of the definitions\<close>

lemma takeWhile_slash:
  "CHR ''/'' \<notin> set p \<Longrightarrow> takeWhile (\<lambda>c. c \<noteq> CHR ''/'') (p @ CHR ''/'' # r) = p"
  "CHR ''/'' \<notin> set p \<Longrightarrow> dropWhile (\<lambda>c. c \<noteq> CHR ''/'') (p @ CHR ''/'' # r) = CHR ''/'' # r"
  by (induction p) auto

lemma cut_prefix_append [simp]: "cut_prefix (p @ s) p = Some s"
  by (simp add: cut_prefix_Some)

lemma match_target_path:
  assumes "CHR ''/'' \<notin> set pod" "pod \<noteq> []" "CHR ''/'' \<notin> set vol" "vol \<noteq> []"
  shows "match_target (''/pods/'' @ pod @ ''/volumes/kubernetes.io~csi/'' @ vol @ ''/mount'') =
    Some \<lparr>tp_pod_id = pod, tp_volume_id = vol\<rparr>"
proof -
  have 1: "cut_prefix (''/pods/'' @ r) ''/pods/'' = Some r" for r
    by (rule cut_prefix_append)
  have 2: "cut_prefix (''/volumes/kubernetes.io~csi/'' @ r) ''/volumes/kubernetes'' =
      Some (''.io~csi/'' @ r)" for r
    by (simp add: cut_prefix_Some)
  have 3: "cut_prefix (''io~csi/'' @ r) ''io~csi/'' = Some r" for r
    by (rule cut_prefix_append)
  show ?thesis
    using assms takeWhile_slash [of pod "''volumes/kubernetes.io~csi/'' @ vol @ ''/mount''"]
      takeWhile_slash [of vol "''mount''"] 1 2 3
    by (simp add: match_target_def)
qed

text \<open>A match fixes how the string ends.\<close>

lemma match_target_Some:
  assumes "match_target s = Some t"
  shows "\<exists>c. s = ''/pods/'' @ tp_pod_id t @ ''/volumes/kubernetes'' @ [c] @ ''io~csi/'' @
    tp_volume_id t @ ''/mount'' \<and> c \<noteq> CHR 0x0A \<and> tp_pod_id t \<noteq> [] \<and> tp_volume_id t \<noteq> [] \<and>
    CHR ''/'' \<notin> set (tp_pod_id t) \<and> CHR ''/'' \<notin> set (tp_volume_id t)"
proof -
  let ?p = "\<lambda>c. c \<noteq> CHR ''/''"
  from assms obtain s1 s3 s4 where
    s1: "s = ''/pods/'' @ s1" and
    s3: "dropWhile ?p s1 = ''/volumes/kubernetes'' @ s3" and
    ne: "s3 \<noteq> []" "hd s3 \<noteq> CHR 0x0A" and
    s4: "tl s3 = ''io~csi/'' @ s4" and
    s5: "dropWhile ?p s4 = ''/mount''" and
    w: "takeWhile ?p s1 \<noteq> []" "takeWhile ?p s4 \<noteq> []" and
    t: "t = \<lparr>tp_pod_id = takeWhile ?p s1, tp_volume_id = takeWhile ?p s4\<rparr>"
    by (auto simp: match_target_def Let_def cut_prefix_Some split: option.splits if_splits)
  have "s1 = takeWhile ?p s1 @ ''/volumes/kubernetes'' @ s3"
    using s3 by (metis takeWhile_dropWhile_id)
  moreover have "s3 = hd s3 # ''io~csi/'' @ s4"
    using ne s4 by (metis list.collapse)
  moreover have "s4 = takeWhile ?p s4 @ ''/mount''"
    using s5 by (metis takeWhile_dropWhile_id)
  ultimately have "s = ''/pods/'' @ takeWhile ?p s1 @ ''/volumes/kubernetes'' @ [hd s3] @
      ''io~csi/'' @ takeWhile ?p s4 @ ''/mount''"
    using s1 by (metis append.simps)
  moreover have "CHR ''/'' \<notin> set (takeWhile ?p s1)" "CHR ''/'' \<notin> set (takeWhile ?p s4)"
    by (auto dest: set_takeWhileD)
  ultimately show ?thesis
    using ne w t by auto
qed

lemma find_target_Some: "find_target s = Some t \<Longrightarrow> \<exists>u v. s = u @ v \<and> match_target v = Some t"
proof (induction s)
  case (Cons c s)
  show ?case
  proof (cases "match_target (c # s)")
    case None
    with Cons obtain u v where "s = u @ v" "match_target v = Some t" by auto
    then show ?thesis by (metis append_Cons)
  next
    case (Some t')
    with Cons.prems show ?thesis by (metis append_Nil find_target.simps(2) option.simps(5))
  qed
qed simp

lemma last_slash_unique:
  assumes "CHR ''/'' \<notin> set w" "CHR ''/'' \<notin> set w'" "a @ CHR ''/'' # w = b @ CHR ''/'' # w'"
  shows "a = b \<and> w = w'"
proof -
  have e: "rev w @ CHR ''/'' # rev a = rev w' @ CHR ''/'' # rev b"
    using arg_cong [OF assms(3), of rev] by simp
  have f: "split2 CHR ''/'' (rev w @ CHR ''/'' # rev a) = (rev w, rev a)"
    by (rule split2_append) (simp add: assms(1))
  have g: "split2 CHR ''/'' (rev w' @ CHR ''/'' # rev b) = (rev w', rev b)"
    by (rule split2_append) (simp add: assms(2))
  have "(rev w, rev a) = (rev w', rev b)"
    by (rule trans [OF f [symmetric, unfolded e] g])
  then show ?thesis by simp
qed

definition target_suffix :: "string \<Rightarrow> string \<Rightarrow> string" where
  "target_suffix pod vol = ''/pods/'' @ pod @ ''/volumes/kubernetes.io~csi/'' @ vol @ ''/mount''"

text \<open>No proper extension of a target path to the left matches as a whole.\<close>

lemma match_target_unique:
  assumes m: "match_target (u @ target_suffix pod vol) = Some t"
    and ok: "CHR ''/'' \<notin> set pod" "CHR ''/'' \<notin> set vol"
  shows "u = []"
proof -
  obtain c where e: "u @ target_suffix pod vol = ''/pods/'' @ tp_pod_id t @ ''/volumes/kubernetes'' @ [c] @
      ''io~csi/'' @ tp_volume_id t @ ''/mount''"
    and np: "CHR ''/'' \<notin> set (tp_pod_id t)" and nv: "CHR ''/'' \<notin> set (tp_volume_id t)"
    using match_target_Some [OF m] by blast
  have "(u @ ''/pods/'' @ pod @ ''/volumes/kubernetes.io~csi'') @ CHR ''/'' # vol =
      (''/pods/'' @ tp_pod_id t @ ''/volumes/kubernetes'' @ [c] @ ''io~csi'') @ CHR ''/'' # tp_volume_id t"
    using e by (simp add: target_suffix_def)
  then have e1: "u @ ''/pods/'' @ pod @ ''/volumes/kubernetes.io~csi'' =
      ''/pods/'' @ tp_pod_id t @ ''/volumes/kubernetes'' @ [c] @ ''io~csi''"
    using last_slash_unique [OF ok(2) nv] by blast
  then have "c = CHR ''.''"
    using arg_cong [OF e1, of rev] by simp
  then have "u @ ''/pods/'' @ pod @ ''/volumes/kubernetes.io~csi'' =
      ''/pods/'' @ tp_pod_id t @ ''/volumes/kubernetes.io~csi''"
    using e1 by simp
  then have "(u @ ''/pods'') @ CHR ''/'' # pod = ''/pods'' @ CHR ''/'' # tp_pod_id t"
    by simp
  then have "u @ ''/pods'' = ''/pods''"
    using last_slash_unique [OF ok(1) np] by blast
  then show ?thesis by simp
qed

lemma find_target_suffix:
  assumes "CHR ''/'' \<notin> set pod" "pod \<noteq> []" "CHR ''/'' \<notin> set vol" "vol \<noteq> []"
  shows "find_target (u @ target_suffix pod vol) = Some \<lparr>tp_pod_id = pod, tp_volume_id = vol\<rparr>"
proof (induction u)
  case Nil
  have "match_target (target_suffix pod vol) = Some \<lparr>tp_pod_id = pod, tp_volume_id = vol\<rparr>"
    unfolding target_suffix_def by (rule match_target_path [OF assms])
  then show ?case by (simp add: target_suffix_def)
next
  case (Cons c u)
  have "match_target ((c # u) @ target_suffix pod vol) = None"
  proof (rule ccontr)
    assume "match_target ((c # u) @ target_suffix pod vol) \<noteq> None"
    then obtain t where "match_target ((c # u) @ target_suffix pod vol) = Some t" by blast
    then have "c # u = []"
      using assms by (intro match_target_unique)
    then show False by simp
  qed
  with Cons show ?case by simp
qed

section \<open>Claims\<close>

text \<open>A path that is accepted ends in the form kubelet uses, up to the one byte the regular
  expression leaves open.\<close>

lemma parse_target_form:
  assumes "parse_target path = Inr t"
  shows "\<exists>u c. path = u @ ''/pods/'' @ tp_pod_id t @ ''/volumes/kubernetes'' @ [c] @ ''io~csi/'' @
    tp_volume_id t @ ''/mount''"
proof -
  obtain u v where uv: "path = u @ v" "match_target v = Some t"
    using assms find_target_Some by (auto simp: parse_target_def split: option.splits)
  obtain c where "v = ''/pods/'' @ tp_pod_id t @ ''/volumes/kubernetes'' @ [c] @ ''io~csi/'' @
      tp_volume_id t @ ''/mount''"
    using match_target_Some [OF uv(2)] by blast
  then show ?thesis using uv(1) by blast
qed

text \<open>C33: the Pod and volume IDs kubelet puts into a target path are read back from it, wherever
  kubelet's directory is.\<close>

theorem parse_target_roundtrip:
  assumes "CHR ''/'' \<notin> set pod" "pod \<noteq> []" "CHR ''/'' \<notin> set vol" "vol \<noteq> []"
  shows "parse_target (kubelet @ ''/pods/'' @ pod @ ''/volumes/kubernetes.io~csi/'' @ vol @ ''/mount'') =
    Inr \<lparr>tp_pod_id = pod, tp_volume_id = vol\<rparr>"
  using find_target_suffix [OF assms, of kubelet] by (simp add: parse_target_def target_suffix_def)

theorem parse_target_roundtrip_witness:
  "parse_target ''/var/lib/kubelet/pods/8f1c/volumes/kubernetes.io~csi/s3-pv/mount'' =
     Inr \<lparr>tp_pod_id = ''8f1c'', tp_volume_id = ''s3-pv''\<rparr>"
  using parse_target_roundtrip [of "''8f1c''" "''s3-pv''" "''/var/lib/kubelet''"] by simp

text \<open>a path is only translated when it lies under kubelet's directory on the host, and then
  exactly that prefix is replaced; anything else is refused.\<close>

theorem host_path_translation:
  "KubeletHostPathToContainerPath env path =
     (if \<exists>rest. path = HostKubeletPath env @ rest
      then Inr (ContainerKubeletPath env @ drop (length (HostKubeletPath env)) path)
      else Inl (NotUnderKubelet path (HostKubeletPath env)))"
  by (auto simp: KubeletHostPathToContainerPath_def Let_def has_prefix_iff)

end
