(* ===== verification/K8s.thy ===== *)
theory K8s
  imports Csi_Prelude
begin

text \<open>
  The Kubernetes objects the driver reads and writes, restricted to the fields its code uses,
  the custom resource of \<^verbatim>\<open>pkg/api/v2\<close>, and the client calls of the controller.

  The API server (and the informer cache in front of it) is not part of the repository. It is a
  parameter: a record \<open>cluster\<close> of functions that give the answer to a call as a function of
  everything that was called before. Any behaviour of the server and of the other actors of the
  cluster, stale reads included, is such a record, so a theorem about every \<open>cluster\<close> holds
  whatever they do. Each call is recorded, with its answer, at the head of \<open>calls\<close>.
\<close>

section \<open>Objects\<close>

datatype pod_phase = PhaseUnset | PodPending | PodRunning | PodSucceeded | PodFailed | PodUnknown
datatype claim_phase = ClaimPending | ClaimBound | ClaimLost

text \<open>
  A parsed \<^verbatim>\<open>resource.Quantity\<close>: the text it was parsed from and its \<^verbatim>\<open>Value()\<close>; or one built
  by \<^verbatim>\<open>resource.NewQuantity\<close>.
\<close>

datatype quantity = ParsedQuantity string int | NewQuantity int

fun quantity_value :: "quantity \<Rightarrow> int" where
  "quantity_value (ParsedQuantity _ v) = v"
| "quantity_value (NewQuantity v) = v"

datatype volume_source =
    PersistentVolumeClaimSource string
  | EmptyDirSource string "quantity option"
  | EphemeralSource "(string \<times> string) list" string quantity
  | OtherVolumeSource

record volume =
  volume_name :: string
  volume_source :: volume_source

record security_context =
  allow_privilege_escalation :: "bool option"
  drop_capabilities :: "string list"
  run_as_user :: "int option"
  run_as_non_root :: "bool option"
  seccomp_profile :: string

record container =
  container_name :: string
  container_image :: string
  image_pull_policy :: string
  container_command :: "string list"
  container_security :: security_context
  volume_mounts :: "(string \<times> string) list"
  resource_requests :: "(string \<times> quantity) list"
  resource_limits :: "(string \<times> quantity) list"

record requirement =
  requirement_key :: string
  requirement_operator :: string
  requirement_values :: "string list"

record pod_affinity_term =
  match_expressions :: "requirement list"
  affinity_namespaces :: "string list"
  topology_key :: string

record pod_condition =
  condition_type :: string
  condition_status :: string
  condition_reason :: string

record pod =
  pod_name :: string
  pod_generate_name :: string
  pod_namespace :: string
  pod_uid :: string
  pod_labels :: "strmap option"
  pod_annotations :: "strmap option"
  deletion_timestamp :: "int option"
  node_name :: string
  service_account_name :: string
  pod_security_fs_group :: "int option option" \<comment> \<open>\<^verbatim>\<open>SecurityContext.FSGroup\<close>, two pointers\<close>
  pod_volumes :: "volume list"
  scheduling_gates :: "string list"
  priority_class :: string
  restart_policy :: string
  grace_period :: "int option"
  containers :: "container list"
  node_affinity :: "requirement list"
  pod_affinity :: "pod_affinity_term list"
  tolerations :: "string list"
  phase :: pod_phase
  conditions :: "pod_condition list"

record csi_source =
  csi_driver :: string
  volume_handle :: string
  volume_attributes :: "strmap option"

record pv =
  pv_name :: string
  pv_csi :: "csi_source option"
  pv_mount_options :: "string list"
  pv_claim_ref :: "string option"

record pvc =
  pvc_name :: string
  pvc_phase :: claim_phase
  pvc_volume_name :: string

section \<open>The MountpointS3PodAttachment resource\<close>

record workload_attachment =
  workload_pod_uid :: string
  attachment_time :: int

record s3pa =
  sp_name :: string
  sp_generate_name :: string
  sp_labels :: "(string \<times> string) list"
  sp_resource_version :: string
  sp_node_name :: string
  sp_persistent_volume_name :: string
  sp_volume_id :: string
  sp_mount_options :: string
  sp_authentication_source :: string
  sp_workload_fs_group :: string
  sp_workload_service_account_name :: string
  sp_workload_namespace :: string
  sp_workload_role_arn :: string
  sp_attachments :: "(string \<times> workload_attachment list) list"

definition FieldNodeName :: string where "FieldNodeName = ''spec.nodeName''"
definition FieldPersistentVolumeName :: string where
  "FieldPersistentVolumeName = ''spec.persistentVolumeName''"
definition FieldVolumeID :: string where "FieldVolumeID = ''spec.volumeID''"
definition FieldMountOptions :: string where "FieldMountOptions = ''spec.mountOptions''"
definition FieldAuthenticationSource :: string where
  "FieldAuthenticationSource = ''spec.authenticationSource''"
definition FieldWorkloadFSGroup :: string where "FieldWorkloadFSGroup = ''spec.workloadFSGroup''"
definition FieldWorkloadServiceAccountName :: string where
  "FieldWorkloadServiceAccountName = ''spec.workloadServiceAccountName''"
definition FieldWorkloadNamespace :: string where
  "FieldWorkloadNamespace = ''spec.workloadNamespace''"
definition FieldWorkloadServiceAccountIAMRoleARN :: string where
  "FieldWorkloadServiceAccountIAMRoleARN = ''spec.workloadServiceAccountIAMRoleARN''"

lemmas field_consts = FieldNodeName_def FieldPersistentVolumeName_def FieldVolumeID_def
  FieldMountOptions_def FieldAuthenticationSource_def FieldWorkloadFSGroup_def
  FieldWorkloadServiceAccountName_def FieldWorkloadNamespace_def
  FieldWorkloadServiceAccountIAMRoleARN_def

definition getIndexFields :: "(string \<times> (s3pa \<Rightarrow> string)) list" where
  "getIndexFields =
     [(FieldNodeName, sp_node_name),
      (FieldPersistentVolumeName, sp_persistent_volume_name),
      (FieldVolumeID, sp_volume_id),
      (FieldMountOptions, sp_mount_options),
      (FieldAuthenticationSource, sp_authentication_source),
      (FieldWorkloadFSGroup, sp_workload_fs_group),
      (FieldWorkloadServiceAccountName, sp_workload_service_account_name),
      (FieldWorkloadNamespace, sp_workload_namespace),
      (FieldWorkloadServiceAccountIAMRoleARN, sp_workload_role_arn)]"

type_synonym field_filters = "(string \<times> string) list"

text \<open>An indexed \<^verbatim>\<open>List\<close> with \<^verbatim>\<open>MatchingFields\<close> returns the objects that match every filter.\<close>

definition matches_fields :: "field_filters \<Rightarrow> s3pa \<Rightarrow> bool" where
  "matches_fields filters a \<longleftrightarrow>
     (\<forall>(f, v) \<in> set filters. case map_of getIndexFields f of
        None \<Rightarrow> False | Some extract \<Rightarrow> extract a = v)"

section \<open>Errors\<close>

datatype api_error = NotFound | Conflict | AlreadyExists | OtherApiError string

datatype error =
    ApiErr api_error
  | Wrapped string error
  | Joined "error list"
  | ErrPVCIsNotBoundToAPV
  | ErrDifferentClaimRef
  | ErrNoSuitableMountpointPod
  | ErrDuplicateS3PodAttachments nat
  | ErrCacheConfiguredTwice
  | ErrUnsupportedCacheType string
  | ErrMissingAttribute string string
  | ErrUnknownMedium string
  | ErrQuantity string string string
  | ErrNilDereference \<comment> \<open>not a value: a Go panic, which ends the request\<close>

text \<open>\<^verbatim>\<open>errors.Is\<close> and the test of the first API status in the tree of wrapped errors.\<close>

fun error_is :: "error \<Rightarrow> error \<Rightarrow> bool" and errors_is :: "error list \<Rightarrow> error \<Rightarrow> bool" where
  "error_is (Wrapped m e) t = (Wrapped m e = t \<or> error_is e t)"
| "error_is (Joined es) t = (Joined es = t \<or> errors_is es t)"
| "error_is e t = (e = t)"
| "errors_is [] t = False"
| "errors_is (e # es) t = (error_is e t \<or> errors_is es t)"

fun api_status :: "error \<Rightarrow> api_error option"
  and api_statuses :: "error list \<Rightarrow> api_error option" where
  "api_status (ApiErr a) = Some a"
| "api_status (Wrapped _ e) = api_status e"
| "api_status (Joined es) = api_statuses es"
| "api_status _ = None"
| "api_statuses [] = None"
| "api_statuses (e # es) =
     (case api_status e of Some a \<Rightarrow> Some a | None \<Rightarrow> api_statuses es)"

definition is_not_found :: "error \<Rightarrow> bool" where "is_not_found e \<longleftrightarrow> api_status e = Some NotFound"
definition is_conflict :: "error \<Rightarrow> bool" where "is_conflict e \<longleftrightarrow> api_status e = Some Conflict"
definition is_already_exists :: "error \<Rightarrow> bool" where
  "is_already_exists e \<longleftrightarrow> api_status e = Some AlreadyExists"

definition errors_join :: "error list \<Rightarrow> error option" where
  "errors_join es = (if es = [] then None else Some (Joined es))"

lemma is_api_simps [simp]:
  "is_not_found (ApiErr a) \<longleftrightarrow> a = NotFound"
  "is_conflict (ApiErr a) \<longleftrightarrow> a = Conflict"
  "is_already_exists (ApiErr a) \<longleftrightarrow> a = AlreadyExists"
  by (simp_all add: is_not_found_def is_conflict_def is_already_exists_def)

section \<open>Calls\<close>

datatype api_event =
    EvGetPod string string "api_error + pod"
  | EvGetPVC string string "api_error + pvc"
  | EvGetPV string "api_error + pv"
  | EvGetServiceAccount string string "api_error + strmap option"
  | EvListPods "api_error + pod list"
  | EvListS3PA "field_filters option" "api_error + s3pa list"
  | EvCreatePod pod "api_error + pod"
  | EvUpdatePod pod "api_error option"
  | EvPatchPod pod pod "api_error + pod"
  | EvDeletePod pod "api_error option"
  | EvCreateS3PA s3pa "api_error option"
  | EvUpdateS3PA s3pa "api_error + string"
  | EvDeleteS3PA s3pa string "api_error option"

type_synonym history = "api_event list" \<comment> \<open>latest call first\<close>

record cluster =
  on_get_pod :: "history \<Rightarrow> string \<Rightarrow> string \<Rightarrow> api_error + pod"
  on_get_pvc :: "history \<Rightarrow> string \<Rightarrow> string \<Rightarrow> api_error + pvc"
  on_get_pv :: "history \<Rightarrow> string \<Rightarrow> api_error + pv"
  on_get_sa :: "history \<Rightarrow> string \<Rightarrow> string \<Rightarrow> api_error + strmap option"
  on_list_pods :: "history \<Rightarrow> api_error + pod list"
  on_list_s3pa :: "history \<Rightarrow> field_filters option \<Rightarrow> api_error + s3pa list"
  on_create_pod :: "history \<Rightarrow> pod \<Rightarrow> api_error + pod"
  on_update_pod :: "history \<Rightarrow> pod \<Rightarrow> api_error option"
  on_patch_pod :: "history \<Rightarrow> pod \<Rightarrow> pod \<Rightarrow> api_error + pod"
  on_delete_pod :: "history \<Rightarrow> pod \<Rightarrow> api_error option"
  on_create_s3pa :: "history \<Rightarrow> s3pa \<Rightarrow> api_error option"
  on_update_s3pa :: "history \<Rightarrow> s3pa \<Rightarrow> api_error + string"
  on_delete_s3pa :: "history \<Rightarrow> s3pa \<Rightarrow> api_error option"
  clock :: "history \<Rightarrow> int"                               \<comment> \<open>\<^verbatim>\<open>time.Now()\<close>, nanoseconds\<close>
  range_order :: "history \<Rightarrow> string list \<Rightarrow> string list" \<comment> \<open>order of a \<^verbatim>\<open>range\<close> over a map\<close>

record api_state =
  calls :: history

definition api_call ::
    "('z api_state_scheme \<Rightarrow> 'r) \<Rightarrow> ('r \<Rightarrow> api_event) \<Rightarrow> ('z api_state_scheme, 'r) state" where
  "api_call answer event =
     State (\<lambda>s. let r = answer s in (r, s\<lparr>calls := event r # calls s\<rparr>))"

definition lift_sum :: "api_error + 'a \<Rightarrow> error + 'a" where
  "lift_sum r = (case r of Inl e \<Rightarrow> Inl (ApiErr e) | Inr x \<Rightarrow> Inr x)"

definition get_pod :: "cluster \<Rightarrow> string \<Rightarrow> string \<Rightarrow> ('z api_state_scheme, error + pod) state" where
  "get_pod c ns n = do {
     r \<leftarrow> api_call (\<lambda>s. on_get_pod c (calls s) ns n) (EvGetPod ns n);
     State_Monad.return (lift_sum r) }"

definition get_pvc :: "cluster \<Rightarrow> string \<Rightarrow> string \<Rightarrow> ('z api_state_scheme, error + pvc) state" where
  "get_pvc c ns n = do {
     r \<leftarrow> api_call (\<lambda>s. on_get_pvc c (calls s) ns n) (EvGetPVC ns n);
     State_Monad.return (lift_sum r) }"

definition get_pv :: "cluster \<Rightarrow> string \<Rightarrow> ('z api_state_scheme, error + pv) state" where
  "get_pv c n = do {
     r \<leftarrow> api_call (\<lambda>s. on_get_pv c (calls s) n) (EvGetPV n);
     State_Monad.return (lift_sum r) }"

definition get_service_account ::
    "cluster \<Rightarrow> string \<Rightarrow> string \<Rightarrow> ('z api_state_scheme, error + strmap option) state" where
  "get_service_account c ns n = do {
     r \<leftarrow> api_call (\<lambda>s. on_get_sa c (calls s) ns n) (EvGetServiceAccount ns n);
     State_Monad.return (lift_sum r) }"

definition list_pods :: "cluster \<Rightarrow> ('z api_state_scheme, error + pod list) state" where
  "list_pods c = do {
     r \<leftarrow> api_call (\<lambda>s. on_list_pods c (calls s)) EvListPods;
     State_Monad.return (lift_sum r) }"

definition list_s3pa ::
    "cluster \<Rightarrow> field_filters option \<Rightarrow> ('z api_state_scheme, error + s3pa list) state" where
  "list_s3pa c f = do {
     r \<leftarrow> api_call (\<lambda>s. on_list_s3pa c (calls s) f) (EvListS3PA f);
     State_Monad.return (lift_sum r) }"

definition create_pod :: "cluster \<Rightarrow> pod \<Rightarrow> ('z api_state_scheme, error + pod) state" where
  "create_pod c p = do {
     r \<leftarrow> api_call (\<lambda>s. on_create_pod c (calls s) p) (EvCreatePod p);
     State_Monad.return (lift_sum r) }"

definition update_pod :: "cluster \<Rightarrow> pod \<Rightarrow> ('z api_state_scheme, error option) state" where
  "update_pod c p = do {
     r \<leftarrow> api_call (\<lambda>s. on_update_pod c (calls s) p) (EvUpdatePod p);
     State_Monad.return (map_option ApiErr r) }"

definition patch_pod :: "cluster \<Rightarrow> pod \<Rightarrow> pod \<Rightarrow> ('z api_state_scheme, error + pod) state" where
  "patch_pod c old new = do {
     r \<leftarrow> api_call (\<lambda>s. on_patch_pod c (calls s) old new) (EvPatchPod old new);
     State_Monad.return (lift_sum r) }"

definition delete_pod :: "cluster \<Rightarrow> pod \<Rightarrow> ('z api_state_scheme, error option) state" where
  "delete_pod c p = do {
     r \<leftarrow> api_call (\<lambda>s. on_delete_pod c (calls s) p) (EvDeletePod p);
     State_Monad.return (map_option ApiErr r) }"

definition create_s3pa :: "cluster \<Rightarrow> s3pa \<Rightarrow> ('z api_state_scheme, error option) state" where
  "create_s3pa c a = do {
     r \<leftarrow> api_call (\<lambda>s. on_create_s3pa c (calls s) a) (EvCreateS3PA a);
     State_Monad.return (map_option ApiErr r) }"

text \<open>
  A successful update stores the object as sent and returns it with a new resource version,
  which the client writes back into the object.
\<close>

definition update_s3pa :: "cluster \<Rightarrow> s3pa \<Rightarrow> ('z api_state_scheme, error + s3pa) state" where
  "update_s3pa c a = do {
     r \<leftarrow> api_call (\<lambda>s. on_update_s3pa c (calls s) a) (EvUpdateS3PA a);
     State_Monad.return (case r of
         Inl e \<Rightarrow> Inl (ApiErr e)
       | Inr rv \<Rightarrow> Inr (a\<lparr>sp_resource_version := rv\<rparr>)) }"

text \<open>Deletion carries the resource version of the object as a precondition.\<close>

definition delete_s3pa :: "cluster \<Rightarrow> s3pa \<Rightarrow> string \<Rightarrow> ('z api_state_scheme, error option) state" where
  "delete_s3pa c a rv = do {
     r \<leftarrow> api_call (\<lambda>s. on_delete_s3pa c (calls s) a) (EvDeleteS3PA a rv);
     State_Monad.return (map_option ApiErr r) }"

definition now :: "cluster \<Rightarrow> ('z api_state_scheme, int) state" where
  "now c = State (\<lambda>s. (clock c (calls s), s))"

definition range_keys ::
    "cluster \<Rightarrow> (string \<times> 'v) list \<Rightarrow> ('z api_state_scheme, string list) state" where
  "range_keys c m = State (\<lambda>s. (go_range (range_order c (calls s)) (map fst m), s))"

lemma wp_api_call [wp]:
  "wp (api_call answer event) Q s \<longleftrightarrow>
     Q (answer s) (s\<lparr>calls := event (answer s) # calls s\<rparr>)"
  by (simp add: api_call_def wp_State Let_def)

lemma wp_now [wp]: "wp (now c) Q s \<longleftrightarrow> Q (clock c (calls s)) s"
  by (simp add: now_def wp_State)

lemma wp_range_keys [wp]:
  "wp (range_keys c m) Q s \<longleftrightarrow> Q (go_range (range_order c (calls s)) (map fst m)) s"
  by (simp add: range_keys_def wp_State)

text \<open>Each call splits on the answer the cluster gives.\<close>

lemma wp_client [wp]:
  "wp (get_pod c ns n) Q1 s \<longleftrightarrow>
     (case on_get_pod c (calls s) ns n of
        Inl e \<Rightarrow> Q1 (Inl (ApiErr e)) (s\<lparr>calls := EvGetPod ns n (Inl e) # calls s\<rparr>)
      | Inr p \<Rightarrow> Q1 (Inr p) (s\<lparr>calls := EvGetPod ns n (Inr p) # calls s\<rparr>))"
  "wp (get_pvc c ns n) Q2 s \<longleftrightarrow>
     (case on_get_pvc c (calls s) ns n of
        Inl e \<Rightarrow> Q2 (Inl (ApiErr e)) (s\<lparr>calls := EvGetPVC ns n (Inl e) # calls s\<rparr>)
      | Inr x \<Rightarrow> Q2 (Inr x) (s\<lparr>calls := EvGetPVC ns n (Inr x) # calls s\<rparr>))"
  "wp (get_pv c n) Q3 s \<longleftrightarrow>
     (case on_get_pv c (calls s) n of
        Inl e \<Rightarrow> Q3 (Inl (ApiErr e)) (s\<lparr>calls := EvGetPV n (Inl e) # calls s\<rparr>)
      | Inr x \<Rightarrow> Q3 (Inr x) (s\<lparr>calls := EvGetPV n (Inr x) # calls s\<rparr>))"
  "wp (get_service_account c ns n) Q4 s \<longleftrightarrow>
     (case on_get_sa c (calls s) ns n of
        Inl e \<Rightarrow> Q4 (Inl (ApiErr e)) (s\<lparr>calls := EvGetServiceAccount ns n (Inl e) # calls s\<rparr>)
      | Inr x \<Rightarrow> Q4 (Inr x) (s\<lparr>calls := EvGetServiceAccount ns n (Inr x) # calls s\<rparr>))"
  "wp (list_pods c) Q5 s \<longleftrightarrow>
     (case on_list_pods c (calls s) of
        Inl e \<Rightarrow> Q5 (Inl (ApiErr e)) (s\<lparr>calls := EvListPods (Inl e) # calls s\<rparr>)
      | Inr x \<Rightarrow> Q5 (Inr x) (s\<lparr>calls := EvListPods (Inr x) # calls s\<rparr>))"
  "wp (list_s3pa c f) Q6 s \<longleftrightarrow>
     (case on_list_s3pa c (calls s) f of
        Inl e \<Rightarrow> Q6 (Inl (ApiErr e)) (s\<lparr>calls := EvListS3PA f (Inl e) # calls s\<rparr>)
      | Inr x \<Rightarrow> Q6 (Inr x) (s\<lparr>calls := EvListS3PA f (Inr x) # calls s\<rparr>))"
  "wp (create_pod c p) Q7 s \<longleftrightarrow>
     (case on_create_pod c (calls s) p of
        Inl e \<Rightarrow> Q7 (Inl (ApiErr e)) (s\<lparr>calls := EvCreatePod p (Inl e) # calls s\<rparr>)
      | Inr x \<Rightarrow> Q7 (Inr x) (s\<lparr>calls := EvCreatePod p (Inr x) # calls s\<rparr>))"
  "wp (patch_pod c p p') Q8 s \<longleftrightarrow>
     (case on_patch_pod c (calls s) p p' of
        Inl e \<Rightarrow> Q8 (Inl (ApiErr e)) (s\<lparr>calls := EvPatchPod p p' (Inl e) # calls s\<rparr>)
      | Inr x \<Rightarrow> Q8 (Inr x) (s\<lparr>calls := EvPatchPod p p' (Inr x) # calls s\<rparr>))"
  "wp (update_s3pa c a) Q9 s \<longleftrightarrow>
     (case on_update_s3pa c (calls s) a of
        Inl e \<Rightarrow> Q9 (Inl (ApiErr e)) (s\<lparr>calls := EvUpdateS3PA a (Inl e) # calls s\<rparr>)
      | Inr rv \<Rightarrow> Q9 (Inr (a\<lparr>sp_resource_version := rv\<rparr>))
                   (s\<lparr>calls := EvUpdateS3PA a (Inr rv) # calls s\<rparr>))"
  by (auto simp: get_pod_def get_pvc_def get_pv_def get_service_account_def list_pods_def
      list_s3pa_def create_pod_def patch_pod_def update_s3pa_def lift_sum_def wp split: sum.split)

lemma wp_client_write [wp]:
  "wp (update_pod c p) Q s \<longleftrightarrow>
     (case on_update_pod c (calls s) p of
        None \<Rightarrow> Q None (s\<lparr>calls := EvUpdatePod p None # calls s\<rparr>)
      | Some e \<Rightarrow> Q (Some (ApiErr e)) (s\<lparr>calls := EvUpdatePod p (Some e) # calls s\<rparr>))"
  "wp (delete_pod c p) Q s \<longleftrightarrow>
     (case on_delete_pod c (calls s) p of
        None \<Rightarrow> Q None (s\<lparr>calls := EvDeletePod p None # calls s\<rparr>)
      | Some e \<Rightarrow> Q (Some (ApiErr e)) (s\<lparr>calls := EvDeletePod p (Some e) # calls s\<rparr>))"
  "wp (create_s3pa c a) Q s \<longleftrightarrow>
     (case on_create_s3pa c (calls s) a of
        None \<Rightarrow> Q None (s\<lparr>calls := EvCreateS3PA a None # calls s\<rparr>)
      | Some e \<Rightarrow> Q (Some (ApiErr e)) (s\<lparr>calls := EvCreateS3PA a (Some e) # calls s\<rparr>))"
  "wp (delete_s3pa c a rv) Q s \<longleftrightarrow>
     (case on_delete_s3pa c (calls s) a of
        None \<Rightarrow> Q None (s\<lparr>calls := EvDeleteS3PA a rv None # calls s\<rparr>)
      | Some e \<Rightarrow> Q (Some (ApiErr e)) (s\<lparr>calls := EvDeleteS3PA a rv (Some e) # calls s\<rparr>))"
  by (auto simp: update_pod_def delete_pod_def create_s3pa_def delete_s3pa_def wp
      split: option.split)

section \<open>Guarded histories\<close>

text \<open>
  A safety property of what the controller sends: every call satisfies a guard that may look at
  the calls made before it.
\<close>

fun guarded :: "(history \<Rightarrow> api_event \<Rightarrow> bool) \<Rightarrow> history \<Rightarrow> bool" where
  "guarded G [] = True"
| "guarded G (e # h) = (G h e \<and> guarded G h)"

lemma guarded_suffix: "guarded G (h' @ e # h) \<Longrightarrow> G h e"
  by (induction h') auto

lemma guarded_conj: "guarded (\<lambda>h e. G h e \<and> G' h e) h \<longleftrightarrow> guarded G h \<and> guarded G' h"
  by (induction h) auto

lemma guarded_mono: "guarded G h \<Longrightarrow> (\<And>h e. G h e \<Longrightarrow> G' h e) \<Longrightarrow> guarded G' h"
  by (induction h) auto

text \<open>A program obeys a guard when every call it makes satisfies it, from any state.\<close>

definition obeys :: "(history \<Rightarrow> api_event \<Rightarrow> bool) \<Rightarrow> ('z api_state_scheme, 'a) state \<Rightarrow> bool" where
  "obeys G m \<longleftrightarrow> preserves (\<lambda>s. guarded G (calls s)) m"

end
