(* ===== verification/Volume_Context.thy ===== *)
theory Volume_Context
  imports Csi_Prelude
begin

text \<open>
  The keys of the volume context passed in CSI requests and of a PersistentVolume's volume
  attributes (\<^verbatim>\<open>pkg/driver/node/volumecontext\<close>), and the names of the authentication sources
  (\<^verbatim>\<open>pkg/driver/node/credentialprovider/provider.go\<close>).
\<close>

definition BucketName :: string where "BucketName = ''bucketName''"
definition AuthenticationSourceKey :: string where
  "AuthenticationSourceKey = ''authenticationSource''"
definition STSRegion :: string where "STSRegion = ''stsRegion''"
definition Cache :: string where "Cache = ''cache''"
definition CacheTypeEmptyDir :: string where "CacheTypeEmptyDir = ''emptyDir''"
definition CacheTypeEphemeral :: string where "CacheTypeEphemeral = ''ephemeral''"
definition CacheEmptyDirSizeLimit :: string where "CacheEmptyDirSizeLimit = ''cacheEmptyDirSizeLimit''"
definition CacheEmptyDirMedium :: string where "CacheEmptyDirMedium = ''cacheEmptyDirMedium''"
definition CacheEphemeralStorageClassName :: string where
  "CacheEphemeralStorageClassName = ''cacheEphemeralStorageClassName''"
definition CacheEphemeralStorageResourceRequest :: string where
  "CacheEphemeralStorageResourceRequest = ''cacheEphemeralStorageResourceRequest''"
definition MountpointPodServiceAccountName :: string where
  "MountpointPodServiceAccountName = ''mountpointPodServiceAccountName''"
definition MountpointContainerResourcesRequestsCpu :: string where
  "MountpointContainerResourcesRequestsCpu = ''mountpointContainerResourcesRequestsCpu''"
definition MountpointContainerResourcesRequestsMemory :: string where
  "MountpointContainerResourcesRequestsMemory = ''mountpointContainerResourcesRequestsMemory''"
definition MountpointContainerResourcesLimitsCpu :: string where
  "MountpointContainerResourcesLimitsCpu = ''mountpointContainerResourcesLimitsCpu''"
definition MountpointContainerResourcesLimitsMemory :: string where
  "MountpointContainerResourcesLimitsMemory = ''mountpointContainerResourcesLimitsMemory''"
definition CSIServiceAccountName :: string where
  "CSIServiceAccountName = ''csi.storage.k8s.io/serviceAccount.name''"
definition CSIServiceAccountTokens :: string where
  "CSIServiceAccountTokens = ''csi.storage.k8s.io/serviceAccount.tokens''"
definition CSIPodNamespace :: string where "CSIPodNamespace = ''csi.storage.k8s.io/pod.namespace''"
definition CSIPodUID :: string where "CSIPodUID = ''csi.storage.k8s.io/pod.uid''"

lemmas volume_context_consts = BucketName_def AuthenticationSourceKey_def STSRegion_def Cache_def
  CacheTypeEmptyDir_def CacheTypeEphemeral_def CacheEmptyDirSizeLimit_def CacheEmptyDirMedium_def
  CacheEphemeralStorageClassName_def CacheEphemeralStorageResourceRequest_def
  MountpointPodServiceAccountName_def MountpointContainerResourcesRequestsCpu_def
  MountpointContainerResourcesRequestsMemory_def MountpointContainerResourcesLimitsCpu_def
  MountpointContainerResourcesLimitsMemory_def CSIServiceAccountName_def
  CSIServiceAccountTokens_def CSIPodNamespace_def CSIPodUID_def

definition AuthenticationSourceUnspecified :: string where "AuthenticationSourceUnspecified = []"
definition AuthenticationSourceDriver :: string where "AuthenticationSourceDriver = ''driver''"
definition AuthenticationSourcePod :: string where "AuthenticationSourcePod = ''pod''"

lemmas auth_source_consts = AuthenticationSourceUnspecified_def AuthenticationSourceDriver_def
  AuthenticationSourcePod_def

end
