(* ===== verification/Creator.thy ===== *)
theory Creator
  imports Args K8s Paths Volume_Context
begin

text \<open>
  \<^verbatim>\<open>pkg/podmounter/mppod/creator.go\<close> and the part of \<^verbatim>\<open>pkg/cluster\<close> it uses: the specification
  of the Mountpoint Pod the controller spawns for a volume.

  \<^verbatim>\<open>resource.ParseQuantity\<close> belongs to Kubernetes: it is a parameter. SHA-224, used for the names of
  Headroom Pods, is a parameter as well, and so is the order in which a set of arguments is walked.
\<close>

section \<open>Configuration\<close>

datatype variant = DefaultKubernetes | OpenShift

definition MountpointPodUserID :: "variant \<Rightarrow> int option" where
  "MountpointPodUserID c = (if c = OpenShift then None else Some 1000)"

datatype priority_class_kind = DefaultPriorityClass | PreemptingPriorityClass

record container_config =
  cc_command :: string
  cc_image :: string
  cc_headroom_image :: string
  cc_image_pull_policy :: string

text \<open>The two label maps come from \<^verbatim>\<open>util.ParseLabels\<close>, which never returns a nil map.\<close>

record mppod_config =
  cluster_variant :: variant
  mountpoint_namespace :: string
  mountpoint_version :: string
  priority_class_name :: string
  preempting_priority_class_name :: string
  headroom_priority_class_name :: string
  container_cfg :: container_config
  csi_driver_version :: string
  cfg_pod_labels :: strmap
  cfg_headroom_pod_labels :: strmap

record outside =
  parse_quantity :: "string \<Rightarrow> string + quantity"
  sum224_hex :: "string \<Rightarrow> string"
  arg_walk :: walk

definition LabelMountpointVersion :: string where
  "LabelMountpointVersion = ''s3.csi.aws.com/mountpoint-version''"
definition LabelCSIDriverVersion :: string where
  "LabelCSIDriverVersion = ''s3.csi.aws.com/mounted-by-csi-driver-version''"
definition DeprecatedLabelVolumeId :: string where
  "DeprecatedLabelVolumeId = ''s3.csi.aws.com/volume-id''"
definition AnnotationNeedsUnmount :: string where
  "AnnotationNeedsUnmount = ''s3.csi.aws.com/needs-unmount''"
definition AnnotationNoNewWorkload :: string where
  "AnnotationNoNewWorkload = ''s3.csi.aws.com/no-new-workload''"
definition AnnotationVolumeName :: string where
  "AnnotationVolumeName = ''s3.csi.aws.com/volume-name''"
definition AnnotationVolumeId :: string where "AnnotationVolumeId = ''s3.csi.aws.com/volume-id''"
definition AnnotationClusterAutoscalerDaemonsetPod :: string where
  "AnnotationClusterAutoscalerDaemonsetPod = ''cluster-autoscaler.kubernetes.io/daemonset-pod''"
definition CommunicationDirSizeLimit :: int where "CommunicationDirSizeLimit = 10 * 1024 * 1024"
definition TerminationGracePeriodSeconds :: int where "TerminationGracePeriodSeconds = 600"
definition StorageMediumMemory :: string where "StorageMediumMemory = ''Memory''"

lemmas mppod_consts = LabelMountpointVersion_def LabelCSIDriverVersion_def
  DeprecatedLabelVolumeId_def AnnotationNeedsUnmount_def AnnotationNoNewWorkload_def
  AnnotationVolumeName_def AnnotationVolumeId_def AnnotationClusterAutoscalerDaemonsetPod_def

section \<open>Building the specification\<close>

definition ExtractVolumeAttributes :: "pv \<Rightarrow> strmap" where
  "ExtractVolumeAttributes p =
     (case pv_csi p of
        None \<Rightarrow> Map.empty
      | Some csi \<Rightarrow> (case volume_attributes csi of None \<Rightarrow> Map.empty | Some m \<Rightarrow> m))"

text \<open>The container hardening shared by Mountpoint and Headroom Pods.\<close>

definition hardened :: "int option \<Rightarrow> security_context" where
  "hardened uid =
     \<lparr>allow_privilege_escalation = Some False, drop_capabilities = [''ALL''], run_as_user = uid,
      run_as_non_root = Some True, seccomp_profile = ''RuntimeDefault''\<rparr>"

definition createCacheVolumeSourceForEmptyDir ::
    "outside \<Rightarrow> strmap \<Rightarrow> error + volume_source" where
  "createCacheVolumeSourceForEmptyDir out attrs =
     (let sizeLimit = go_lookup attrs CacheEmptyDirSizeLimit;
          medium = go_lookup attrs CacheEmptyDirMedium;
          limit = (if sizeLimit = [] then Inr None
                   else case parse_quantity out sizeLimit of
                          Inl e \<Rightarrow> Inl (ErrQuantity e CacheEmptyDirSizeLimit sizeLimit)
                        | Inr q \<Rightarrow> Inr (Some q))
      in case limit of
           Inl e \<Rightarrow> Inl e
         | Inr l \<Rightarrow>
             if medium \<noteq> [] then
               (if medium = StorageMediumMemory then Inr (EmptyDirSource StorageMediumMemory l)
                else Inl (ErrUnknownMedium medium))
             else Inr (EmptyDirSource [] l))"

definition createCacheVolumeSourceForEphemeral ::
    "outside \<Rightarrow> strmap \<Rightarrow> error + volume_source" where
  "createCacheVolumeSourceForEphemeral out attrs =
     (let storageClassName = go_lookup attrs CacheEphemeralStorageClassName
      in if storageClassName = []
         then Inl (ErrMissingAttribute CacheEphemeralStorageClassName CacheTypeEphemeral)
         else
           let request = go_lookup attrs CacheEphemeralStorageResourceRequest
           in if request = []
              then Inl (ErrMissingAttribute CacheEphemeralStorageResourceRequest CacheTypeEphemeral)
              else
                case parse_quantity out request of
                  Inl e \<Rightarrow> Inl (ErrQuantity e CacheEphemeralStorageResourceRequest request)
                | Inr q \<Rightarrow> Inr (EphemeralSource [(''s3.csi.aws.com/type'', ''local-ephemeral-cache'')]
                                 storageClassName q))"

definition configureLocalCache ::
    "outside \<Rightarrow> pod \<Rightarrow> container \<Rightarrow> args \<Rightarrow> strmap \<Rightarrow> error + pod \<times> container" where
  "configureLocalCache out mpPod mpContainer as attrs =
     (let enabledViaOptions = args_Has (arg_walk out) as ArgCache;
          cacheType = go_lookup attrs Cache
      in if \<not> enabledViaOptions \<and> cacheType = [] then Inr (mpPod, mpContainer)
         else if enabledViaOptions \<and> cacheType \<noteq> [] then Inl ErrCacheConfiguredTwice
         else
           let cacheType = (if enabledViaOptions then CacheTypeEmptyDir else cacheType);
               source =
                 (if cacheType = CacheTypeEmptyDir then
                    map_sum (Wrapped cacheType) id (createCacheVolumeSourceForEmptyDir out attrs)
                  else if cacheType = CacheTypeEphemeral then
                    map_sum (Wrapped cacheType) id (createCacheVolumeSourceForEphemeral out attrs)
                  else Inl (ErrUnsupportedCacheType cacheType))
           in case source of
                Inl e \<Rightarrow> Inl e
              | Inr src \<Rightarrow>
                  Inr (mpPod\<lparr>pod_volumes := pod_volumes mpPod @
                         [\<lparr>volume_name = LocalCacheDirName, volume_source = src\<rparr>]\<rparr>,
                       mpContainer\<lparr>volume_mounts := volume_mounts mpContainer @
                         [(LocalCacheDirName, path_join [''/'', LocalCacheDirName])]\<rparr>))"

definition configureServiceAccount :: "pod \<Rightarrow> strmap \<Rightarrow> pod" where
  "configureServiceAccount mpPod attrs =
     (let saName = go_lookup attrs MountpointPodServiceAccountName
      in if saName \<noteq> [] then mpPod\<lparr>service_account_name := saName\<rparr> else mpPod)"

text \<open>One entry of a resource list: absent when the attribute is not set.\<close>

definition parse_resource ::
    "outside \<Rightarrow> string \<Rightarrow> string \<Rightarrow> string \<Rightarrow> error + (string \<times> quantity) list" where
  "parse_resource out resource field text =
     (if text = [] then Inr []
      else case parse_quantity out text of
             Inl e \<Rightarrow> Inl (ErrQuantity e field text)
           | Inr q \<Rightarrow> Inr [(resource, q)])"

text \<open>
  \<^verbatim>\<open>configureResourceRequests\<close> and \<^verbatim>\<open>configureResourceLimits\<close> replace the container's list only
  when at least one of the two attributes is given.
\<close>

definition configureResourceRequests ::
    "outside \<Rightarrow> container \<Rightarrow> strmap \<Rightarrow> error + container" where
  "configureResourceRequests out mpContainer attrs =
     (let cpu = go_lookup attrs MountpointContainerResourcesRequestsCpu;
          memory = go_lookup attrs MountpointContainerResourcesRequestsMemory
      in if cpu \<noteq> [] \<or> memory \<noteq> [] then
           (case parse_resource out ''cpu'' MountpointContainerResourcesRequestsCpu cpu of
              Inl e \<Rightarrow> Inl e
            | Inr l1 \<Rightarrow>
                (case parse_resource out ''memory'' MountpointContainerResourcesRequestsMemory memory of
                   Inl e \<Rightarrow> Inl e
                 | Inr l2 \<Rightarrow> Inr (mpContainer\<lparr>resource_requests := l1 @ l2\<rparr>)))
         else Inr mpContainer)"

definition configureResourceLimits ::
    "outside \<Rightarrow> container \<Rightarrow> strmap \<Rightarrow> error + container" where
  "configureResourceLimits out mpContainer attrs =
     (let cpu = go_lookup attrs MountpointContainerResourcesLimitsCpu;
          memory = go_lookup attrs MountpointContainerResourcesLimitsMemory
      in if cpu \<noteq> [] \<or> memory \<noteq> [] then
           (case parse_resource out ''cpu'' MountpointContainerResourcesLimitsCpu cpu of
              Inl e \<Rightarrow> Inl e
            | Inr l1 \<Rightarrow>
                (case parse_resource out ''memory'' MountpointContainerResourcesLimitsMemory memory of
                   Inl e \<Rightarrow> Inl e
                 | Inr l2 \<Rightarrow> Inr (mpContainer\<lparr>resource_limits := l1 @ l2\<rparr>)))
         else Inr mpContainer)"

text \<open>
  \<^verbatim>\<open>MountpointPod\<close>. Reading \<^verbatim>\<open>pv.Spec.CSI.VolumeHandle\<close> of a volume without a CSI source is a nil
  dereference. Status fields and the name are filled in by the API server.
\<close>

definition mountpoint_pod_base ::
    "mppod_config \<Rightarrow> string \<Rightarrow> pv \<Rightarrow> csi_source \<Rightarrow> priority_class_kind \<Rightarrow> pod" where
  "mountpoint_pod_base cfg node p csi kind =
     \<lparr>pod_name = [], pod_generate_name = ''mp-'', pod_namespace = mountpoint_namespace cfg,
      pod_uid = [],
      pod_labels = Some ((cfg_pod_labels cfg)
        (LabelMountpointVersion \<mapsto> mountpoint_version cfg,
         LabelCSIDriverVersion \<mapsto> csi_driver_version cfg)),
      pod_annotations = Some [AnnotationVolumeName \<mapsto> pv_name p,
         AnnotationVolumeId \<mapsto> volume_handle csi,
         AnnotationClusterAutoscalerDaemonsetPod \<mapsto> ''true''],
      deletion_timestamp = None, node_name = [], service_account_name = [],
      pod_security_fs_group = Some (MountpointPodUserID (cluster_variant cfg)),
      pod_volumes = [\<lparr>volume_name = CommunicationDirName,
        volume_source = EmptyDirSource StorageMediumMemory
          (Some (NewQuantity CommunicationDirSizeLimit))\<rparr>],
      scheduling_gates = [],
      priority_class = (if kind = PreemptingPriorityClass then preempting_priority_class_name cfg
                        else priority_class_name cfg),
      restart_policy = ''OnFailure'', grace_period = Some TerminationGracePeriodSeconds,
      containers = [],
      node_affinity = [\<lparr>requirement_key = ''metadata.name'', requirement_operator = ''In'',
        requirement_values = [node]\<rparr>],
      pod_affinity = [], tolerations = [''Exists''], phase = PhaseUnset, conditions = []\<rparr>"

definition mountpoint_container :: "mppod_config \<Rightarrow> container" where
  "mountpoint_container cfg =
     \<lparr>container_name = ''mountpoint'', container_image = cc_image (container_cfg cfg),
      image_pull_policy = cc_image_pull_policy (container_cfg cfg),
      container_command = [cc_command (container_cfg cfg)],
      container_security = hardened (MountpointPodUserID (cluster_variant cfg)),
      volume_mounts = [(CommunicationDirName, path_join [''/'', CommunicationDirName])],
      resource_requests = [], resource_limits = []\<rparr>"

definition MountpointPod ::
    "outside \<Rightarrow> mppod_config \<Rightarrow> string \<Rightarrow> pv \<Rightarrow> priority_class_kind \<Rightarrow> error + pod" where
  "MountpointPod out cfg node p kind =
     (case pv_csi p of
        None \<Rightarrow> Inl ErrNilDereference
      | Some csi \<Rightarrow>
          let attrs = ExtractVolumeAttributes p;
              mountpointArgs = ParseArgs (pv_mount_options p)
          in case configureLocalCache out (mountpoint_pod_base cfg node p csi kind)
                    (mountpoint_container cfg) mountpointArgs attrs of
               Inl e \<Rightarrow> Inl e
             | Inr (mpPod, c1) \<Rightarrow>
                 let mpPod = configureServiceAccount mpPod attrs
                 in case configureResourceRequests out c1 attrs of
                      Inl e \<Rightarrow> Inl e
                    | Inr c2 \<Rightarrow>
                        (case configureResourceLimits out c2 attrs of
                           Inl e \<Rightarrow> Inl e
                         | Inr c3 \<Rightarrow> Inr (mpPod\<lparr>containers := [c3]\<rparr>)))"


section \<open>What the specification guarantees\<close>

lemma configureLocalCache_Inr:
  "configureLocalCache out m c as attrs = Inr (m', c') \<Longrightarrow>
     (\<exists>vs. m' = m\<lparr>pod_volumes := pod_volumes m @ vs\<rparr> \<and>
        set vs \<subseteq> {v. volume_name v = LocalCacheDirName} \<and> length vs \<le> 1) \<and>
     (\<exists>ms. c' = c\<lparr>volume_mounts := volume_mounts c @ ms\<rparr> \<and>
        set ms \<subseteq> {(LocalCacheDirName, path_join [''/'', LocalCacheDirName])} \<and> length ms \<le> 1)"
  by (auto simp: configureLocalCache_def Let_def split: if_splits sum.splits
      intro: exI [of _ "[]"])

lemma configureResourceRequests_Inr:
  "configureResourceRequests out c attrs = Inr c' \<Longrightarrow>
     \<exists>l. c' = c\<lparr>resource_requests := l\<rparr>"
  by (auto simp: configureResourceRequests_def Let_def split: if_splits sum.splits)
    (metis container.surjective container.update_convs(7))

lemma configureResourceLimits_Inr:
  "configureResourceLimits out c attrs = Inr c' \<Longrightarrow>
     \<exists>l. c' = c\<lparr>resource_limits := l\<rparr>"
  by (auto simp: configureResourceLimits_def Let_def split: if_splits sum.splits)
    (metis container.surjective container.update_convs(8))

lemma configureServiceAccount_eq:
  "configureServiceAccount m attrs = m\<lparr>service_account_name :=
     (if go_lookup attrs MountpointPodServiceAccountName = [] then service_account_name m
      else go_lookup attrs MountpointPodServiceAccountName)\<rparr>"
  by (cases m) (simp add: configureServiceAccount_def)

text \<open>
  The shape of every specification that is returned: everything but the cache volume, the service
  account and the resources is fixed by the configuration, the node and the volume.
\<close>

lemma MountpointPod_Inr:
  assumes "MountpointPod out cfg node p kind = Inr mp"
  obtains csi vs sa ms reqs lims where
    "pv_csi p = Some csi"
    "mp = (mountpoint_pod_base cfg node p csi kind)
       \<lparr>pod_volumes := pod_volumes (mountpoint_pod_base cfg node p csi kind) @ vs,
        service_account_name := sa,
        containers := [(mountpoint_container cfg)\<lparr>volume_mounts :=
          volume_mounts (mountpoint_container cfg) @ ms, resource_requests := reqs,
          resource_limits := lims\<rparr>]\<rparr>"
    "set vs \<subseteq> {v. volume_name v = LocalCacheDirName}" "length vs \<le> 1"
    "set ms \<subseteq> {(LocalCacheDirName, path_join [''/'', LocalCacheDirName])}" "length ms \<le> 1"
proof -
  from assms obtain csi where csi: "pv_csi p = Some csi"
    by (auto simp: MountpointPod_def split: option.splits)
  let ?b = "mountpoint_pod_base cfg node p csi kind" and ?c = "mountpoint_container cfg"
  let ?at = "ExtractVolumeAttributes p"
  from assms csi obtain m1 c1 c2 c3 where
    1: "configureLocalCache out ?b ?c (ParseArgs (pv_mount_options p)) ?at = Inr (m1, c1)" and
    2: "configureResourceRequests out c1 ?at = Inr c2" and
    3: "configureResourceLimits out c2 ?at = Inr c3" and
    mp: "mp = (configureServiceAccount m1 ?at)\<lparr>containers := [c3]\<rparr>"
    by (auto simp: MountpointPod_def Let_def split: option.splits sum.splits prod.splits)
  obtain vs ms where
    m1: "m1 = ?b\<lparr>pod_volumes := pod_volumes ?b @ vs\<rparr>"
    and c1: "c1 = ?c\<lparr>volume_mounts := volume_mounts ?c @ ms\<rparr>"
    and vm: "set vs \<subseteq> {v. volume_name v = LocalCacheDirName}" "length vs \<le> 1"
    "set ms \<subseteq> {(LocalCacheDirName, path_join [''/'', LocalCacheDirName])}" "length ms \<le> 1"
    using configureLocalCache_Inr [OF 1] by blast
  obtain reqs where c2: "c2 = c1\<lparr>resource_requests := reqs\<rparr>"
    using configureResourceRequests_Inr [OF 2] by blast
  obtain lims where c3: "c3 = c2\<lparr>resource_limits := lims\<rparr>"
    using configureResourceLimits_Inr [OF 3] by blast
  obtain sa where sa: "configureServiceAccount m1 ?at = m1\<lparr>service_account_name := sa\<rparr>"
    using configureServiceAccount_eq by blast
  have "mp = ?b\<lparr>pod_volumes := pod_volumes ?b @ vs, service_account_name := sa,
      containers := [?c\<lparr>volume_mounts := volume_mounts ?c @ ms, resource_requests := reqs,
        resource_limits := lims\<rparr>]\<rparr>"
    unfolding mp sa unfolding m1 c3 c2 c1 by (rule refl)
  then show ?thesis
    by (rule that [OF csi _ vm])
qed

end
