(* ===== verification/Headroom.thy ===== *)
theory Headroom
  imports Creator
begin

text \<open>
  \<^verbatim>\<open>pkg/podmounter/mppod/headroom.go\<close>: Headroom Pods reserve room on a node for the Mountpoint Pod
  of a workload that asked for it with a scheduling gate.
\<close>

definition LabelHeadroomForPod :: string where
  "LabelHeadroomForPod = ''s3.csi.aws.com/headroom-for-pod''"
definition LabelHeadroomForVolume :: string where
  "LabelHeadroomForVolume = ''s3.csi.aws.com/headroom-for-volume''"
definition LabelHeadroomForWorkload :: string where
  "LabelHeadroomForWorkload = ''s3.csi.aws.com/headroom-for-workload''"
definition SchedulingGateReserveHeadroomForMountpointPod :: string where
  "SchedulingGateReserveHeadroomForMountpointPod = ''s3.csi.aws.com/reserve-headroom-for-mppod''"
definition headroomPodNamePrefix :: string where "headroomPodNamePrefix = ''hr-''"

definition HeadroomPodNameFor :: "outside \<Rightarrow> pod \<Rightarrow> pv \<Rightarrow> string" where
  "HeadroomPodNameFor out workloadPod p =
     headroomPodNamePrefix @ sum224_hex out (pod_uid workloadPod @ pv_name p)"

definition IsHeadroomPod :: "pod \<Rightarrow> bool" where
  "IsHeadroomPod p = has_prefix (pod_name p) headroomPodNamePrefix"

definition headroom_pod_base :: "outside \<Rightarrow> mppod_config \<Rightarrow> pod \<Rightarrow> pv \<Rightarrow> pod" where
  "headroom_pod_base out cfg workloadPod p =
     \<lparr>pod_name = HeadroomPodNameFor out workloadPod p, pod_generate_name = [],
      pod_namespace = mountpoint_namespace cfg, pod_uid = [],
      pod_labels = Some ((cfg_headroom_pod_labels cfg)
        (LabelHeadroomForPod \<mapsto> pod_uid workloadPod, LabelHeadroomForVolume \<mapsto> pv_name p)),
      pod_annotations = None, deletion_timestamp = None, node_name = [], service_account_name = [],
      pod_security_fs_group = None, pod_volumes = [], scheduling_gates = [],
      priority_class = headroom_priority_class_name cfg,
      restart_policy = [], grace_period = None, containers = [], node_affinity = [],
      pod_affinity =
        [\<lparr>match_expressions = [\<lparr>requirement_key = LabelHeadroomForWorkload,
            requirement_operator = ''In'', requirement_values = [pod_uid workloadPod]\<rparr>],
          affinity_namespaces = [pod_namespace workloadPod],
          topology_key = ''kubernetes.io/hostname''\<rparr>],
      tolerations = [''Exists''], phase = PhaseUnset, conditions = []\<rparr>"

definition headroom_container :: "mppod_config \<Rightarrow> container" where
  "headroom_container cfg =
     \<lparr>container_name = ''pause'', container_image = cc_headroom_image (container_cfg cfg),
      image_pull_policy = [], container_command = [], container_security = hardened None,
      volume_mounts = [], resource_requests = [], resource_limits = []\<rparr>"

definition HeadroomPod :: "outside \<Rightarrow> mppod_config \<Rightarrow> pod \<Rightarrow> pv \<Rightarrow> error + pod" where
  "HeadroomPod out cfg workloadPod p =
     (let attrs = ExtractVolumeAttributes p
      in case configureResourceRequests out (headroom_container cfg) attrs of
           Inl e \<Rightarrow> Inl e
         | Inr c1 \<Rightarrow>
             (case configureResourceLimits out c1 attrs of
                Inl e \<Rightarrow> Inl e
              | Inr c2 \<Rightarrow>
                  Inr ((headroom_pod_base out cfg workloadPod p)\<lparr>containers := [c2]\<rparr>)))"

definition WorkloadHasLabelPodForHeadroomPod :: "pod \<Rightarrow> bool" where
  "WorkloadHasLabelPodForHeadroomPod workloadPod \<longleftrightarrow>
     pod_labels workloadPod \<noteq> None \<and>
     go_lookup_nil (pod_labels workloadPod) LabelHeadroomForWorkload \<noteq> []"

text \<open>Both return the pod as they leave it and whether they changed it.\<close>

definition LabelWorkloadPodForHeadroomPod :: "pod \<Rightarrow> pod \<times> bool" where
  "LabelWorkloadPodForHeadroomPod workloadPod =
     (if WorkloadHasLabelPodForHeadroomPod workloadPod then (workloadPod, False)
      else
        let labels = (case pod_labels workloadPod of None \<Rightarrow> Map.empty | Some m \<Rightarrow> m)
        in (workloadPod\<lparr>pod_labels :=
              Some (labels(LabelHeadroomForWorkload \<mapsto> pod_uid workloadPod))\<rparr>, True))"

definition UnlabelWorkloadPodForHeadroomPod :: "pod \<Rightarrow> pod \<times> bool" where
  "UnlabelWorkloadPodForHeadroomPod workloadPod =
     (if \<not> WorkloadHasLabelPodForHeadroomPod workloadPod then (workloadPod, False)
      else
        (workloadPod\<lparr>pod_labels :=
           map_option (\<lambda>m. m(LabelHeadroomForWorkload := None)) (pod_labels workloadPod)\<rparr>, True))"

definition isHeadroomSchedulingGate :: "string \<Rightarrow> bool" where
  "isHeadroomSchedulingGate sg \<longleftrightarrow> sg = SchedulingGateReserveHeadroomForMountpointPod"

definition ShouldReserveHeadroomForMountpointPod :: "pod \<Rightarrow> bool" where
  "ShouldReserveHeadroomForMountpointPod workloadPod \<longleftrightarrow>
     list_ex isHeadroomSchedulingGate (scheduling_gates workloadPod)"

definition UngateHeadroomSchedulingGateForWorkloadPod :: "pod \<Rightarrow> pod" where
  "UngateHeadroomSchedulingGateForWorkloadPod workloadPod =
     workloadPod\<lparr>scheduling_gates :=
       filter (\<lambda>sg. \<not> isHeadroomSchedulingGate sg) (scheduling_gates workloadPod)\<rparr>"

section \<open>Laws\<close>

lemma HeadroomPod_Inr:
  "HeadroomPod out cfg w p = Inr hr \<Longrightarrow>
     \<exists>c. hr = (headroom_pod_base out cfg w p)\<lparr>containers := [c]\<rparr>"
  by (auto simp: HeadroomPod_def Let_def split: sum.splits)

lemma label_then_has_label:
  "pod_uid w \<noteq> [] \<Longrightarrow> WorkloadHasLabelPodForHeadroomPod (fst (LabelWorkloadPodForHeadroomPod w))"
  by (auto simp: LabelWorkloadPodForHeadroomPod_def WorkloadHasLabelPodForHeadroomPod_def
      go_lookup_nil_def go_lookup_def Let_def)

lemma unlabel_then_no_label:
  "\<not> WorkloadHasLabelPodForHeadroomPod (fst (UnlabelWorkloadPodForHeadroomPod w))"
  by (auto simp: UnlabelWorkloadPodForHeadroomPod_def WorkloadHasLabelPodForHeadroomPod_def
      go_lookup_nil_def go_lookup_def split: option.splits)

lemma unlabel_label:
  assumes "pod_uid w \<noteq> []" "\<not> WorkloadHasLabelPodForHeadroomPod w"
    and "\<And>m. pod_labels w = Some m \<Longrightarrow> m LabelHeadroomForWorkload = None"
    and "pod_labels w \<noteq> None"
  shows "fst (UnlabelWorkloadPodForHeadroomPod (fst (LabelWorkloadPodForHeadroomPod w))) = w"
  using assms
  by (auto simp: LabelWorkloadPodForHeadroomPod_def UnlabelWorkloadPodForHeadroomPod_def
      WorkloadHasLabelPodForHeadroomPod_def go_lookup_nil_def go_lookup_def fun_upd_idem)

lemma ungate_not_gated:
  "\<not> ShouldReserveHeadroomForMountpointPod (UngateHeadroomSchedulingGateForWorkloadPod w)"
  by (auto simp: ShouldReserveHeadroomForMountpointPod_def list_ex_iff
      UngateHeadroomSchedulingGateForWorkloadPod_def)

lemma headroom_pod_is_headroom: "HeadroomPod out cfg w p = Inr hr \<Longrightarrow> IsHeadroomPod hr"
  by (auto dest!: HeadroomPod_Inr simp: headroom_pod_base_def IsHeadroomPod_def HeadroomPodNameFor_def)

end
