(* ===== verification/Expectations.thy ===== *)
theory Expectations
  imports K8s
begin

text \<open>
  \<^verbatim>\<open>cmd/aws-s3-csi-controller/csicontroller/expectations.go\<close>: the in-memory record of the
  MountpointS3PodAttachments that were created and have not been seen in the informer cache yet.
  The contract the reconciler relies on is the locale \<open>expectation_store\<close>.
\<close>

section \<open>The contract\<close>

locale expectation_store =
  fixes mark :: "'f \<Rightarrow> 's \<Rightarrow> 's"
    and unmark :: "'f \<Rightarrow> 's \<Rightarrow> 's"
    and pending :: "'f \<Rightarrow> 's \<Rightarrow> bool"
    and same :: "'f \<Rightarrow> 'f \<Rightarrow> bool"
  assumes pending_mark: "pending f (mark g s) \<longleftrightarrow> same f g \<or> pending f s"
    and pending_unmark: "pending f (unmark g s) \<longleftrightarrow> \<not> same f g \<and> pending f s"
    and same_refl: "same f f"
begin

lemma pending_mark_same: "pending f (mark f s)"
  by (simp add: pending_mark same_refl)

lemma not_pending_unmark_same: "\<not> pending f (unmark f s)"
  by (simp add: pending_unmark same_refl)

lemma unmark_mark: "pending f (unmark g (mark g s)) \<longleftrightarrow> pending f (unmark g s)"
  by (auto simp: pending_mark pending_unmark)

text \<open>
  Replaying a sequence of operations (\<^term>\<open>True\<close> marks, \<^term>\<open>False\<close> unmarks): the last operation on
  the filter decides, and operations on other filters do not matter.
\<close>

definition replay :: "(bool \<times> 'f) list \<Rightarrow> 's \<Rightarrow> 's" where
  "replay ops s = fold (\<lambda>(b, g). if b then mark g else unmark g) ops s"

lemma pending_replay:
  "pending f (replay ops s) \<longleftrightarrow>
     (case find (\<lambda>(b, g). same f g) (rev ops) of
        None \<Rightarrow> pending f s | Some (b, _) \<Rightarrow> b)"
  by (induction ops rule: rev_induct) (auto simp: replay_def pending_mark pending_unmark split: if_splits)

end

section \<open>The code's store\<close>

text \<open>The keys of \<^verbatim>\<open>client.MatchingFields\<close>, and the string derived from it.\<close>

definition filter_names :: "field_filters \<Rightarrow> string list" where
  "filter_names fieldFilters = remdups (map fst fieldFilters)"

definition deriveExpectationKeyFromFilters ::
    "(string list \<Rightarrow> string list) \<Rightarrow> field_filters \<Rightarrow> string" where
  "deriveExpectationKeyFromFilters ord fieldFilters =
     (let keys = sort (go_range ord (filter_names fieldFilters))
      in concat (map (\<lambda>k. k @ ''='' @ go_lookup (map_of fieldFilters) k @ '';'') keys))"

type_synonym expectations = "string set"

definition setPending ::
    "(string list \<Rightarrow> string list) \<Rightarrow> field_filters \<Rightarrow> expectations \<Rightarrow> expectations" where
  "setPending ord fieldFilters e = insert (deriveExpectationKeyFromFilters ord fieldFilters) e"

definition isPending ::
    "(string list \<Rightarrow> string list) \<Rightarrow> field_filters \<Rightarrow> expectations \<Rightarrow> bool" where
  "isPending ord fieldFilters e \<longleftrightarrow> deriveExpectationKeyFromFilters ord fieldFilters \<in> e"

definition clearPending ::
    "(string list \<Rightarrow> string list) \<Rightarrow> field_filters \<Rightarrow> expectations \<Rightarrow> expectations" where
  "clearPending ord fieldFilters e = e - {deriveExpectationKeyFromFilters ord fieldFilters}"

section \<open>The key\<close>

text \<open>The key in terms of the map alone.\<close>

definition filter_key :: "field_filters \<Rightarrow> string" where
  "filter_key f =
     concat (map (\<lambda>k. k @ ''='' @ go_lookup (map_of f) k @ '';'') (sort (filter_names f)))"

lemma derive_key: "deriveExpectationKeyFromFilters ord f = filter_key f"
proof -
  have "mset (go_range ord (filter_names f)) = mset (filter_names f)"
    by (rule mset_go_range) (simp add: filter_names_def)
  then have "sort (go_range ord (filter_names f)) = sort (filter_names f)"
    by (metis properties_for_sort sorted_sort mset_sort)
  then show ?thesis
    by (simp add: deriveExpectationKeyFromFilters_def filter_key_def Let_def)
qed

lemma filter_names_sorted: "sort (filter_names f) = sorted_list_of_set (dom (map_of f))"
  by (simp add: filter_names_def dom_map_of_conv_image_fst sorted_list_of_set_sort_remdups
      flip: set_map)

lemma filter_key_cong: "map_of f = map_of g \<Longrightarrow> filter_key f = filter_key g"
  by (simp add: filter_key_def filter_names_sorted)

interpretation exp_store: expectation_store "setPending ord" "clearPending ord" "isPending ord"
    "\<lambda>f g. filter_key f = filter_key g" for ord
  by unfold_locales (auto simp: setPending_def clearPending_def isPending_def derive_key)

text \<open>
  Reading a key back: the text up to the first equals sign is a name, the text up to the next
  semicolon its value.
\<close>

lemma entry_inj:
  assumes eq: "k @ ''='' @ v @ '';'' @ r = k' @ ''='' @ v' @ '';'' @ r'"
    and ks: "CHR ''='' \<notin> set k" "CHR ''='' \<notin> set k'"
    and vs: "CHR '';'' \<notin> set v" "CHR '';'' \<notin> set v'"
  shows "k = k' \<and> v = v' \<and> r = r'"
proof -
  have "split2 CHR ''='' (k @ ''='' @ v @ '';'' @ r) = (k, v @ '';'' @ r)"
    "split2 CHR ''='' (k' @ ''='' @ v' @ '';'' @ r') = (k', v' @ '';'' @ r')"
    using ks by (simp_all add: split2_append)
  with eq have "k = k'" "v @ '';'' @ r = v' @ '';'' @ r'" by auto
  moreover have "split2 CHR '';'' (v @ '';'' @ r) = (v, r)" "split2 CHR '';'' (v' @ '';'' @ r') = (v', r')"
    using vs by (simp_all add: split2_append)
  ultimately show ?thesis by auto
qed

definition key_entries :: "(string \<times> string) list \<Rightarrow> string" where
  "key_entries kvs = concat (map (\<lambda>(k, v). k @ ''='' @ v @ '';'') kvs)"

definition clean_entries :: "(string \<times> string) list \<Rightarrow> bool" where
  "clean_entries kvs \<longleftrightarrow> (\<forall>(k, v) \<in> set kvs. CHR ''='' \<notin> set k \<and> CHR '';'' \<notin> set v)"

lemma key_entries_inj:
  "clean_entries kvs \<Longrightarrow> clean_entries kvs' \<Longrightarrow> key_entries kvs = key_entries kvs' \<Longrightarrow> kvs = kvs'"
proof (induction kvs arbitrary: kvs')
  case Nil
  then show ?case by (cases kvs') (auto simp: key_entries_def)
next
  case (Cons kv kvs)
  obtain k v where kv: "kv = (k, v)" by (cases kv)
  from Cons.prems(3) kv obtain k' v' l where kvs': "kvs' = (k', v') # l"
    by (cases kvs') (auto simp: key_entries_def)
  have "k = k' \<and> v = v' \<and> key_entries kvs = key_entries l"
    using Cons.prems kv kvs' by (intro entry_inj) (auto simp: key_entries_def clean_entries_def)
  then show ?case
    using Cons kv kvs' by (auto simp: clean_entries_def)
qed

lemma filter_key_entries:
  "filter_key f =
     key_entries (map (\<lambda>k. (k, go_lookup (map_of f) k)) (sort (filter_names f)))"
  by (simp add: filter_key_def key_entries_def comp_def)

lemma clean_filter_entries:
  "clean_entries f \<Longrightarrow> clean_entries (map (\<lambda>k. (k, go_lookup (map_of f) k)) (sort (filter_names f)))"
  by (fastforce simp: clean_entries_def filter_names_def go_lookup_def split: option.splits
      dest: map_of_SomeD [OF sym] map_of_SomeD)

lemma filter_key_inj:
  assumes "clean_entries f" "clean_entries g" "filter_key f = filter_key g"
  shows "map_of f = map_of g"
proof -
  let ?e = "\<lambda>f. map (\<lambda>k. (k, go_lookup (map_of f) k)) (sort (filter_names f))"
  have e: "?e f = ?e g"
    using assms by (intro key_entries_inj) (simp_all add: clean_filter_entries filter_key_entries)
  have "map_of (?e f) = map_of f" for f :: field_filters
  proof
    fix k
    have "map_of (map (\<lambda>k. (k, go_lookup (map_of f) k)) ks) k =
      (if k \<in> set ks then Some (go_lookup (map_of f) k) else None)" for ks
      by (induction ks) auto
    moreover have "k \<in> set (sort (filter_names f)) \<longleftrightarrow> map_of f k \<noteq> None"
      by (simp add: filter_names_def map_of_eq_None_iff)
    ultimately show "map_of (?e f) k = map_of f k"
      by (cases "map_of f k") (simp_all add: go_lookup_def)
  qed
  then show ?thesis using e by metis
qed

text \<open>
  The expectation key is a function of the filters as a map: it does not depend on the order in
  which Go iterates the map, and a mark made under one order is found, and removed, under another.
\<close>

theorem expectation_key_order_independent:
  assumes "map_of f = map_of g"
  shows "deriveExpectationKeyFromFilters o1 f = deriveExpectationKeyFromFilters o2 g \<and>
    isPending o1 f (setPending o2 g e) \<and> \<not> isPending o1 f (clearPending o2 g e)"
  using filter_key_cong [OF assms]
  by (simp add: derive_key isPending_def setPending_def clearPending_def)

theorem expectation_key_order_independent_witness:
  "deriveExpectationKeyFromFilters rev [(''b'', ''2''), (''a'', ''1'')] =
     deriveExpectationKeyFromFilters id [(''a'', ''1''), (''b'', ''2'')] \<and>
   isPending rev [(''b'', ''2''), (''a'', ''1'')] (setPending id [(''a'', ''1''), (''b'', ''2'')] {})"
proof -
  have "map_of [(''b'', ''2''), (''a'', ''1'')] = map_of [(''a'', ''1''), (''b'', ''2'')]"
    by (simp add: fun_upd_twist)
  from expectation_key_order_independent [OF this, of rev id "{}"] show ?thesis by blast
qed

text \<open>
  The key separates any two filter maps whose names contain no equals sign and whose values
  contain no semicolon: a pending creation is then never mistaken for one of other filters.
\<close>

theorem expectation_key_injective:
  assumes "clean_entries f" "clean_entries g"
  shows "isPending o1 f (setPending o2 g {}) \<longleftrightarrow> map_of f = map_of g"
  using filter_key_inj [OF assms] filter_key_cong [of f g]
  by (auto simp: derive_key isPending_def setPending_def)

theorem expectation_key_injective_witness:
  "\<not> isPending id [(''a'', ''1'')] (setPending id [(''a'', ''2'')] {})"
  using expectation_key_injective [of "[(''a'', ''1'')]" "[(''a'', ''2'')]" id id]
  by (simp add: clean_entries_def fun_eq_iff)

text \<open>
  Without that restriction the key does not represent the filters uniquely, although its
  documentation says so: a mount option that contains a semicolon moves across a field boundary, and
  a creation that is pending for one volume makes another volume's look pending.
\<close>

theorem expectation_key_collision:
  "let f = [(FieldAuthenticationSource, ''driver''),
            (FieldMountOptions, ''--read-only;spec.mountOptions=b'')];
       g = [(FieldAuthenticationSource, ''driver;spec.mountOptions=--read-only''),
            (FieldMountOptions, ''b'')]
   in map_of f \<noteq> map_of g \<and> isPending o1 f (setPending o2 g {})"
  by (simp add: Let_def isPending_def setPending_def derive_key filter_key_def filter_names_def
      field_consts go_lookup_def fun_eq_iff exI [of _ FieldMountOptions])

end
