(* ===== verification/Reconciler.thy ===== *)
theory Reconciler
  imports Headroom Expectations
begin

text \<open>
  \<^verbatim>\<open>cmd/aws-s3-csi-controller/csicontroller/reconciler.go\<close>: the controller that gives every
  workload Pod using the driver's volumes a Mountpoint Pod, shares Mountpoint Pods between workloads
  with the same settings through a MountpointS3PodAttachment, and removes them when unused.

  Operations run in the state monad over the calls made so far and the pending expectations. A
  handler returns whether to requeue and an error, as in the code; logging is left out.
\<close>

section \<open>Constants, configuration and state\<close>

definition mountpointCSIDriverName :: string where "mountpointCSIDriverName = ''s3.csi.aws.com''"
definition defaultServiceAccount :: string where "defaultServiceAccount = ''default''"
definition AnnotationServiceAccountRole :: string where
  "AnnotationServiceAccountRole = ''eks.amazonaws.com/role-arn''"
definition LabelCreatedByCSIDriverVersion :: string where
  "LabelCreatedByCSIDriverVersion = ''s3.csi.aws.com/created-by-csi-driver-version''"

abbreviation (input) "Requeue \<equiv> True"
abbreviation (input) "DontRequeue \<equiv> False"

type_synonym handled = "bool \<times> error option"

record reconciler =
  client :: cluster
  mountpointPodConfig :: mppod_config
  creatorOutside :: outside

record ctl_state = api_state +
  s3paExpectations :: expectations

text \<open>The store of expectations as operations of the state monad.\<close>

definition expect_pending :: "reconciler \<Rightarrow> field_filters \<Rightarrow> (ctl_state, bool) state" where
  "expect_pending r f =
     State (\<lambda>s. (isPending (range_order (client r) (calls s)) f (s3paExpectations s), s))"

definition expect_set :: "reconciler \<Rightarrow> field_filters \<Rightarrow> (ctl_state, unit) state" where
  "expect_set r f =
     State (\<lambda>s. ((), s\<lparr>s3paExpectations :=
        setPending (range_order (client r) (calls s)) f (s3paExpectations s)\<rparr>))"

definition expect_clear :: "reconciler \<Rightarrow> field_filters \<Rightarrow> (ctl_state, unit) state" where
  "expect_clear r f =
     State (\<lambda>s. ((), s\<lparr>s3paExpectations :=
        clearPending (range_order (client r) (calls s)) f (s3paExpectations s)\<rparr>))"

section \<open>Predicates on Pods and attachments\<close>

definition isInMountpointNamespace :: "reconciler \<Rightarrow> pod \<Rightarrow> bool" where
  "isInMountpointNamespace r p \<longleftrightarrow> pod_namespace p = mountpoint_namespace (mountpointPodConfig r)"

definition isHeadroomForMountpointPodsFeatureEnabled :: "reconciler \<Rightarrow> bool" where
  "isHeadroomForMountpointPodsFeatureEnabled r \<longleftrightarrow>
     headroom_priority_class_name (mountpointPodConfig r) \<noteq> [] \<and>
     preempting_priority_class_name (mountpointPodConfig r) \<noteq> []"

definition extractCSISpecFromPV :: "pv \<Rightarrow> csi_source option" where
  "extractCSISpecFromPV p =
     (case pv_csi p of
        None \<Rightarrow> None
      | Some csi \<Rightarrow> if csi_driver csi \<noteq> mountpointCSIDriverName then None else Some csi)"

definition isPodRunning :: "pod \<Rightarrow> bool" where
  "isPodRunning p \<longleftrightarrow> phase p = PodRunning"

definition isPodActive :: "pod \<Rightarrow> bool" where
  "isPodActive p \<longleftrightarrow> isPodRunning p \<or> (phase p = PodPending \<and> deletion_timestamp p = None)"

definition isPodTerminating :: "pod \<Rightarrow> bool" where
  "isPodTerminating p \<longleftrightarrow> deletion_timestamp p \<noteq> None"

definition isPodScheduled :: "pod \<Rightarrow> bool" where
  "isPodScheduled p \<longleftrightarrow> node_name p \<noteq> []"

definition shouldDeleteHeadroomPodForTheWorkloadPod :: "pod \<Rightarrow> bool" where
  "shouldDeleteHeadroomPodForTheWorkloadPod w =
     (if isPodTerminating w then True
      else if isPodScheduled w then phase w \<noteq> PodPending
      else False)"

definition s3paContainsWorkload :: "s3pa \<Rightarrow> string \<Rightarrow> bool" where
  "s3paContainsWorkload a workloadUID \<longleftrightarrow>
     list_ex (\<lambda>(k, attachments). list_ex (\<lambda>w. workload_pod_uid w = workloadUID) attachments)
       (sp_attachments a)"

definition getServiceAccountName :: "pod \<Rightarrow> string" where
  "getServiceAccountName p =
     (if service_account_name p \<noteq> [] then service_account_name p else defaultServiceAccount)"

definition shouldAssignNewWorkloadToMountpointPod :: "reconciler \<Rightarrow> pod \<Rightarrow> bool" where
  "shouldAssignNewWorkloadToMountpointPod r mpPod =
     (if pod_annotations mpPod \<noteq> None \<and>
         go_lookup_nil (pod_annotations mpPod) AnnotationNeedsUnmount = ''true'' then False
      else if pod_annotations mpPod \<noteq> None \<and>
         go_lookup_nil (pod_annotations mpPod) AnnotationNoNewWorkload = ''true'' then False
      else if pod_labels mpPod \<noteq> None \<and>
         go_lookup_nil (pod_labels mpPod) LabelCSIDriverVersion
           \<noteq> csi_driver_version (mountpointPodConfig r) then False
      else True)"

section \<open>Field filters\<close>

definition getAuthSource :: "pv \<Rightarrow> string" where
  "getAuthSource p =
     (let authSource = go_lookup (ExtractVolumeAttributes p) AuthenticationSourceKey
      in if authSource = AuthenticationSourceUnspecified then AuthenticationSourceDriver
         else authSource)"

text \<open>The API server defaults the security context of a Pod; reading it when nil is a panic.\<close>

definition getFSGroup :: "pod \<Rightarrow> error + string" where
  "getFSGroup w =
     (case pod_security_fs_group w of
        None \<Rightarrow> Inl ErrNilDereference
      | Some None \<Rightarrow> Inr []
      | Some (Some n) \<Rightarrow> Inr (format_int n))"

definition buildFieldFilters :: "pod \<Rightarrow> pv \<Rightarrow> string \<Rightarrow> error + field_filters" where
  "buildFieldFilters w p roleArn =
     (let authSource = getAuthSource p
      in case getFSGroup w of
           Inl e \<Rightarrow> Inl e
         | Inr fsGroup \<Rightarrow>
             (case pv_csi p of
                None \<Rightarrow> Inl ErrNilDereference
              | Some csi \<Rightarrow>
                  Inr ([(FieldNodeName, node_name w),
                        (FieldPersistentVolumeName, pv_name p),
                        (FieldVolumeID, volume_handle csi),
                        (FieldMountOptions, join_with '','' (pv_mount_options p)),
                        (FieldWorkloadFSGroup, fsGroup),
                        (FieldAuthenticationSource, authSource)] @
                       (if authSource = AuthenticationSourcePod then
                          [(FieldWorkloadNamespace, pod_namespace w),
                           (FieldWorkloadServiceAccountName, getServiceAccountName w),
                           (FieldWorkloadServiceAccountIAMRoleARN, roleArn)]
                        else []))))"

section \<open>Lookups and single writes\<close>

definition deleteS3PodAttachment :: "reconciler \<Rightarrow> s3pa \<Rightarrow> (ctl_state, error option) state" where
  "deleteS3PodAttachment r a = delete_s3pa (client r) a (sp_resource_version a)"

definition spawnMountpointPod ::
    "reconciler \<Rightarrow> pod \<Rightarrow> pv \<Rightarrow> priority_class_kind \<Rightarrow> (ctl_state, error + pod) state" where
  "spawnMountpointPod r w p kind =
     (case MountpointPod (creatorOutside r) (mountpointPodConfig r) (node_name w) p kind of
        Inl e \<Rightarrow> State_Monad.return (Inl e)
      | Inr mpPod \<Rightarrow> create_pod (client r) mpPod)"

definition deleteMountpointPod :: "reconciler \<Rightarrow> pod \<Rightarrow> (ctl_state, error option) state" where
  "deleteMountpointPod r mpPod = do {
     err \<leftarrow> delete_pod (client r) mpPod;
     State_Monad.return (case err of
         None \<Rightarrow> None
       | Some e \<Rightarrow> if is_not_found e then None else Some e) }"

definition getMountpointPod :: "reconciler \<Rightarrow> string \<Rightarrow> (ctl_state, error + pod) state" where
  "getMountpointPod r name =
     get_pod (client r) (mountpoint_namespace (mountpointPodConfig r)) name"

definition getBoundPVForPodClaim ::
    "reconciler \<Rightarrow> pod \<Rightarrow> string \<Rightarrow> (ctl_state, error + pvc \<times> pv) state" where
  "getBoundPVForPodClaim r w claimName = do {
     res \<leftarrow> get_pvc (client r) (pod_namespace w) claimName;
     case res of
       Inl e \<Rightarrow> State_Monad.return (Inl (Wrapped ''Failed to get PVC for Pod'' e))
     | Inr claim \<Rightarrow>
         if pvc_phase claim \<noteq> ClaimBound \<or> pvc_volume_name claim = []
         then State_Monad.return (Inl ErrPVCIsNotBoundToAPV)
         else do {
           res \<leftarrow> get_pv (client r) (pvc_volume_name claim);
           State_Monad.return (case res of
               Inl e \<Rightarrow> Inl (Wrapped ''Failed to get PV bound to PVC'' e)
             | Inr p \<Rightarrow>
                 if pv_claim_ref p \<noteq> Some (pvc_name claim) then Inl ErrDifferentClaimRef
                 else Inr (claim, p)) } }"

definition findIRSAServiceAccountRole :: "reconciler \<Rightarrow> pod \<Rightarrow> (ctl_state, error + string) state" where
  "findIRSAServiceAccountRole r w = do {
     res \<leftarrow> get_service_account (client r) (pod_namespace w) (getServiceAccountName w);
     State_Monad.return (case res of
         Inl e \<Rightarrow> Inl (Wrapped ''Failed to find workload pod's service account'' e)
       | Inr None \<Rightarrow> Inr []
       | Inr (Some annotations) \<Rightarrow> Inr (go_lookup annotations AnnotationServiceAccountRole)) }"

definition annotate_needs_unmount :: "pod \<Rightarrow> pod" where
  "annotate_needs_unmount mpPod =
     mpPod\<lparr>pod_annotations :=
       Some ((case pod_annotations mpPod of None \<Rightarrow> Map.empty | Some m \<Rightarrow> m)
         (AnnotationNeedsUnmount \<mapsto> ''true''))\<rparr>"

definition addNeedsUnmountAnnotation :: "reconciler \<Rightarrow> string \<Rightarrow> (ctl_state, error option) state" where
  "addNeedsUnmountAnnotation r mpPodName = do {
     res \<leftarrow> getMountpointPod r mpPodName;
     case res of
       Inl e \<Rightarrow> State_Monad.return (if is_not_found e then None else Some e)
     | Inr mpPod \<Rightarrow> update_pod (client r) (annotate_needs_unmount mpPod) }"

section \<open>Finding the attachment\<close>

text \<open>Deleting duplicates in turn stops at the first failure.\<close>

fun delete_attachments :: "reconciler \<Rightarrow> s3pa list \<Rightarrow> (ctl_state, error option) state" where
  "delete_attachments r [] = State_Monad.return None"
| "delete_attachments r (a # as) = do {
     err \<leftarrow> deleteS3PodAttachment r a;
     case err of
       Some e \<Rightarrow> State_Monad.return
         (Some (Wrapped ''failed to delete duplicate referencing no Mountpoint Pods'' e))
     | None \<Rightarrow> delete_attachments r as }"

definition recoverFromDuplicateS3PodAttachments ::
    "reconciler \<Rightarrow> s3pa list \<Rightarrow> field_filters \<Rightarrow> (ctl_state, error + s3pa option) state" where
  "recoverFromDuplicateS3PodAttachments r duplicates fieldFilters =
     (let withMountpointPods = filter (\<lambda>a. sp_attachments a \<noteq> []) duplicates;
          noMountpointPods = filter (\<lambda>a. sp_attachments a = []) duplicates
      in if length withMountpointPods > 1
         then State_Monad.return (Inl (ErrDuplicateS3PodAttachments (length withMountpointPods)))
         else do {
           err \<leftarrow> delete_attachments r noMountpointPods;
           case err of
             Some e \<Rightarrow> State_Monad.return (Inl e)
           | None \<Rightarrow>
               (case withMountpointPods of
                  a # _ \<Rightarrow> State_Monad.return (Inr (Some a))
                | [] \<Rightarrow> do {
                    pending \<leftarrow> expect_pending r fieldFilters;
                    if length noMountpointPods > 0 \<and> pending then do {
                      _ \<leftarrow> expect_clear r fieldFilters;
                      State_Monad.return (Inr None) }
                    else State_Monad.return (Inr None) }) })"

definition getExistingS3PodAttachment ::
    "reconciler \<Rightarrow> field_filters \<Rightarrow> (ctl_state, error + s3pa option) state" where
  "getExistingS3PodAttachment r fieldFilters = do {
     res \<leftarrow> list_s3pa (client r) (Some fieldFilters);
     case res of
       Inl e \<Rightarrow> State_Monad.return
         (Inl (Wrapped ''failed to list MountpointS3PodAttachments'' e))
     | Inr [] \<Rightarrow> State_Monad.return (Inr None)
     | Inr (a # as) \<Rightarrow>
         (if as = [] then State_Monad.return (Inr (Some a))
          else recoverFromDuplicateS3PodAttachments r (a # as) fieldFilters) }"

section \<open>Removing a workload\<close>

text \<open>
  The loops of \<^verbatim>\<open>removeWorkloadFromS3PodAttachment\<close> run over the keys in the order the \<^verbatim>\<open>range\<close>
  chose; a result \<^term>\<open>Inl h\<close> returns from the handler with \<open>h\<close>.
\<close>

fun remove_workload_loop ::
    "reconciler \<Rightarrow> string \<Rightarrow> s3pa \<Rightarrow> string list \<Rightarrow> (ctl_state, handled + s3pa) state" where
  "remove_workload_loop r workloadUID a [] = State_Monad.return (Inr a)"
| "remove_workload_loop r workloadUID a (mpPodName # names) =
     (let attachments = alookup (sp_attachments a) mpPodName;
          filteredUIDs = filter (\<lambda>w. workload_pod_uid w \<noteq> workloadUID) attachments;
          found = list_ex (\<lambda>w. workload_pod_uid w = workloadUID) attachments
      in if found then do {
           res \<leftarrow> update_s3pa (client r)
             (a\<lparr>sp_attachments := AList.update mpPodName filteredUIDs (sp_attachments a)\<rparr>);
           case res of
             Inl e \<Rightarrow> State_Monad.return
               (if is_conflict e then Inl (Requeue, None) else Inl (Requeue, Some e))
           | Inr a' \<Rightarrow> State_Monad.return (Inr a') }
         else remove_workload_loop r workloadUID a names)"

fun remove_empty_loop ::
    "reconciler \<Rightarrow> s3pa \<Rightarrow> string list \<Rightarrow> (ctl_state, handled + s3pa) state" where
  "remove_empty_loop r a [] = State_Monad.return (Inr a)"
| "remove_empty_loop r a (mpPodName # names) =
     (if alookup (sp_attachments a) mpPodName = [] then do {
        err \<leftarrow> addNeedsUnmountAnnotation r mpPodName;
        case err of
          Some e \<Rightarrow> State_Monad.return (Inl (Requeue, Some e))
        | None \<Rightarrow> do {
            res \<leftarrow> update_s3pa (client r)
              (a\<lparr>sp_attachments := AList.delete mpPodName (sp_attachments a)\<rparr>);
            case res of
              Inl e \<Rightarrow> State_Monad.return
                (if is_conflict e then Inl (Requeue, None) else Inl (Requeue, Some e))
            | Inr a' \<Rightarrow> remove_empty_loop r a' names } }
      else remove_empty_loop r a names)"

definition delete_if_empty :: "reconciler \<Rightarrow> s3pa \<Rightarrow> field_filters \<Rightarrow> (ctl_state, handled) state" where
  "delete_if_empty r a fieldFilters =
     (if sp_attachments a = [] then do {
        err \<leftarrow> deleteS3PodAttachment r a;
        case err of
          Some e \<Rightarrow> State_Monad.return
            (if is_conflict e then (Requeue, None) else (Requeue, Some e))
        | None \<Rightarrow> do {
            pending \<leftarrow> expect_pending r fieldFilters;
            if pending then do {
              _ \<leftarrow> expect_clear r fieldFilters;
              State_Monad.return (DontRequeue, None) }
            else State_Monad.return (DontRequeue, None) } }
      else State_Monad.return (DontRequeue, None))"

definition removeWorkloadFromS3PodAttachment ::
    "reconciler \<Rightarrow> s3pa \<Rightarrow> string \<Rightarrow> field_filters \<Rightarrow> (ctl_state, handled) state" where
  "removeWorkloadFromS3PodAttachment r a workloadUID fieldFilters = do {
     names \<leftarrow> range_keys (client r) (sp_attachments a);
     res \<leftarrow> remove_workload_loop r workloadUID a names;
     case res of
       Inl h \<Rightarrow> State_Monad.return h
     | Inr a \<Rightarrow> do {
         names \<leftarrow> range_keys (client r) (sp_attachments a);
         res \<leftarrow> remove_empty_loop r a names;
         case res of
           Inl h \<Rightarrow> State_Monad.return h
         | Inr a \<Rightarrow> delete_if_empty r a fieldFilters } }"

definition handleInactivePod ::
    "reconciler \<Rightarrow> s3pa option \<Rightarrow> string \<Rightarrow> field_filters \<Rightarrow> (ctl_state, handled) state" where
  "handleInactivePod r a workloadUID fieldFilters =
     (case a of
        None \<Rightarrow> State_Monad.return (DontRequeue, None)
      | Some a \<Rightarrow> removeWorkloadFromS3PodAttachment r a workloadUID fieldFilters)"

section \<open>Adding a workload\<close>

text \<open>The search for a Mountpoint Pod: an error, no suitable Pod, or its name.\<close>

fun find_suitable_loop ::
    "reconciler \<Rightarrow> string list \<Rightarrow> (ctl_state, error + string option) state" where
  "find_suitable_loop r [] = State_Monad.return (Inr None)"
| "find_suitable_loop r (mpPodName # names) = do {
     res \<leftarrow> getMountpointPod r mpPodName;
     case res of
       Inl e \<Rightarrow> (if is_not_found e then find_suitable_loop r names
                 else State_Monad.return (Inl e))
     | Inr mpPod \<Rightarrow>
         if \<not> shouldAssignNewWorkloadToMountpointPod r mpPod then find_suitable_loop r names
         else State_Monad.return (Inr (Some mpPodName)) }"

definition append_workload :: "s3pa \<Rightarrow> string \<Rightarrow> string \<Rightarrow> int \<Rightarrow> s3pa" where
  "append_workload a mpPodName workloadUID t =
     a\<lparr>sp_attachments := AList.update mpPodName
         (alookup (sp_attachments a) mpPodName @
           [\<lparr>workload_pod_uid = workloadUID, attachment_time = t\<rparr>]) (sp_attachments a)\<rparr>"

definition assignWorkloadToAnExistingMountpointPod ::
    "reconciler \<Rightarrow> s3pa \<Rightarrow> string \<Rightarrow> (ctl_state, handled) state" where
  "assignWorkloadToAnExistingMountpointPod r a workloadUID = do {
     names \<leftarrow> range_keys (client r) (sp_attachments a);
     res \<leftarrow> find_suitable_loop r names;
     case res of
       Inl e \<Rightarrow> State_Monad.return (Requeue, Some e)
     | Inr None \<Rightarrow> State_Monad.return (DontRequeue, Some ErrNoSuitableMountpointPod)
     | Inr (Some mpPodName) \<Rightarrow> do {
         t \<leftarrow> now (client r);
         res \<leftarrow> update_s3pa (client r) (append_workload a mpPodName workloadUID t);
         State_Monad.return (case res of
             Inl e \<Rightarrow> if is_conflict e then (Requeue, None) else (Requeue, Some e)
           | Inr _ \<Rightarrow> (DontRequeue, None)) } }"

definition set_workload :: "s3pa \<Rightarrow> string \<Rightarrow> string \<Rightarrow> int \<Rightarrow> s3pa" where
  "set_workload a mpPodName workloadUID t =
     a\<lparr>sp_attachments := AList.update mpPodName
         [\<lparr>workload_pod_uid = workloadUID, attachment_time = t\<rparr>] (sp_attachments a)\<rparr>"

text \<open>The error of the clean-up deletion is only logged.\<close>

definition spawn_for_existing ::
    "reconciler \<Rightarrow> pod \<Rightarrow> pv \<Rightarrow> s3pa \<Rightarrow> priority_class_kind \<Rightarrow> (ctl_state, handled) state" where
  "spawn_for_existing r w p a kind = do {
     res \<leftarrow> spawnMountpointPod r w p kind;
     case res of
       Inl e \<Rightarrow> State_Monad.return (Requeue, Some e)
     | Inr mpPod \<Rightarrow> do {
         t \<leftarrow> now (client r);
         res \<leftarrow> update_s3pa (client r) (set_workload a (pod_name mpPod) (pod_uid w) t);
         case res of
           Inl e \<Rightarrow> do {
             _ \<leftarrow> delete_pod (client r) mpPod;
             State_Monad.return
               (if is_conflict e then (Requeue, None) else (Requeue, Some e)) }
         | Inr _ \<Rightarrow> State_Monad.return (DontRequeue, None) } }"

definition addWorkloadToS3PodAttachment ::
    "reconciler \<Rightarrow> pod \<Rightarrow> pv \<Rightarrow> s3pa \<Rightarrow> priority_class_kind \<Rightarrow> (ctl_state, handled) state" where
  "addWorkloadToS3PodAttachment r w p a kind = do {
     res \<leftarrow> assignWorkloadToAnExistingMountpointPod r a (pod_uid w);
     case res of
       (shouldRequeue, None) \<Rightarrow> State_Monad.return (shouldRequeue, None)
     | (_, Some e) \<Rightarrow>
         if \<not> error_is e ErrNoSuitableMountpointPod
         then State_Monad.return (Requeue, Some e)
         else spawn_for_existing r w p a kind }"

definition handleExistingS3PodAttachment ::
    "reconciler \<Rightarrow> pod \<Rightarrow> pv \<Rightarrow> s3pa \<Rightarrow> field_filters \<Rightarrow> priority_class_kind \<Rightarrow>
       (ctl_state, handled) state" where
  "handleExistingS3PodAttachment r w p a fieldFilters kind = do {
     pending \<leftarrow> expect_pending r fieldFilters;
     _ \<leftarrow> (if pending then expect_clear r fieldFilters else State_Monad.return ());
     if s3paContainsWorkload a (pod_uid w) then State_Monad.return (DontRequeue, None)
     else addWorkloadToS3PodAttachment r w p a kind }"

section \<open>A new attachment\<close>

text \<open>
  \<^verbatim>\<open>new_attachment\<close> is the object literal of \<^verbatim>\<open>createS3PodAttachmentWithMPPod\<close>.
\<close>

definition new_attachment ::
    "reconciler \<Rightarrow> pod \<Rightarrow> pv \<Rightarrow> csi_source \<Rightarrow> string \<Rightarrow> string \<Rightarrow> string \<Rightarrow> int \<Rightarrow> s3pa" where
  "new_attachment r w p csi fsGroup roleArn mpPodName t =
     (let authSource = getAuthSource p; fromPod = (authSource = AuthenticationSourcePod)
      in \<lparr>sp_name = [], sp_generate_name = ''s3pa-'',
          sp_labels = [(LabelCreatedByCSIDriverVersion, csi_driver_version (mountpointPodConfig r))],
          sp_resource_version = [], sp_node_name = node_name w,
          sp_persistent_volume_name = pv_name p, sp_volume_id = volume_handle csi,
          sp_mount_options = join_with '','' (pv_mount_options p),
          sp_authentication_source = authSource, sp_workload_fs_group = fsGroup,
          sp_workload_service_account_name = (if fromPod then getServiceAccountName w else []),
          sp_workload_namespace = (if fromPod then pod_namespace w else []),
          sp_workload_role_arn = (if fromPod then roleArn else []),
          sp_attachments =
            [(mpPodName, [\<lparr>workload_pod_uid = pod_uid w, attachment_time = t\<rparr>])]\<rparr>)"

definition createS3PodAttachmentWithMPPod ::
    "reconciler \<Rightarrow> pod \<Rightarrow> pv \<Rightarrow> string \<Rightarrow> priority_class_kind \<Rightarrow> (ctl_state, error option) state" where
  "createS3PodAttachmentWithMPPod r w p roleArn kind = do {
     res \<leftarrow> spawnMountpointPod r w p kind;
     case res of
       Inl e \<Rightarrow> State_Monad.return (Some e)
     | Inr mpPod \<Rightarrow>
         (case (pv_csi p, getFSGroup w) of
            (Some csi, Inr fsGroup) \<Rightarrow> do {
              t \<leftarrow> now (client r);
              err \<leftarrow> create_s3pa (client r)
                (new_attachment r w p csi fsGroup roleArn (pod_name mpPod) t);
              case err of
                Some e \<Rightarrow> do {
                  _ \<leftarrow> delete_pod (client r) mpPod;
                  State_Monad.return (Some e) }
              | None \<Rightarrow> State_Monad.return None }
          | _ \<Rightarrow> State_Monad.return (Some ErrNilDereference)) }"

definition handleNewS3PodAttachment ::
    "reconciler \<Rightarrow> pod \<Rightarrow> pv \<Rightarrow> string \<Rightarrow> field_filters \<Rightarrow> priority_class_kind \<Rightarrow>
       (ctl_state, handled) state" where
  "handleNewS3PodAttachment r w p roleArn fieldFilters kind = do {
     pending \<leftarrow> expect_pending r fieldFilters;
     if pending then State_Monad.return (Requeue, None)
     else if isPodRunning w then State_Monad.return (DontRequeue, None)
     else do {
       err \<leftarrow> createS3PodAttachmentWithMPPod r w p roleArn kind;
       case err of
         Some e \<Rightarrow> State_Monad.return (Requeue, Some e)
       | None \<Rightarrow> do {
           _ \<leftarrow> expect_set r fieldFilters;
           State_Monad.return (Requeue, None) } } }"

text \<open>One volume of a scheduled workload.\<close>

definition spawnOrDeleteMountpointPodIfNeeded ::
    "reconciler \<Rightarrow> pod \<Rightarrow> pv \<Rightarrow> priority_class_kind \<Rightarrow> (ctl_state, handled) state" where
  "spawnOrDeleteMountpointPodIfNeeded r w p kind = do {
     res \<leftarrow> findIRSAServiceAccountRole r w;
     case res of
       Inl e \<Rightarrow> State_Monad.return (Requeue, Some e)
     | Inr roleArn \<Rightarrow>
         (case buildFieldFilters w p roleArn of
            Inl e \<Rightarrow> State_Monad.return (Requeue, Some e)
          | Inr fieldFilters \<Rightarrow> do {
              res \<leftarrow> getExistingS3PodAttachment r fieldFilters;
              case res of
                Inl e \<Rightarrow> State_Monad.return (Requeue, Some e)
              | Inr a \<Rightarrow>
                  if \<not> isPodActive w
                  then handleInactivePod r a (pod_uid w) fieldFilters
                  else (case a of
                      Some a \<Rightarrow> handleExistingS3PodAttachment r w p a fieldFilters kind
                    | None \<Rightarrow> handleNewS3PodAttachment r w p roleArn fieldFilters kind) }) }"

section \<open>Headroom Pods\<close>

definition getHeadroomPodForMountpointPod ::
    "reconciler \<Rightarrow> pod \<Rightarrow> pv \<Rightarrow> (ctl_state, error + pod) state" where
  "getHeadroomPodForMountpointPod r w p =
     get_pod (client r) (mountpoint_namespace (mountpointPodConfig r))
       (HeadroomPodNameFor (creatorOutside r) w p)"

definition create_headroom :: "reconciler \<Rightarrow> pod \<Rightarrow> pv \<Rightarrow> (ctl_state, error option) state" where
  "create_headroom r w p =
     (case HeadroomPod (creatorOutside r) (mountpointPodConfig r) w p of
        Inl e \<Rightarrow> State_Monad.return (Some e)
      | Inr hrPod \<Rightarrow> do {
          res \<leftarrow> create_pod (client r) hrPod;
          State_Monad.return (case res of
              Inl e \<Rightarrow> if is_already_exists e then None else Some e
            | Inr _ \<Rightarrow> None) })"

definition createHeadroomPodForMountpointPod ::
    "reconciler \<Rightarrow> pod \<Rightarrow> pv \<Rightarrow> (ctl_state, error option) state" where
  "createHeadroomPodForMountpointPod r w p = do {
     res \<leftarrow> getHeadroomPodForMountpointPod r w p;
     case res of
       Inl e \<Rightarrow>
         (if \<not> is_not_found e then State_Monad.return (Some e) else create_headroom r w p)
     | Inr _ \<Rightarrow> create_headroom r w p }"

definition deleteHeadroomPodForMountpointPod ::
    "reconciler \<Rightarrow> pod \<Rightarrow> pv \<Rightarrow> (ctl_state, error option) state" where
  "deleteHeadroomPodForMountpointPod r w p = do {
     res \<leftarrow> getHeadroomPodForMountpointPod r w p;
     case res of
       Inl e \<Rightarrow> State_Monad.return (if is_not_found e then None else Some e)
     | Inr hrPod \<Rightarrow> do {
         err \<leftarrow> delete_pod (client r) hrPod;
         State_Monad.return (case err of
             None \<Rightarrow> None
           | Some e \<Rightarrow> if is_not_found e then None else Some e) } }"

text \<open>
  A patch sends the difference between the Pod as read and as changed in memory; on success the
  answer replaces the Pod. The result is the Pod to go on with, or the error.
\<close>

definition labelWorkloadPodForHeadroomPod :: "reconciler \<Rightarrow> pod \<Rightarrow> (ctl_state, error + pod) state" where
  "labelWorkloadPodForHeadroomPod r w =
     (if WorkloadHasLabelPodForHeadroomPod w then State_Monad.return (Inr w)
      else patch_pod (client r) w (fst (LabelWorkloadPodForHeadroomPod w)))"

definition unlabelWorkloadPodForHeadroomPod :: "reconciler \<Rightarrow> pod \<Rightarrow> (ctl_state, error + pod) state" where
  "unlabelWorkloadPodForHeadroomPod r w =
     patch_pod (client r) w (fst (UnlabelWorkloadPodForHeadroomPod w))"

definition ungateHeadroomSchedulingGateForWorkloadPod ::
    "reconciler \<Rightarrow> pod \<Rightarrow> (ctl_state, error + pod) state" where
  "ungateHeadroomSchedulingGateForWorkloadPod r w =
     patch_pod (client r) w (UngateHeadroomSchedulingGateForWorkloadPod w)"

section \<open>A workload Pod\<close>

type_synonym workload_volume = "pv \<times> pvc \<times> csi_source"

text \<open>
  \<^verbatim>\<open>getWorkloadVolumes\<close>: the volumes that are ready, whether a claim is still unbound, and the
  errors, which are joined.
\<close>

fun workload_volumes_loop ::
    "reconciler \<Rightarrow> pod \<Rightarrow> volume list \<Rightarrow>
       (ctl_state, workload_volume list \<times> bool \<times> error list) state" where
  "workload_volumes_loop r w [] = State_Monad.return ([], DontRequeue, [])"
| "workload_volumes_loop r w (vol # vols) =
     (case volume_source vol of
        PersistentVolumeClaimSource claimName \<Rightarrow> do {
          res \<leftarrow> getBoundPVForPodClaim r w claimName;
          (case res of
             Inl e \<Rightarrow> do {
               rest \<leftarrow> workload_volumes_loop r w vols;
               State_Monad.return (case rest of (vs, status, errs) \<Rightarrow>
                 if error_is e ErrPVCIsNotBoundToAPV then (vs, Requeue, errs)
                 else (vs, status, e # errs)) }
           | Inr (claim, p) \<Rightarrow> do {
               rest \<leftarrow> workload_volumes_loop r w vols;
               State_Monad.return (case rest of (vs, status, errs) \<Rightarrow>
                 (case extractCSISpecFromPV p of
                    None \<Rightarrow> (vs, status, errs)
                  | Some csi \<Rightarrow> ((p, claim, csi) # vs, status, errs))) }) }
      | _ \<Rightarrow> workload_volumes_loop r w vols)"

definition getWorkloadVolumes ::
    "reconciler \<Rightarrow> pod \<Rightarrow> (ctl_state, workload_volume list \<times> bool \<times> error option) state" where
  "getWorkloadVolumes r w = do {
     res \<leftarrow> workload_volumes_loop r w (pod_volumes w);
     State_Monad.return (case res of (vs, status, errs) \<Rightarrow> (vs, status, errors_join errs)) }"

text \<open>What the loop over the volumes of a workload carries from one volume to the next.\<close>

record volumes_acc =
  acc_pod :: pod
  acc_requeue :: bool
  acc_errs :: "error list"
  numHeadroomPods :: nat
  numRemovedHeadroomPods :: nat

definition add_err :: "error \<Rightarrow> volumes_acc \<Rightarrow> volumes_acc" where
  "add_err e acc = acc\<lparr>acc_errs := acc_errs acc @ [e]\<rparr>"

text \<open>The last part of the loop body: deleting the Headroom Pod of a volume.\<close>

definition remove_headroom_step ::
    "reconciler \<Rightarrow> bool \<Rightarrow> pv \<Rightarrow> volumes_acc \<Rightarrow> (ctl_state, volumes_acc) state" where
  "remove_headroom_step r hasHeadroomPods p acc =
     (if hasHeadroomPods \<and> shouldDeleteHeadroomPodForTheWorkloadPod (acc_pod acc) then do {
        err \<leftarrow> deleteHeadroomPodForMountpointPod r (acc_pod acc) p;
        State_Monad.return (case err of
            Some e \<Rightarrow> add_err e acc
          | None \<Rightarrow> acc\<lparr>numRemovedHeadroomPods := numRemovedHeadroomPods acc + 1\<rparr>) }
      else State_Monad.return acc)"

text \<open>One turn of the loop; \<^term>\<open>Inl e\<close> returns from the reconciliation with the error.\<close>

definition volume_step ::
    "reconciler \<Rightarrow> bool \<Rightarrow> bool \<Rightarrow> bool \<Rightarrow> priority_class_kind \<Rightarrow> bool \<Rightarrow> pv \<Rightarrow> volumes_acc \<Rightarrow>
       (ctl_state, error + volumes_acc) state" where
  "volume_step r scheduled needsHeadroom hasHeadroomPods kind first p acc =
     (if scheduled then do {
        res \<leftarrow> spawnOrDeleteMountpointPodIfNeeded r (acc_pod acc) p kind;
        case res of
          (needsRequeue, err) \<Rightarrow>
            let acc = acc\<lparr>acc_requeue := acc_requeue acc \<or> needsRequeue\<rparr>
            in (case err of
                  Some e \<Rightarrow> State_Monad.return
                    (if e = ErrNilDereference then Inl e else Inr (add_err e acc))
                | None \<Rightarrow> do {
                    acc \<leftarrow> remove_headroom_step r hasHeadroomPods p acc;
                    State_Monad.return (Inr acc) }) }
      else if needsHeadroom then do {
        res \<leftarrow> (if first then labelWorkloadPodForHeadroomPod r (acc_pod acc)
               else State_Monad.return (Inr (acc_pod acc)));
        case res of
          Inl e \<Rightarrow> State_Monad.return (Inl e)
        | Inr w \<Rightarrow> do {
            err \<leftarrow> createHeadroomPodForMountpointPod r w p;
            case err of
              Some e \<Rightarrow> State_Monad.return (Inr (add_err e (acc\<lparr>acc_pod := w\<rparr>)))
            | None \<Rightarrow> do {
                acc \<leftarrow> remove_headroom_step r hasHeadroomPods p
                  (acc\<lparr>acc_pod := w, numHeadroomPods := numHeadroomPods acc + 1\<rparr>);
                State_Monad.return (Inr acc) } } }
      else do {
        acc \<leftarrow> remove_headroom_step r hasHeadroomPods p acc;
        State_Monad.return (Inr acc) })"

fun volumes_loop ::
    "reconciler \<Rightarrow> bool \<Rightarrow> bool \<Rightarrow> bool \<Rightarrow> priority_class_kind \<Rightarrow> bool \<Rightarrow> pv list \<Rightarrow> volumes_acc \<Rightarrow>
       (ctl_state, error + volumes_acc) state" where
  "volumes_loop r scheduled needsHeadroom hasHeadroomPods kind first [] acc =
     State_Monad.return (Inr acc)"
| "volumes_loop r scheduled needsHeadroom hasHeadroomPods kind first (p # ps) acc = do {
     res \<leftarrow> volume_step r scheduled needsHeadroom hasHeadroomPods kind first p acc;
     case res of
       Inl e \<Rightarrow> State_Monad.return (Inl e)
     | Inr acc \<Rightarrow> volumes_loop r scheduled needsHeadroom hasHeadroomPods kind False ps acc }"

text \<open>The two updates of the workload Pod after the loop.\<close>

definition finish_workload ::
    "reconciler \<Rightarrow> bool \<Rightarrow> bool \<Rightarrow> bool \<Rightarrow> nat \<Rightarrow> volumes_acc \<Rightarrow> (ctl_state, handled) state" where
  "finish_workload r needsHeadroom hasHeadroomPods hasUnboundPVCs numVolumes acc =
     (case errors_join (acc_errs acc) of
        Some e \<Rightarrow> State_Monad.return (DontRequeue, Some e)
      | None \<Rightarrow> do {
          res \<leftarrow> (if needsHeadroom \<and> numVolumes = numHeadroomPods acc \<and> \<not> hasUnboundPVCs
                 then ungateHeadroomSchedulingGateForWorkloadPod r (acc_pod acc)
                 else State_Monad.return (Inr (acc_pod acc)));
          case res of
            Inl e \<Rightarrow> State_Monad.return (DontRequeue, Some e)
          | Inr w \<Rightarrow> do {
              res \<leftarrow> (if hasHeadroomPods \<and> numVolumes = numRemovedHeadroomPods acc
                     then unlabelWorkloadPodForHeadroomPod r w
                     else State_Monad.return (Inr w));
              State_Monad.return (case res of
                  Inl e \<Rightarrow> (DontRequeue, Some e)
                | Inr _ \<Rightarrow> (acc_requeue acc, None)) } })"

definition reconcileWorkloadPod :: "reconciler \<Rightarrow> pod \<Rightarrow> (ctl_state, handled) state" where
  "reconcileWorkloadPod r w =
     (if pod_volumes w = [] then State_Monad.return (DontRequeue, None)
      else
        let scheduled = isPodScheduled w;
            needsHeadroom = isHeadroomForMountpointPodsFeatureEnabled r \<and>
              ShouldReserveHeadroomForMountpointPod w;
            hasHeadroomPods = isHeadroomForMountpointPodsFeatureEnabled r \<and>
              WorkloadHasLabelPodForHeadroomPod w
        in if \<not> scheduled \<and> \<not> needsHeadroom \<and> \<not> hasHeadroomPods
           then State_Monad.return (DontRequeue, None)
           else
             let kind = (if needsHeadroom \<or> hasHeadroomPods then PreemptingPriorityClass
                         else DefaultPriorityClass)
             in do {
               res \<leftarrow> getWorkloadVolumes r w;
               case res of
                 (volumes, hasUnboundPVCs, err) \<Rightarrow>
                   (case err of
                      Some e \<Rightarrow> State_Monad.return (DontRequeue, Some e)
                    | None \<Rightarrow> do {
                        res \<leftarrow> volumes_loop r scheduled needsHeadroom hasHeadroomPods kind True
                          (map fst volumes)
                          \<lparr>acc_pod = w, acc_requeue = hasUnboundPVCs, acc_errs = [],
                           numHeadroomPods = 0, numRemovedHeadroomPods = 0\<rparr>;
                        case res of
                          Inl e \<Rightarrow> State_Monad.return (DontRequeue, Some e)
                        | Inr acc \<Rightarrow> finish_workload r needsHeadroom hasHeadroomPods
                            hasUnboundPVCs (length volumes) acc }) })"

section \<open>Reconcile\<close>

definition reconcileMountpointPod :: "reconciler \<Rightarrow> pod \<Rightarrow> (ctl_state, handled) state" where
  "reconcileMountpointPod r mpPod =
     (if phase mpPod = PodSucceeded then do {
        err \<leftarrow> deleteMountpointPod r mpPod;
        State_Monad.return (DontRequeue, err) }
      else State_Monad.return (DontRequeue, None))"

definition Reconcile :: "reconciler \<Rightarrow> string \<Rightarrow> string \<Rightarrow> (ctl_state, handled) state" where
  "Reconcile r ns name = do {
     res \<leftarrow> get_pod (client r) ns name;
     case res of
       Inl e \<Rightarrow> State_Monad.return
         (DontRequeue, if is_not_found e then None else Some e)
     | Inr p \<Rightarrow>
         if isInMountpointNamespace r p then
           (if IsHeadroomPod p then State_Monad.return (DontRequeue, None)
            else reconcileMountpointPod r p)
         else reconcileWorkloadPod r p }"

end
