(* ===== verification/Cleaner.thy ===== *)
theory Cleaner
  imports Reconciler
begin

text \<open>
  \<^verbatim>\<open>cmd/aws-s3-csi-controller/csicontroller/stale_attachment_cleaner.go\<close>: the periodic clean-up of
  workload references and Headroom Pods whose workload Pod is gone. Times are in nanoseconds.
  \<^verbatim>\<open>time.Time.Sub\<close> saturates at about 292 years, far from the threshold it is compared with, so
  durations are plain integers here.
\<close>

definition staleAttachmentThreshold :: int where
  "staleAttachmentThreshold = 2 * 60 * 1000000000"

text \<open>The Pods of the cluster by UID; of two Pods with one UID the later one wins.\<close>

definition existing_pods :: "pod list \<Rightarrow> (string \<times> pod) list" where
  "existing_pods items = fold (\<lambda>p. AList.update (pod_uid p) p) items []"

definition attachment_valid :: "(string \<times> pod) list \<Rightarrow> int \<Rightarrow> workload_attachment \<Rightarrow> bool" where
  "attachment_valid existingPods t attachment =
     (let exists = map_of existingPods (workload_pod_uid attachment) \<noteq> None;
          isStale = t - attachment_time attachment > staleAttachmentThreshold
      in exists \<or> \<not> isStale)"

text \<open>
  The loop of \<^verbatim>\<open>cleanupStaleWorkloads\<close> over the Mountpoint Pods, with the attachment as changed so
  far and \<^verbatim>\<open>modified\<close>; \<^term>\<open>Inl e\<close> returns with the error.
\<close>

fun cleanup_loop ::
    "reconciler \<Rightarrow> (string \<times> pod) list \<Rightarrow> int \<Rightarrow> s3pa \<Rightarrow> bool \<Rightarrow> string list \<Rightarrow>
       (ctl_state, error + s3pa \<times> bool) state" where
  "cleanup_loop r existingPods t a modified [] = State_Monad.return (Inr (a, modified))"
| "cleanup_loop r existingPods t a modified (mpPodName # names) =
     (let attachments = alookup (sp_attachments a) mpPodName;
          validAttachments = filter (attachment_valid existingPods t) attachments;
          modified = (modified \<or> list_ex (\<lambda>w. \<not> attachment_valid existingPods t w) attachments)
      in if validAttachments = [] then do {
           err \<leftarrow> addNeedsUnmountAnnotation r mpPodName;
           case err of
             Some e \<Rightarrow> State_Monad.return (Inl e)
           | None \<Rightarrow> cleanup_loop r existingPods t
               (a\<lparr>sp_attachments := AList.delete mpPodName (sp_attachments a)\<rparr>) modified names }
         else cleanup_loop r existingPods t
           (a\<lparr>sp_attachments := AList.update mpPodName validAttachments (sp_attachments a)\<rparr>)
           modified names)"

definition cleanupStaleWorkloads ::
    "reconciler \<Rightarrow> s3pa \<Rightarrow> (string \<times> pod) list \<Rightarrow> (ctl_state, error option) state" where
  "cleanupStaleWorkloads r a existingPods = do {
     t \<leftarrow> now (client r);
     names \<leftarrow> range_keys (client r) (sp_attachments a);
     res \<leftarrow> cleanup_loop r existingPods t a False names;
     case res of
       Inl e \<Rightarrow> State_Monad.return (Some e)
     | Inr (a, modified) \<Rightarrow>
         if modified then
           (if sp_attachments a = [] then deleteS3PodAttachment r a
            else do {
              res \<leftarrow> update_s3pa (client r) a;
              State_Monad.return (case res of Inl e \<Rightarrow> Some e | Inr _ \<Rightarrow> None) })
         else State_Monad.return None }"

definition stale_headroom :: "reconciler \<Rightarrow> (string \<times> pod) list \<Rightarrow> pod \<Rightarrow> bool" where
  "stale_headroom r existingPods p =
     (if \<not> isInMountpointNamespace r p \<or> \<not> IsHeadroomPod p then False
      else
        let workloadPodUID = go_lookup_nil (pod_labels p) LabelHeadroomForPod
        in if workloadPodUID = [] then False
           else case map_of existingPods workloadPodUID of
                  None \<Rightarrow> True
                | Some w \<Rightarrow> shouldDeleteHeadroomPodForTheWorkloadPod w)"

fun headroom_cleanup_loop ::
    "reconciler \<Rightarrow> (string \<times> pod) list \<Rightarrow> string list \<Rightarrow> (ctl_state, unit) state" where
  "headroom_cleanup_loop r existingPods [] = State_Monad.return ()"
| "headroom_cleanup_loop r existingPods (uid # uids) =
     (case map_of existingPods uid of
        None \<Rightarrow> headroom_cleanup_loop r existingPods uids
      | Some p \<Rightarrow>
          if stale_headroom r existingPods p then do {
            _ \<leftarrow> delete_pod (client r) p;
            headroom_cleanup_loop r existingPods uids }
          else headroom_cleanup_loop r existingPods uids)"

definition cleanupStaleHeadroomPods ::
    "reconciler \<Rightarrow> (string \<times> pod) list \<Rightarrow> (ctl_state, unit) state" where
  "cleanupStaleHeadroomPods r existingPods = do {
     uids \<leftarrow> range_keys (client r) existingPods;
     headroom_cleanup_loop r existingPods uids }"

fun cleanup_attachments ::
    "reconciler \<Rightarrow> (string \<times> pod) list \<Rightarrow> s3pa list \<Rightarrow> (ctl_state, unit) state" where
  "cleanup_attachments r existingPods [] = State_Monad.return ()"
| "cleanup_attachments r existingPods (a # as) = do {
     _ \<leftarrow> cleanupStaleWorkloads r a existingPods;
     cleanup_attachments r existingPods as }"

text \<open>An error of one attachment is logged and the others are still cleaned up.\<close>

definition RunCleanup :: "reconciler \<Rightarrow> (ctl_state, error option) state" where
  "RunCleanup r = do {
     res \<leftarrow> list_pods (client r);
     case res of
       Inl e \<Rightarrow> State_Monad.return (Some e)
     | Inr items \<Rightarrow> do {
         _ \<leftarrow> (if isHeadroomForMountpointPodsFeatureEnabled r
              then cleanupStaleHeadroomPods r (existing_pods items)
              else State_Monad.return ());
         res \<leftarrow> list_s3pa (client r) None;
         case res of
           Inl e \<Rightarrow> State_Monad.return (Some e)
         | Inr as \<Rightarrow> do {
             _ \<leftarrow> cleanup_attachments r (existing_pods items) as;
             State_Monad.return None } } }"

end
