(* ===== verification/Controller_Protocol.thy ===== *)
theory Controller_Protocol
  imports Cleaner
begin

text \<open>
  What it takes for a property of the controller's state to survive every request. The two locales
  are the interface between the control flow of the reconciler and of the cleaner, walked through
  once here, and the invariants, which only look at the few transactions that write.
\<close>

fun read_event :: "api_event \<Rightarrow> bool" where
  "read_event (EvGetPod _ _ _) = True"
| "read_event (EvGetPVC _ _ _) = True"
| "read_event (EvGetPV _ _) = True"
| "read_event (EvGetServiceAccount _ _ _) = True"
| "read_event (EvListPods _) = True"
| "read_event (EvListS3PA _ _) = True"
| "read_event _ = False"

text \<open>The changes of a workload Pod the controller may ask for.\<close>

definition workload_change :: "pod \<Rightarrow> pod \<Rightarrow> bool" where
  "workload_change w w' \<longleftrightarrow>
     w' = fst (LabelWorkloadPodForHeadroomPod w) \<or> w' = fst (UnlabelWorkloadPodForHeadroomPod w) \<or>
     w' = UngateHeadroomSchedulingGateForWorkloadPod w"

lemma workload_change_intros [intro]:
  "workload_change w (fst (LabelWorkloadPodForHeadroomPod w))"
  "workload_change w (fst (UnlabelWorkloadPodForHeadroomPod w))"
  "workload_change w (UngateHeadroomSchedulingGateForWorkloadPod w)"
  by (simp_all add: workload_change_def)

section \<open>From transactions to requests\<close>

locale request_invariant =
  fixes r :: reconciler and I :: "ctl_state \<Rightarrow> bool"
  assumes read: "I s \<Longrightarrow> read_event e \<Longrightarrow> I (s\<lparr>calls := e # calls s\<rparr>)"
    and volume: "preserves I (spawnOrDeleteMountpointPodIfNeeded r w p kind)"
    and headroom_create: "preserves I (createHeadroomPodForMountpointPod r w p)"
    and headroom_delete: "preserves I (deleteHeadroomPodForMountpointPod r w p)"
    and workload_patch: "workload_change w w' \<Longrightarrow> preserves I (patch_pod (client r) w w')"
    and succeeded_delete:
      "I s \<Longrightarrow> isInMountpointNamespace r q \<Longrightarrow> \<not> IsHeadroomPod q \<Longrightarrow> phase q = PodSucceeded \<Longrightarrow>
         I (s\<lparr>calls := EvDeletePod q res # EvGetPod ns n (Inr q) # calls s\<rparr>)"
begin

lemma reads:
  "preserves I (get_pod (client r) ns n)" "preserves I (get_pvc (client r) ns n)"
  "preserves I (get_pv (client r) n)"
  by (auto simp: preserves_def wp split: sum.split intro!: read)

lemma pres_getBoundPVForPodClaim: "preserves I (getBoundPVForPodClaim r w c)"
  unfolding getBoundPVForPodClaim_def by (intro pres reads)

lemma pres_workload_volumes_loop: "preserves I (workload_volumes_loop r w vols)"
proof (induction vols)
  case (Cons vol vols)
  then show ?case
    by (cases "volume_source vol") (auto intro!: pres pres_getBoundPVForPodClaim)
qed (simp add: pres)

lemma pres_remove_headroom_step: "preserves I (remove_headroom_step r b p acc)"
  unfolding remove_headroom_step_def by (intro pres headroom_delete)

lemma pres_volume_step: "preserves I (volume_step r b1 b2 b3 kind b4 p acc)"
  unfolding volume_step_def labelWorkloadPodForHeadroomPod_def
  by (intro pres volume workload_patch workload_change_intros headroom_create pres_remove_headroom_step)

lemma pres_volumes_loop: "preserves I (volumes_loop r b1 b2 b3 kind b4 ps acc)"
proof (induction ps arbitrary: b4 acc)
  case (Cons p ps)
  then show ?case by (auto intro!: pres pres_volume_step)
qed (simp add: pres)

lemma pres_finish_workload: "preserves I (finish_workload r b1 b2 b3 n acc)"
  unfolding finish_workload_def ungateHeadroomSchedulingGateForWorkloadPod_def
    unlabelWorkloadPodForHeadroomPod_def
  by (intro pres workload_patch workload_change_intros)

lemma pres_reconcileWorkloadPod: "preserves I (reconcileWorkloadPod r w)"
  unfolding reconcileWorkloadPod_def getWorkloadVolumes_def Let_def
  by (intro pres pres_workload_volumes_loop pres_volumes_loop pres_finish_workload)

lemma pres_Reconcile: "preserves I (Reconcile r ns name)"
proof (rule preservesI)
  fix s
  assume s: "I s"
  show "wp (Reconcile r ns name) (\<lambda>_. I) s"
  proof (cases "on_get_pod (client r) (calls s) ns name")
    case (Inl e)
    with s show ?thesis by (simp add: Reconcile_def wp read)
  next
    case (Inr p)
    have s': "I (s\<lparr>calls := EvGetPod ns name (Inr p) # calls s\<rparr>)"
      by (rule read [OF s]) simp
    show ?thesis
      using Inr s' preservesD [OF pres_reconcileWorkloadPod s']
      by (auto simp: Reconcile_def wp reconcileMountpointPod_def deleteMountpointPod_def
          split: option.split intro!: succeeded_delete s)
  qed
qed

end

lemma buildFieldFilters_fs_group: "buildFieldFilters w p role = Inr f \<Longrightarrow> \<exists>g. getFSGroup w = Inr g"
  by (auto simp: buildFieldFilters_def Let_def split: sum.splits)

section \<open>From writes to the transaction of a volume\<close>

text \<open>
  \<open>W\<close> is a property of the attachments the controller handles: it holds of what the cluster lists
  and is kept by every change the code makes, so that it holds of everything that is written.
\<close>

locale attachment_invariant =
  fixes r :: reconciler and I :: "ctl_state \<Rightarrow> bool" and W :: "s3pa \<Rightarrow> bool"
    and C :: "field_filters \<Rightarrow> bool"
  assumes read: "I s \<Longrightarrow> read_event e \<Longrightarrow> I (s\<lparr>calls := e # calls s\<rparr>)"
    and clear: "C g \<Longrightarrow> I s \<Longrightarrow> I (s\<lparr>s3paExpectations := clearPending ord g (s3paExpectations s)\<rparr>)"
    and annotate: "preserves I (addNeedsUnmountAnnotation r k)"
    and delete: "W a \<Longrightarrow> sp_attachments a = [] \<Longrightarrow> preserves I (deleteS3PodAttachment r a)"
    and update: "W a \<Longrightarrow> preserves I (update_s3pa (client r) a)"
    and spawn: "W a \<Longrightarrow> \<not> s3paContainsWorkload a (pod_uid w) \<Longrightarrow>
        preserves I (spawn_for_existing r w p a kind)"
    and W_listed: "on_list_s3pa (client r) h f = Inr as \<Longrightarrow> a \<in> set as \<Longrightarrow> W a"
    and W_version: "W a \<Longrightarrow> W (a\<lparr>sp_resource_version := rv\<rparr>)"
    and W_filter: "W a \<Longrightarrow>
        W (a\<lparr>sp_attachments := AList.update k (filter P (alookup (sp_attachments a) k))
             (sp_attachments a)\<rparr>)"
    and W_drop: "W a \<Longrightarrow> W (a\<lparr>sp_attachments := AList.delete k (sp_attachments a)\<rparr>)"
    and W_append: "W a \<Longrightarrow> \<not> s3paContainsWorkload a uid \<Longrightarrow> k \<in> fst ` set (sp_attachments a) \<Longrightarrow>
        W (append_workload a k uid t)"
begin

lemma yields_list:
  "yields I (list_s3pa (client r) f) (\<lambda>res. \<forall>as. res = Inr as \<longrightarrow> (\<forall>a \<in> set as. W a))"
  by (auto simp: yields_def wp split: sum.split intro!: read dest: W_listed)

lemma yields_update:
  assumes "W a"
  shows "yields I (update_s3pa (client r) a) (\<lambda>res. \<forall>a'. res = Inr a' \<longrightarrow> W a')"
proof (rule yieldsI)
  fix s
  assume "I s"
  then have "wp (update_s3pa (client r) a) (\<lambda>_. I) s"
    by (rule preservesD [OF update [OF assms]])
  with assms show "wp (update_s3pa (client r) a) (\<lambda>res s'. I s' \<and> (\<forall>a'. res = Inr a' \<longrightarrow> W a')) s"
    by (auto simp: wp intro: W_version split: sum.splits)
qed

lemma reads:
  "preserves I (getMountpointPod r n)" "preserves I (findIRSAServiceAccountRole r w)"
  "preserves I (list_pods (client r))"
  "preserves I (now (client r))" "preserves I (range_keys (client r) m)"
  "preserves I (expect_pending r f)"
  by (auto simp: preserves_def wp getMountpointPod_def findIRSAServiceAccountRole_def
      expect_pending_def split: sum.split option.split intro!: read)

lemma pres_clear: "C f \<Longrightarrow> preserves I (expect_clear r f)"
  by (simp add: preserves_def wp expect_clear_def clear)

lemma pres_delete_attachments:
  "\<forall>a \<in> set as. W a \<and> sp_attachments a = [] \<Longrightarrow> preserves I (delete_attachments r as)"
  by (induction as) (auto intro!: pres delete)

lemma yields_recover:
  assumes f: "C f" and as: "\<forall>a \<in> set as. W a"
  shows "yields I (recoverFromDuplicateS3PodAttachments r as f)
      (\<lambda>res. \<forall>a. res = Inr (Some a) \<longrightarrow> W a)"
proof -
  let ?with = "filter (\<lambda>a. sp_attachments a \<noteq> []) as"
  have hd: "W a" if "?with = a # as'" for a as'
    using as that by (metis Cons_eq_filterD in_set_conv_decomp)
  have del: "preserves I (delete_attachments r (filter (\<lambda>a. sp_attachments a = []) as))"
    using as by (intro pres_delete_attachments) auto
  show ?thesis
    unfolding recoverFromDuplicateS3PodAttachments_def Let_def
    by (auto intro!: yields_bind_preserves [OF del] yields_bind_preserves [OF reads(6)]
        yields_bind_preserves [OF pres_clear [OF f]] yields_return hd
        split: option.split list.split)
qed

lemma yields_getExistingS3PodAttachment:
  "C f \<Longrightarrow> yields I (getExistingS3PodAttachment r f) (\<lambda>res. \<forall>a. res = Inr (Some a) \<longrightarrow> W a)"
  unfolding getExistingS3PodAttachment_def
  by (rule yields_bind [OF yields_list])
    (auto intro!: yields_return yields_recover split: sum.split list.split)

lemma yields_remove_workload_loop:
  "W a \<Longrightarrow> yields I (remove_workload_loop r uid a names) (\<lambda>res. \<forall>a'. res = Inr a' \<longrightarrow> W a')"
proof (induction names)
  case (Cons k names)
  then show ?case
    by (auto simp: Let_def intro!: yields_bind [OF yields_update] W_filter yields_return
        split: sum.split)
qed (simp add: yields_return)

lemma yields_remove_empty_loop:
  "W a \<Longrightarrow> yields I (remove_empty_loop r a names) (\<lambda>res. \<forall>a'. res = Inr a' \<longrightarrow> W a')"
proof (induction names arbitrary: a)
  case (Cons k names)
  then show ?case
    by (auto intro!: yields_bind_preserves [OF annotate] yields_bind [OF yields_update] W_drop
        yields_return Cons.IH split: sum.split option.split)
qed (simp add: yields_return)

lemma pres_removeWorkload:
  assumes "W a" "C f"
  shows "preserves I (removeWorkloadFromS3PodAttachment r a uid f)"
proof -
  have del: "preserves I (delete_if_empty r a f)" if "W a" for a
    using that assms(2) unfolding delete_if_empty_def by (intro pres delete reads pres_clear) auto
  show ?thesis
    unfolding removeWorkloadFromS3PodAttachment_def
    by (auto intro!: pres reads assms(1) del
        preserves_bind_yields [OF yields_remove_workload_loop [OF assms(1)]]
        preserves_bind_yields [OF yields_remove_empty_loop] split: sum.split)
qed

lemma yields_find_suitable_loop:
  "set names \<subseteq> K \<Longrightarrow>
     yields I (find_suitable_loop r names) (\<lambda>res. \<forall>k. res = Inr (Some k) \<longrightarrow> k \<in> K)"
  by (induction names)
    (auto intro!: yields_bind_preserves [OF reads(1)] yields_return split: sum.split)

lemma pres_assign:
  assumes "W a" "\<not> s3paContainsWorkload a uid"
  shows "preserves I (assignWorkloadToAnExistingMountpointPod r a uid)"
proof -
  have range: "yields I (range_keys (client r) (sp_attachments a))
      (\<lambda>names. set names \<subseteq> fst ` set (sp_attachments a))"
    by (simp add: yields_def wp)
  show ?thesis
    unfolding assignWorkloadToAnExistingMountpointPod_def
    by (auto intro!: preserves_bind_yields [OF range] pres reads update W_append assms
        preserves_bind_yields [OF yields_find_suitable_loop] split: sum.split option.split)
qed

lemma pres_handleExisting:
  "W a \<Longrightarrow> C f \<Longrightarrow> preserves I (handleExistingS3PodAttachment r w p a f kind)"
  unfolding handleExistingS3PodAttachment_def addWorkloadToS3PodAttachment_def
  by (intro pres reads pres_assign pres_clear spawn) auto

subsection \<open>The cleaner\<close>

lemma yields_cleanup_loop:
  "W a \<Longrightarrow> yields I (cleanup_loop r ps t a m names)
     (\<lambda>res. \<forall>a'. (\<exists>m'. res = Inr (a', m')) \<longrightarrow> W a')"
proof (induction names arbitrary: a m)
  case (Cons k names)
  then show ?case
    by (auto simp: Let_def intro!: yields_bind_preserves [OF annotate] W_drop W_filter
        yields_return Cons.IH split: option.split)
qed (simp add: yields_return)

lemma pres_cleanupStaleWorkloads: "W a \<Longrightarrow> preserves I (cleanupStaleWorkloads r a ps)"
  unfolding cleanupStaleWorkloads_def
  by (auto intro!: pres reads update delete preserves_bind_yields [OF yields_cleanup_loop]
      split: sum.split)

lemma pres_cleanup_attachments:
  "\<forall>a \<in> set as. W a \<Longrightarrow> preserves I (cleanup_attachments r ps as)"
  by (induction as) (auto intro!: pres pres_cleanupStaleWorkloads)

lemma pres_RunCleanup:
  assumes "\<And>ps. preserves I (cleanupStaleHeadroomPods r ps)"
  shows "preserves I (RunCleanup r)"
  unfolding RunCleanup_def
  by (auto intro!: pres reads assms pres_cleanup_attachments
      preserves_bind_yields [OF yields_list] split: sum.split)

end

locale volume_invariant = attachment_invariant r I W "\<lambda>_. True"
  for r :: reconciler and I :: "ctl_state \<Rightarrow> bool" and W :: "s3pa \<Rightarrow> bool" +
  assumes set: "I s \<Longrightarrow> I (s\<lparr>s3paExpectations := setPending ord f (s3paExpectations s)\<rparr>)"
    and create: "getFSGroup w = Inr g \<Longrightarrow>
        preserves I (createS3PodAttachmentWithMPPod r w p role kind)"
begin

lemma pres_set: "preserves I (expect_set r f)"
  by (simp add: preserves_def wp expect_set_def set)

lemma pres_spawnOrDelete: "preserves I (spawnOrDeleteMountpointPodIfNeeded r w p kind)"
  unfolding spawnOrDeleteMountpointPodIfNeeded_def handleInactivePod_def
    handleNewS3PodAttachment_def
  by (auto dest!: buildFieldFilters_fs_group intro!: pres reads create pres_set
      pres_removeWorkload pres_handleExisting
      preserves_bind_yields [OF yields_getExistingS3PodAttachment] split: sum.split option.split)

end

section \<open>Runs of the controller\<close>

text \<open>
  The requests one goroutine of the controller handles, one after the other. The reconciler and the
  cleaner run in different goroutines; to each of them the other one is part of the cluster.
\<close>

datatype request = ReconcilePod string string | CleanupTick

fun handle :: "reconciler \<Rightarrow> request \<Rightarrow> ctl_state \<Rightarrow> ctl_state" where
  "handle r (ReconcilePod ns name) s = snd (run_state (Reconcile r ns name) s)"
| "handle r CleanupTick s = snd (run_state (RunCleanup r) s)"

definition initial :: ctl_state where
  "initial = \<lparr>calls = [], s3paExpectations = {}\<rparr>"

definition controller_run :: "reconciler \<Rightarrow> request list \<Rightarrow> ctl_state" where
  "controller_run r reqs = fold (handle r) reqs initial"

lemma run_invariant:
  assumes "\<And>ns name. preserves I (Reconcile r ns name)" "preserves I (RunCleanup r)" "I initial"
  shows "I (controller_run r reqs)"
proof -
  have step: "I (handle r req s)" if "I s" for req s
    using assms(1,2) that by (cases req) (auto intro: preserves_snd)
  have "I s \<Longrightarrow> I (fold (handle r) reqs s)" for s
    by (induction reqs arbitrary: s) (auto intro: step)
  with assms(3) show ?thesis by (simp add: controller_run_def)
qed

end
