(* ===== verification/Attachments.thy ===== *)
theory Attachments
  imports K8s
begin

text \<open>
  The MountpointS3PodAttachment as a relation between Mountpoint Pods and workloads: when it is well
  formed, and which updates of its map keep it so.
\<close>

section \<open>Well-formed attachments\<close>

text \<open>
  A well-formed attachment has each Mountpoint Pod once and assigns each workload to at most one of
  them, once.
\<close>

definition workload_uids :: "workload_attachment list \<Rightarrow> string list" where
  "workload_uids ws = map workload_pod_uid ws"

definition well_formed :: "s3pa \<Rightarrow> bool" where
  "well_formed a \<longleftrightarrow>
     distinct (map fst (sp_attachments a)) \<and>
     distinct (concat (map (workload_uids \<circ> snd) (sp_attachments a)))"

text \<open>The same by lookups, which the updates rewrite.\<close>

definition uids_at :: "(string \<times> workload_attachment list) list \<Rightarrow> string \<Rightarrow> string set" where
  "uids_at m k = set (workload_uids (alookup m k))"

lemma alookup_Cons: "alookup ((k, v) # m) k' = (if k' = k then v else alookup m k')"
  by (simp add: alookup_def)

lemma alookup_absent: "k \<notin> fst ` set m \<Longrightarrow> alookup m k = []"
  by (auto simp: alookup_def split: option.splits dest!: map_of_SomeD)
    (metis fst_conv image_eqI)

lemma uids_at_Cons:
  "uids_at ((k, v) # m) k' = (if k' = k then set (workload_uids v) else uids_at m k')"
  by (simp add: uids_at_def alookup_Cons)

lemma uids_at_absent: "k \<notin> fst ` set m \<Longrightarrow> uids_at m k = {}"
  by (simp add: uids_at_def alookup_absent workload_uids_def)

lemma all_override:
  "Q (g k) \<Longrightarrow> (\<forall>x. Q (if x = k then v else g x)) \<longleftrightarrow> Q v \<and> (\<forall>x. Q (g x))"
  by metis

lemma Union_override:
  assumes "g k = {}"
  shows "(\<Union>x. if x = k then A else g x) = A \<union> (\<Union>x. g x)"
proof -
  have "x \<noteq> k" if "y \<in> g x" for x y
    using that assms by auto
  then have "y \<in> (\<Union>x. if x = k then A else g x)" if "y \<in> g x" for x y
    using that by (intro UN_I [of x]) auto
  moreover have "y \<in> (\<Union>x. if x = k then A else g x)" if "y \<in> A" for y
    using that by (intro UN_I [of k]) auto
  ultimately show ?thesis
    by (auto split: if_splits)
qed

lemma uids_at_Union_Cons:
  "uids_at m k = {} \<Longrightarrow>
     (\<Union>k'. uids_at ((k, v) # m) k') = set (workload_uids v) \<union> (\<Union>k'. uids_at m k')"
  unfolding uids_at_Cons by (rule Union_override)

lemma concat_uids:
  "distinct (map fst m) \<Longrightarrow> set (concat (map (workload_uids \<circ> snd) m)) = (\<Union>k. uids_at m k)"
proof (induction m)
  case (Cons kv m)
  obtain k v where kv: "kv = (k, v)" by (cases kv)
  have "uids_at m k = {}"
    using Cons.prems kv by (simp add: uids_at_absent)
  with Cons kv show ?case by (simp add: uids_at_Union_Cons)
qed (simp add: uids_at_def alookup_def workload_uids_def)

lemma distinct_concat_uids:
  "distinct (map fst m) \<Longrightarrow>
     distinct (concat (map (workload_uids \<circ> snd) m)) \<longleftrightarrow>
       (\<forall>k. distinct (workload_uids (alookup m k))) \<and>
       (\<forall>k k'. k \<noteq> k' \<longrightarrow> uids_at m k \<inter> uids_at m k' = {})"
proof (induction m)
  case Nil
  then show ?case by (simp add: alookup_def workload_uids_def uids_at_def)
next
  case (Cons kv m)
  obtain k v where kv: "kv = (k, v)" by (cases kv)
  have absent: "alookup m k = []" "uids_at m k = {}"
    using Cons.prems kv by (simp_all add: alookup_absent uids_at_absent)
  have 1: "distinct (concat (map (workload_uids \<circ> snd) (kv # m))) \<longleftrightarrow>
      distinct (workload_uids v) \<and> distinct (concat (map (workload_uids \<circ> snd) m)) \<and>
      set (workload_uids v) \<inter> (\<Union>k'. uids_at m k') = {}"
    using Cons.prems kv concat_uids [of m] by auto
  have 2: "(\<forall>k'. distinct (workload_uids (alookup (kv # m) k'))) \<longleftrightarrow>
      distinct (workload_uids v) \<and> (\<forall>k'. distinct (workload_uids (alookup m k')))"
    unfolding kv alookup_Cons
    by (rule all_override [where Q = "\<lambda>ws. distinct (workload_uids ws)"])
      (simp add: absent(1) workload_uids_def)
  have 3: "(\<forall>k1 k2. k1 \<noteq> k2 \<longrightarrow> uids_at (kv # m) k1 \<inter> uids_at (kv # m) k2 = {}) \<longleftrightarrow>
      set (workload_uids v) \<inter> (\<Union>k'. uids_at m k') = {} \<and>
      (\<forall>k1 k2. k1 \<noteq> k2 \<longrightarrow> uids_at m k1 \<inter> uids_at m k2 = {})" (is "?L \<longleftrightarrow> ?R1 \<and> ?R2")
  proof
    assume L: ?L
    have "set (workload_uids v) \<inter> uids_at m k' = {}" for k'
      using L [rule_format, of k k'] absent(2) kv by (cases "k' = k") (simp_all add: uids_at_Cons)
    moreover have "uids_at m k1 \<inter> uids_at m k2 = {}" if "k1 \<noteq> k2" for k1 k2
      using L [rule_format, OF that] absent(2) kv
      by (cases "k1 = k"; cases "k2 = k") (simp_all add: uids_at_Cons)
    ultimately show "?R1 \<and> ?R2" by blast
  next
    assume R: "?R1 \<and> ?R2"
    show ?L
    proof (intro allI impI)
      fix k1 k2 :: string
      assume "k1 \<noteq> k2"
      moreover have "set (workload_uids v) \<inter> uids_at m k' = {}" for k'
        using R by blast
      ultimately show "uids_at (kv # m) k1 \<inter> uids_at (kv # m) k2 = {}"
        using R kv by (cases "k1 = k"; cases "k2 = k") (simp_all add: uids_at_Cons Int_commute)
    qed
  qed
  have 4: "distinct (map fst m)"
    using Cons.prems by simp
  show ?case
    by (simp only: 1 2 3 Cons.IH [OF 4] conj_ac)
qed

lemma well_formed_iff:
  "well_formed a \<longleftrightarrow> distinct (map fst (sp_attachments a)) \<and>
     (\<forall>k. distinct (workload_uids (alookup (sp_attachments a) k))) \<and>
     (\<forall>k k'. k \<noteq> k' \<longrightarrow> uids_at (sp_attachments a) k \<inter> uids_at (sp_attachments a) k' = {})"
  unfolding well_formed_def using distinct_concat_uids by blast

section \<open>Updates that keep it\<close>

lemma uids_at_update [simp]:
  "uids_at (AList.update k ws m) k' = (if k' = k then set (workload_uids ws) else uids_at m k')"
  by (simp add: uids_at_def)

lemma uids_at_delete [simp]:
  "uids_at (AList.delete k m) k' = (if k' = k then {} else uids_at m k')"
  by (simp add: uids_at_def workload_uids_def)

lemma well_formed_update:
  assumes a: "well_formed a" and ws: "distinct (workload_uids ws)"
    and new: "\<And>k'. k' \<noteq> k \<Longrightarrow> set (workload_uids ws) \<inter> uids_at (sp_attachments a) k' = {}"
  shows "well_formed (a\<lparr>sp_attachments := AList.update k ws (sp_attachments a)\<rparr>)"
  using a ws new new [THEN trans [OF Int_commute]]
  by (auto simp: well_formed_iff)

lemma well_formed_delete:
  assumes "well_formed a"
  shows "well_formed (a\<lparr>sp_attachments := AList.delete k (sp_attachments a)\<rparr>)"
  using assms by (simp add: well_formed_iff workload_uids_def)

lemma well_formed_filter:
  assumes a: "well_formed a"
  shows "well_formed (a\<lparr>sp_attachments :=
    AList.update k (filter P (alookup (sp_attachments a) k)) (sp_attachments a)\<rparr>)"
proof (rule well_formed_update [OF a])
  show "distinct (workload_uids (filter P (alookup (sp_attachments a) k)))"
    using a by (auto simp: well_formed_iff workload_uids_def distinct_map_filter)
next
  fix k'
  assume "k' \<noteq> k"
  then have "uids_at (sp_attachments a) k \<inter> uids_at (sp_attachments a) k' = {}"
    using a by (simp add: well_formed_iff)
  then show "set (workload_uids (filter P (alookup (sp_attachments a) k))) \<inter>
      uids_at (sp_attachments a) k' = {}"
    by (auto simp: uids_at_def workload_uids_def)
qed

lemma well_formed_version [simp]: "well_formed (a\<lparr>sp_resource_version := rv\<rparr>) = well_formed a"
  by (simp add: well_formed_def)

lemma list_uids:
  "distinct (map fst m) \<Longrightarrow>
     list_ex (\<lambda>(k, ws). list_ex (\<lambda>w. workload_pod_uid w = uid) ws) m \<longleftrightarrow> (\<exists>k. uid \<in> uids_at m k)"
proof -
  assume d: "distinct (map fst m)"
  have "list_ex (\<lambda>(k, ws). list_ex (\<lambda>w. workload_pod_uid w = uid) ws) m \<longleftrightarrow>
      uid \<in> set (concat (map (workload_uids \<circ> snd) m))"
    by (induction m) (auto simp: list_ex_iff workload_uids_def)
  then show ?thesis
    by (simp only: concat_uids [OF d]) simp
qed

end
