(* ===== verification/Example_Cluster.thy ===== *)
theory Example_Cluster
  imports Cleaner Attachments
begin

text \<open>
  A concrete cluster and configuration at which properties with hypotheses are applied: every write
  is accepted, a created Pod is named mp-1, and reads answer with one volume, one service account
  and the Pods and attachments given.
\<close>

definition example_csi :: csi_source where
  "example_csi = \<lparr>csi_driver = ''s3.csi.aws.com'', volume_handle = ''vol'', volume_attributes = None\<rparr>"

definition example_pv :: pv where
  "example_pv = \<lparr>pv_name = ''pv'', pv_csi = Some example_csi, pv_mount_options = [''allow-delete''],
     pv_claim_ref = Some ''claim''\<rparr>"

definition example_workload :: pod where
  "example_workload =
     \<lparr>pod_name = ''w'', pod_generate_name = [], pod_namespace = ''default'', pod_uid = ''u1'',
      pod_labels = None, pod_annotations = None, deletion_timestamp = None, node_name = ''node'',
      service_account_name = [], pod_security_fs_group = Some None,
      pod_volumes = [\<lparr>volume_name = ''data'', volume_source = PersistentVolumeClaimSource ''claim''\<rparr>],
      scheduling_gates = [], priority_class = [], restart_policy = [], grace_period = None,
      containers = [], node_affinity = [], pod_affinity = [], tolerations = [],
      phase = PodPending, conditions = []\<rparr>"

definition example_attachment :: s3pa where
  "example_attachment =
     \<lparr>sp_name = ''s3pa-1'', sp_generate_name = [], sp_labels = [], sp_resource_version = ''1'',
      sp_node_name = ''node'', sp_persistent_volume_name = ''pv'', sp_volume_id = ''vol'',
      sp_mount_options = ''allow-delete'', sp_authentication_source = ''driver'',
      sp_workload_fs_group = [], sp_workload_service_account_name = [],
      sp_workload_namespace = [], sp_workload_role_arn = [],
      sp_attachments = [(''mp-1'', [\<lparr>workload_pod_uid = ''u1'', attachment_time = 0\<rparr>])]\<rparr>"

definition example_cluster :: "(string \<Rightarrow> string \<Rightarrow> api_error + pod) \<Rightarrow> s3pa list \<Rightarrow> cluster" where
  "example_cluster pods as =
     \<lparr>on_get_pod = (\<lambda>h. pods),
      on_get_pvc = (\<lambda>h ns n. Inr \<lparr>pvc_name = n, pvc_phase = ClaimBound, pvc_volume_name = ''pv''\<rparr>),
      on_get_pv = (\<lambda>h n. Inr example_pv), on_get_sa = (\<lambda>h ns n. Inr None),
      on_list_pods = (\<lambda>h. Inr []), on_list_s3pa = (\<lambda>h f. Inr as),
      on_create_pod = (\<lambda>h p. Inr (p\<lparr>pod_name := ''mp-1''\<rparr>)), on_update_pod = (\<lambda>h p. None),
      on_patch_pod = (\<lambda>h p q. Inr q), on_delete_pod = (\<lambda>h p. None), on_create_s3pa = (\<lambda>h a. None),
      on_update_s3pa = (\<lambda>h a. Inr ''2''), on_delete_s3pa = (\<lambda>h a. None),
      clock = (\<lambda>h. 0), range_order = (\<lambda>h ks. ks)\<rparr>"

definition example_config :: mppod_config where
  "example_config =
     \<lparr>cluster_variant = DefaultKubernetes, mountpoint_namespace = ''mount-s3'',
      mountpoint_version = ''1.20.0'', priority_class_name = ''mount-s3-critical'',
      preempting_priority_class_name = ''preempting'', headroom_priority_class_name = ''headroom'',
      container_cfg = \<lparr>cc_command = ''/bin/aws-s3-csi-mounter'', cc_image = ''mp:latest'',
        cc_headroom_image = ''pause:latest'', cc_image_pull_policy = ''Always''\<rparr>,
      csi_driver_version = ''2.0.0'', cfg_pod_labels = Map.empty,
      cfg_headroom_pod_labels = Map.empty\<rparr>"

definition example_outside :: outside where
  "example_outside =
     \<lparr>parse_quantity = (\<lambda>s. Inr (ParsedQuantity s 0)), sum224_hex = id, arg_walk = (\<lambda>xs. xs)\<rparr>"

definition example_reconciler ::
    "(string \<Rightarrow> string \<Rightarrow> api_error + pod) \<Rightarrow> s3pa list \<Rightarrow> reconciler" where
  "example_reconciler pods as =
     \<lparr>client = example_cluster pods as, mountpointPodConfig = example_config,
      creatorOutside = example_outside\<rparr>"

definition no_pods :: "string \<Rightarrow> string \<Rightarrow> api_error + pod" where
  "no_pods ns n = Inl NotFound"

lemmas example_defs = example_csi_def example_pv_def example_workload_def example_attachment_def
  example_cluster_def example_config_def example_outside_def example_reconciler_def no_pods_def

lemma well_formed_example: "well_formed example_attachment"
  by (simp add: well_formed_def workload_uids_def example_defs)

end
