(* ===== verification/Controller_Safety.thy ===== *)
theory Controller_Safety
  imports Controller_Protocol Example_Cluster
begin

text \<open>
  Safety of everything the controller writes, whatever the cluster answers: what may be deleted,
  that no Mountpoint Pod is spawned and forgotten, and that the attachments stay well formed.
\<close>

section \<open>What may be written\<close>

text \<open>
  A Pod is deleted only for one of three reasons, which the history right before the call shows: the
  write that should have recorded it failed, it is a Mountpoint Pod that succeeded or the Headroom
  Pod of a volume, just read, or it is a Headroom Pod in the Mountpoint namespace.
\<close>

fun rolled_back :: "history \<Rightarrow> pod \<Rightarrow> bool" where
  "rolled_back (EvCreateS3PA a (Some _) # EvCreatePod _ (Inr q) # _) p =
     (q = p \<and> pod_name p \<in> fst ` set (sp_attachments a))"
| "rolled_back (EvUpdateS3PA a (Inl _) # EvCreatePod _ (Inr q) # _) p =
     (q = p \<and> pod_name p \<in> fst ` set (sp_attachments a))"
| "rolled_back _ _ = False"

fun done_with :: "reconciler \<Rightarrow> history \<Rightarrow> pod \<Rightarrow> bool" where
  "done_with r (EvGetPod ns n (Inr q) # _) p =
     (q = p \<and>
      (isInMountpointNamespace r p \<and> \<not> IsHeadroomPod p \<and> phase p = PodSucceeded \<or>
       ns = mountpoint_namespace (mountpointPodConfig r) \<and>
         (\<exists>w v. n = HeadroomPodNameFor (creatorOutside r) w v)))"
| "done_with _ _ _ = False"

fun annotated_from :: "reconciler \<Rightarrow> history \<Rightarrow> pod \<Rightarrow> bool" where
  "annotated_from r (EvGetPod ns n (Inr q) # _) p =
     (ns = mountpoint_namespace (mountpointPodConfig r) \<and> p = annotate_needs_unmount q)"
| "annotated_from _ _ _ = False"

definition spawned_spec :: "reconciler \<Rightarrow> pod \<Rightarrow> bool" where
  "spawned_spec r p \<longleftrightarrow>
     (\<exists>node v kind. MountpointPod (creatorOutside r) (mountpointPodConfig r) node v kind = Inr p) \<or>
     (\<exists>w v. HeadroomPod (creatorOutside r) (mountpointPodConfig r) w v = Inr p)"

definition write_guard :: "reconciler \<Rightarrow> history \<Rightarrow> api_event \<Rightarrow> bool" where
  "write_guard r h e =
     (case e of
        EvDeleteS3PA a rv _ \<Rightarrow> sp_attachments a = [] \<and> rv = sp_resource_version a
      | EvDeletePod p _ \<Rightarrow> rolled_back h p \<or> done_with r h p \<or>
          isInMountpointNamespace r p \<and> IsHeadroomPod p
      | EvUpdatePod p _ \<Rightarrow> annotated_from r h p
      | EvPatchPod w w' _ \<Rightarrow> workload_change w w'
      | EvCreatePod p _ \<Rightarrow> spawned_spec r p
      | _ \<Rightarrow> True)"

abbreviation writes_guarded :: "reconciler \<Rightarrow> ctl_state \<Rightarrow> bool" where
  "writes_guarded r s \<equiv> guarded (write_guard r) (calls s)"

lemma read_guard: "read_event e \<Longrightarrow> write_guard r h e"
  by (cases e) (auto simp: write_guard_def)

lemma in_keys_update [simp]: "k \<in> fst ` set (AList.update k v m)"
  by simp

interpretation wr: volume_invariant r "writes_guarded r" "\<lambda>_. True" for r
proof unfold_locales
  show "writes_guarded r s \<Longrightarrow> read_event e \<Longrightarrow> writes_guarded r (s\<lparr>calls := e # calls s\<rparr>)" for s e
    by (simp add: read_guard)
  show "preserves (writes_guarded r) (createS3PodAttachmentWithMPPod r w p role kind)"
    for w p role kind
    by (auto simp: createS3PodAttachmentWithMPPod_def spawnMountpointPod_def preserves_def wp
        write_guard_def spawned_spec_def new_attachment_def Let_def
        split: sum.splits option.splits)
  show "preserves (writes_guarded r) (spawn_for_existing r w p a kind)" for w p a kind
    by (auto simp: spawn_for_existing_def spawnMountpointPod_def preserves_def wp
        write_guard_def spawned_spec_def set_workload_def split: sum.splits option.splits)
qed (auto simp: preserves_def wp read_guard addNeedsUnmountAnnotation_def getMountpointPod_def
      deleteS3PodAttachment_def write_guard_def split: sum.splits option.splits)

interpretation wr_request: request_invariant r "writes_guarded r" for r
proof unfold_locales
  show "writes_guarded r s \<Longrightarrow> read_event e \<Longrightarrow> writes_guarded r (s\<lparr>calls := e # calls s\<rparr>)" for s e
    by (simp add: read_guard)
  show "preserves (writes_guarded r) (spawnOrDeleteMountpointPodIfNeeded r w p kind)" for w p kind
    by (rule wr.pres_spawnOrDelete)
  show "preserves (writes_guarded r) (createHeadroomPodForMountpointPod r w p)" for w p
    by (auto simp: createHeadroomPodForMountpointPod_def create_headroom_def
        getHeadroomPodForMountpointPod_def preserves_def wp write_guard_def spawned_spec_def
        split: sum.splits option.splits)
  show "preserves (writes_guarded r) (deleteHeadroomPodForMountpointPod r w p)" for w p
    by (auto simp: deleteHeadroomPodForMountpointPod_def getHeadroomPodForMountpointPod_def
        preserves_def wp write_guard_def split: sum.splits option.splits)
qed (auto simp: preserves_def wp read_guard write_guard_def split: sum.splits option.splits)

lemma headroom_cleanup_loop_wp:
  assumes "\<And>s p res. I s \<Longrightarrow> isInMountpointNamespace r p \<Longrightarrow> IsHeadroomPod p \<Longrightarrow>
     I (s\<lparr>calls := EvDeletePod p res # calls s\<rparr>)"
  shows "preserves I (headroom_cleanup_loop r ps uids)"
proof (induction uids)
  case (Cons uid uids)
  have "preserves I (delete_pod (client r) p)" if "stale_headroom r ps p" for p
    using that assms
    by (auto simp: preserves_def wp stale_headroom_def split: option.splits if_splits)
  with Cons show ?case by (auto intro!: pres)
qed (simp add: pres)

lemma pres_cleanupStaleHeadroomPods:
  assumes "\<And>s p res. I s \<Longrightarrow> isInMountpointNamespace r p \<Longrightarrow> IsHeadroomPod p \<Longrightarrow>
     I (s\<lparr>calls := EvDeletePod p res # calls s\<rparr>)"
  shows "preserves I (cleanupStaleHeadroomPods r ps)"
  unfolding cleanupStaleHeadroomPods_def range_keys_def
  by (intro pres headroom_cleanup_loop_wp assms)

lemma cleanup_writes_guarded: "preserves (writes_guarded r) (RunCleanup r)"
  by (intro wr.pres_RunCleanup pres_cleanupStaleHeadroomPods) (simp add: write_guard_def)

section \<open>No Mountpoint Pod is forgotten\<close>

text \<open>
  A monitor over the calls, oldest first: after a Mountpoint Pod was created, the next call must
  record it in a MountpointS3PodAttachment, and if that fails the next one must delete it again.
\<close>

datatype monitor_state = Settled | Unrecorded pod | MustDelete pod | Forgotten

definition records :: "s3pa \<Rightarrow> pod \<Rightarrow> bool" where
  "records a p \<longleftrightarrow> pod_name p \<in> fst ` set (sp_attachments a)"

fun monitor_step :: "monitor_state \<Rightarrow> api_event \<Rightarrow> monitor_state" where
  "monitor_step Settled (EvCreatePod p (Inr q)) =
     (if pod_generate_name p = ''mp-'' then Unrecorded q else Settled)"
| "monitor_step Settled _ = Settled"
| "monitor_step (Unrecorded q) (EvCreateS3PA a res) =
     (if \<not> records a q then Forgotten else case res of None \<Rightarrow> Settled | Some _ \<Rightarrow> MustDelete q)"
| "monitor_step (Unrecorded q) (EvUpdateS3PA a res) =
     (if \<not> records a q then Forgotten else case res of Inr _ \<Rightarrow> Settled | Inl _ \<Rightarrow> MustDelete q)"
| "monitor_step (Unrecorded q) _ = Forgotten"
| "monitor_step (MustDelete q) (EvDeletePod p _) = (if p = q then Settled else Forgotten)"
| "monitor_step (MustDelete q) _ = Forgotten"
| "monitor_step Forgotten _ = Forgotten"

fun monitor :: "history \<Rightarrow> monitor_state" where
  "monitor [] = Settled"
| "monitor (e # h) = monitor_step (monitor h) e"

lemma monitor_idle:
  "(\<And>p q. e \<noteq> EvCreatePod p (Inr q)) \<Longrightarrow> monitor_step Settled e = Settled"
  by (cases "(Settled, e)" rule: monitor_step.cases) auto

lemma monitor_read: "read_event e \<Longrightarrow> monitor_step Settled e = Settled"
  by (rule monitor_idle) auto

lemma MountpointPod_generate_name:
  "MountpointPod out cfg node p kind = Inr mp \<Longrightarrow> pod_generate_name mp = ''mp-''"
  by (erule MountpointPod_Inr) (simp add: mountpoint_pod_base_def)

lemma MountpointPod_needs_csi:
  "MountpointPod out cfg node p kind = Inr mp \<Longrightarrow>
     pod_generate_name mp = ''mp-'' \<and> (\<exists>csi. pv_csi p = Some csi)"
  by (metis MountpointPod_Inr MountpointPod_generate_name)

lemma HeadroomPod_generate_name:
  "HeadroomPod out cfg w p = Inr hr \<Longrightarrow> pod_generate_name hr = []"
  by (auto dest!: HeadroomPod_Inr simp: headroom_pod_base_def)

abbreviation settled :: "ctl_state \<Rightarrow> bool" where
  "settled s \<equiv> monitor (calls s) = Settled"

interpretation mon: volume_invariant r settled "\<lambda>_. True" for r
proof unfold_locales
  show "settled s \<Longrightarrow> read_event e \<Longrightarrow> settled (s\<lparr>calls := e # calls s\<rparr>)" for s e
    by (simp add: monitor_read)
  show "preserves settled (createS3PodAttachmentWithMPPod r w p role kind)"
    if "getFSGroup w = Inr g" for w g p role kind
    using that by (auto simp: createS3PodAttachmentWithMPPod_def spawnMountpointPod_def preserves_def wp
        records_def new_attachment_def Let_def dest!: MountpointPod_needs_csi
        split: sum.splits option.splits)
  show "preserves settled (spawn_for_existing r w p a kind)" for w p a kind
    by (auto simp: spawn_for_existing_def spawnMountpointPod_def preserves_def wp
        records_def set_workload_def dest!: MountpointPod_generate_name
        split: sum.splits option.splits)
qed (auto simp: preserves_def wp addNeedsUnmountAnnotation_def getMountpointPod_def
      deleteS3PodAttachment_def split: sum.splits option.splits)

interpretation mon_request: request_invariant r settled for r
proof unfold_locales
  show "settled s \<Longrightarrow> read_event e \<Longrightarrow> settled (s\<lparr>calls := e # calls s\<rparr>)" for s e
    by (simp add: monitor_read)
  show "preserves settled (spawnOrDeleteMountpointPodIfNeeded r w p kind)" for w p kind
    by (rule mon.pres_spawnOrDelete)
  show "preserves settled (createHeadroomPodForMountpointPod r w p)" for w p
    by (auto simp: createHeadroomPodForMountpointPod_def create_headroom_def
        getHeadroomPodForMountpointPod_def preserves_def wp dest!: HeadroomPod_generate_name
        split: sum.splits option.splits)
  show "preserves settled (deleteHeadroomPodForMountpointPod r w p)" for w p
    by (auto simp: deleteHeadroomPodForMountpointPod_def getHeadroomPodForMountpointPod_def
        preserves_def wp split: sum.splits option.splits)
qed (auto simp: preserves_def wp split: sum.splits option.splits)

lemma cleanup_settled: "preserves settled (RunCleanup r)"
  by (intro mon.pres_RunCleanup pres_cleanupStaleHeadroomPods) simp

section \<open>Well-formed attachments\<close>

definition form_guard :: "history \<Rightarrow> api_event \<Rightarrow> bool" where
  "form_guard h e =
     (case e of EvUpdateS3PA a _ \<Rightarrow> well_formed a | EvCreateS3PA a _ \<Rightarrow> well_formed a | _ \<Rightarrow> True)"

abbreviation writes_well_formed :: "ctl_state \<Rightarrow> bool" where
  "writes_well_formed s \<equiv> guarded form_guard (calls s)"

lemma contains_workload:
  "well_formed a \<Longrightarrow> s3paContainsWorkload a uid \<longleftrightarrow> (\<exists>k. uid \<in> uids_at (sp_attachments a) k)"
  by (simp add: s3paContainsWorkload_def list_uids well_formed_def)

lemma well_formed_append:
  assumes a: "well_formed a" and new: "\<not> s3paContainsWorkload a uid"
  shows "well_formed (append_workload a k uid t)"
  unfolding append_workload_def
proof (rule well_formed_update [OF a])
  have "distinct (workload_uids (alookup (sp_attachments a) k))"
    using a by (simp add: well_formed_iff)
  with a new show "distinct (workload_uids (alookup (sp_attachments a) k @
      [\<lparr>workload_pod_uid = uid, attachment_time = t\<rparr>]))"
    by (auto simp: contains_workload workload_uids_def uids_at_def)
next
  fix k'
  assume "k' \<noteq> k"
  then have "uids_at (sp_attachments a) k \<inter> uids_at (sp_attachments a) k' = {}"
    using a by (simp add: well_formed_iff)
  with a new show "set (workload_uids (alookup (sp_attachments a) k @
      [\<lparr>workload_pod_uid = uid, attachment_time = t\<rparr>])) \<inter> uids_at (sp_attachments a) k' = {}"
    by (auto simp: contains_workload workload_uids_def uids_at_def)
qed

lemma well_formed_set:
  assumes a: "well_formed a" and new: "\<not> s3paContainsWorkload a uid"
  shows "well_formed (set_workload a k uid t)"
  unfolding set_workload_def
  by (rule well_formed_update [OF a])
    (use new in \<open>auto simp: contains_workload [OF a] workload_uids_def\<close>)

lemma well_formed_new: "well_formed (new_attachment r w p csi g role k t)"
  by (simp add: new_attachment_def Let_def well_formed_def workload_uids_def)

text \<open>
  The cluster lists well-formed attachments. The controller is the only writer of this resource, so
  this is what its own writes establish.
\<close>

definition lists_well_formed :: "reconciler \<Rightarrow> bool" where
  "lists_well_formed r \<longleftrightarrow>
     (\<forall>h f as. on_list_s3pa (client r) h f = Inr as \<longrightarrow> (\<forall>a \<in> set as. well_formed a))"

lemma form_volume:
  assumes "lists_well_formed r"
  shows "volume_invariant r writes_well_formed well_formed"
proof unfold_locales
  show "writes_well_formed s \<Longrightarrow> read_event e \<Longrightarrow> writes_well_formed (s\<lparr>calls := e # calls s\<rparr>)"
    for s e
    by (cases e) (simp_all add: form_guard_def)
  show "well_formed a" if "on_list_s3pa (client r) h f = Inr as" "a \<in> set as" for h f as a
    using assms that by (auto simp: lists_well_formed_def)
  show "preserves writes_well_formed (createS3PodAttachmentWithMPPod r w p role kind)"
    for w p role kind
    by (auto simp: createS3PodAttachmentWithMPPod_def spawnMountpointPod_def preserves_def wp
        form_guard_def well_formed_new split: sum.splits option.splits)
  show "preserves writes_well_formed (spawn_for_existing r w p a kind)"
    if "well_formed a" "\<not> s3paContainsWorkload a (pod_uid w)" for a w p kind
    using that
    by (auto simp: spawn_for_existing_def spawnMountpointPod_def preserves_def wp
        form_guard_def well_formed_set split: sum.splits option.splits)
qed (auto simp: preserves_def wp addNeedsUnmountAnnotation_def getMountpointPod_def
      deleteS3PodAttachment_def form_guard_def well_formed_filter well_formed_delete
      well_formed_append split: sum.splits option.splits)

lemma form_request:
  assumes "lists_well_formed r"
  shows "request_invariant r writes_well_formed"
proof unfold_locales
  show "writes_well_formed s \<Longrightarrow> read_event e \<Longrightarrow> writes_well_formed (s\<lparr>calls := e # calls s\<rparr>)"
    for s e
    by (cases e) (simp_all add: form_guard_def)
  show "preserves writes_well_formed (spawnOrDeleteMountpointPodIfNeeded r w p kind)" for w p kind
    by (rule volume_invariant.pres_spawnOrDelete [OF form_volume [OF assms]])
qed (auto simp: createHeadroomPodForMountpointPod_def create_headroom_def
      getHeadroomPodForMountpointPod_def deleteHeadroomPodForMountpointPod_def
      preserves_def wp form_guard_def split: sum.splits option.splits)

section \<open>Runs\<close>

text \<open>
  C1: In every run of the controller, against any behaviour of the cluster, an attachment is deleted
  only when it references no Mountpoint Pod and under the resource version it was read with; a Pod
  is deleted only if the write that should record it just failed, if it is a Mountpoint Pod that
  succeeded or the Headroom Pod of a volume just read, or if it is a Headroom Pod in the Mountpoint
  namespace; a Mountpoint Pod is changed only by the needs-unmount annotation; a workload Pod only
  by the headroom label and gate; and only specifications of the creator are spawned.
\<close>

theorem controller_writes_guarded:
  "guarded (write_guard r) (calls (controller_run r reqs))"
  by (rule run_invariant [OF wr_request.pres_Reconcile cleanup_writes_guarded])
    (simp add: initial_def)

text \<open>
  C2: No run of the controller leaves a Mountpoint Pod unaccounted for: the call after each spawn
  records the new Pod in a MountpointS3PodAttachment, and when that fails the next call deletes the
  Pod again.
\<close>

theorem no_mountpoint_pod_forgotten:
  "monitor (calls (controller_run r reqs)) = Settled"
  by (rule run_invariant [OF mon_request.pres_Reconcile cleanup_settled])
    (simp add: initial_def)

text \<open>
  C17: If the attachments the cluster lists are well formed, every attachment the controller creates
  or updates is: no Mountpoint Pod is listed twice and no workload is assigned to two Mountpoint
  Pods, or twice to one.
\<close>

theorem attachments_stay_well_formed:
  assumes "lists_well_formed r"
  shows "guarded form_guard (calls (controller_run r reqs))"
proof (rule run_invariant [OF request_invariant.pres_Reconcile [OF form_request [OF assms]]])
  show "preserves writes_well_formed (RunCleanup r)"
    using assms
    by (intro attachment_invariant.pres_RunCleanup [OF volume_invariant.axioms(1) [OF form_volume]]
        pres_cleanupStaleHeadroomPods) (simp_all add: form_guard_def)
qed (simp add: initial_def)

theorem attachments_stay_well_formed_witness:
  "guarded form_guard (calls (controller_run (example_reconciler no_pods [example_attachment])
     [ReconcilePod ''default'' ''w'', CleanupTick]))"
proof -
  have "lists_well_formed (example_reconciler no_pods [example_attachment])"
    using well_formed_example
    by (simp add: lists_well_formed_def example_reconciler_def example_cluster_def)
  then show ?thesis by (rule attachments_stay_well_formed)
qed

end
