(* ===== verification/Controller_Pending.thy ===== *)
theory Controller_Pending
  imports Controller_Safety
begin

text \<open>
  The expectations keep the reconciler from creating a second MountpointS3PodAttachment for the same
  field filters while the first one has not shown up in a listing. That a listing shows what was
  created rests on the created object matching the filters it was looked up with.
\<close>

section \<open>A created attachment answers to its filters\<close>

definition attachment_filters :: "s3pa \<Rightarrow> field_filters" where
  "attachment_filters a =
     [(FieldNodeName, sp_node_name a), (FieldPersistentVolumeName, sp_persistent_volume_name a),
      (FieldVolumeID, sp_volume_id a), (FieldMountOptions, sp_mount_options a),
      (FieldWorkloadFSGroup, sp_workload_fs_group a),
      (FieldAuthenticationSource, sp_authentication_source a)] @
     (if sp_authentication_source a = AuthenticationSourcePod then
        [(FieldWorkloadNamespace, sp_workload_namespace a),
         (FieldWorkloadServiceAccountName, sp_workload_service_account_name a),
         (FieldWorkloadServiceAccountIAMRoleARN, sp_workload_role_arn a)]
      else [])"

lemma new_attachment_filters:
  assumes "buildFieldFilters w p role = Inr f" "getFSGroup w = Inr g" "pv_csi p = Some csi"
  shows "attachment_filters (new_attachment r w p csi g role k t) = f"
  using assms
  by (auto simp: buildFieldFilters_def new_attachment_def attachment_filters_def Let_def)

lemma matches_own_filters: "matches_fields (attachment_filters a) a"
  by (simp add: matches_fields_def attachment_filters_def getIndexFields_def field_consts)

section \<open>Created and not seen yet\<close>

fun unseen_keys :: "history \<Rightarrow> string set" where
  "unseen_keys [] = {}"
| "unseen_keys (EvCreateS3PA a None # h) = insert (filter_key (attachment_filters a)) (unseen_keys h)"
| "unseen_keys (EvListS3PA (Some f) (Inr (_ # _)) # h) = unseen_keys h - {filter_key f}"
| "unseen_keys (_ # h) = unseen_keys h"

definition keyed_guard :: "history \<Rightarrow> api_event \<Rightarrow> bool" where
  "keyed_guard h e =
     (case e of EvCreateS3PA a _ \<Rightarrow> filter_key (attachment_filters a) \<notin> unseen_keys h | _ \<Rightarrow> True)"

text \<open>\<open>X\<close> is a set of keys that were seen since.\<close>

definition expected :: "string set \<Rightarrow> ctl_state \<Rightarrow> bool" where
  "expected X s \<longleftrightarrow> unseen_keys (calls s) \<subseteq> s3paExpectations s - X \<and> guarded keyed_guard (calls s)"

lemma unseen_other:
  "(\<And>a. e \<noteq> EvCreateS3PA a None) \<Longrightarrow> unseen_keys (e # h) \<subseteq> unseen_keys h"
  by (cases "e # h" rule: unseen_keys.cases) auto

lemma guard_other: "(\<And>a res. e \<noteq> EvCreateS3PA a res) \<Longrightarrow> keyed_guard h e"
  by (cases e) (auto simp: keyed_guard_def)

lemma expected_other:
  assumes "expected X s" "\<And>a res. e \<noteq> EvCreateS3PA a res"
  shows "expected X (s\<lparr>calls := e # calls s\<rparr>)"
  using assms unseen_other [of e "calls s"] guard_other [of e "calls s"]
  by (auto simp: expected_def)

lemma expected_read:
  "expected X s \<Longrightarrow> read_event e \<Longrightarrow> expected X (s\<lparr>calls := e # calls s\<rparr>)"
  by (rule expected_other) auto

interpretation seen: attachment_invariant r "expected {filter_key f0}" "\<lambda>_. True" "\<lambda>f. f = f0"
  for r f0
proof unfold_locales
  show "expected {filter_key f0} s \<Longrightarrow> read_event e \<Longrightarrow>
      expected {filter_key f0} (s\<lparr>calls := e # calls s\<rparr>)" for s e
    by (rule expected_read)
  show "expected {filter_key f0} (s\<lparr>s3paExpectations := clearPending ord g (s3paExpectations s)\<rparr>)"
    if "g = f0" "expected {filter_key f0} s" for g s ord
    using that by (auto simp: expected_def clearPending_def derive_key)
  show "preserves (expected {filter_key f0}) (spawn_for_existing r w p a kind)" for w p a kind
    by (auto simp: spawn_for_existing_def spawnMountpointPod_def preserves_def wp
        intro!: expected_other [where s = "s\<lparr>calls := _\<rparr>" for s, simplified]
        expected_other split: sum.splits option.splits)
qed (auto simp: preserves_def wp addNeedsUnmountAnnotation_def getMountpointPod_def
      deleteS3PodAttachment_def intro: expected_other
      expected_other [where s = "s\<lparr>calls := _\<rparr>" for s, simplified]
      split: sum.splits option.splits)

lemma expected_weaken: "expected X s \<Longrightarrow> expected {} s"
  by (auto simp: expected_def)

lemma seen_weaken:
  assumes "preserves (expected X) m" "expected X s"
  shows "wp m (\<lambda>_. expected {}) s"
  using preservesD [OF assms] by (rule wp_mono) (rule expected_weaken)

section \<open>The transaction of a volume\<close>

lemma listing_is_seen:
  "expected {} s \<Longrightarrow>
     expected {filter_key f} (s\<lparr>calls := EvListS3PA (Some f) (Inr (a # as)) # calls s\<rparr>)"
  by (auto simp: expected_def guard_other)

lemma wp_existing:
  assumes s: "expected {} s"
  shows "wp (getExistingS3PodAttachment r f)
    (\<lambda>res s'. expected {} s' \<and> (\<forall>a. res = Inr (Some a) \<longrightarrow> expected {filter_key f} s')) s"
proof (cases "on_list_s3pa (client r) (calls s) (Some f)")
  case (Inl e)
  with s show ?thesis by (simp add: getExistingS3PodAttachment_def wp expected_read)
next
  case (Inr l)
  show ?thesis
  proof (cases l)
    case Nil
    with Inr s show ?thesis by (simp add: getExistingS3PodAttachment_def wp expected_read)
  next
    case (Cons a as)
    let ?s = "s\<lparr>calls := EvListS3PA (Some f) (Inr (a # as)) # calls s\<rparr>"
    have s': "expected {filter_key f} ?s"
      using s by (rule listing_is_seen)
    have "wp (recoverFromDuplicateS3PodAttachments r (a # as) f)
        (\<lambda>res s'. expected {filter_key f} s' \<and> (\<forall>a. res = Inr (Some a) \<longrightarrow> True)) ?s"
      by (rule yieldsD [OF seen.yields_recover s']) simp_all
    then have "wp (recoverFromDuplicateS3PodAttachments r (a # as) f)
        (\<lambda>res s'. expected {} s' \<and> (\<forall>a. res = Inr (Some a) \<longrightarrow> expected {filter_key f} s')) ?s"
      by (rule wp_mono) (auto intro: expected_weaken)
    with Inr Cons s' show ?thesis
      by (auto simp: getExistingS3PodAttachment_def wp intro: expected_weaken)
  qed
qed

lemma wp_handleNew:
  assumes s: "expected {} s" and f: "buildFieldFilters w p role = Inr f"
  shows "wp (handleNewS3PodAttachment r w p role f kind) (\<lambda>_. expected {}) s"
proof (cases "filter_key f \<in> s3paExpectations s \<or> isPodRunning w")
  case True
  with s show ?thesis
    by (auto simp: handleNewS3PodAttachment_def expect_pending_def wp isPending_def derive_key)
next
  case False
  then have new: "filter_key f \<notin> unseen_keys (calls s)"
    using s by (auto simp: expected_def)
  obtain g where g: "getFSGroup w = Inr g"
    using buildFieldFilters_fs_group [OF f] by blast
  have key: "attachment_filters (new_attachment r w p csi g role k t) = f" if "pv_csi p = Some csi"
    for csi k t
    using new_attachment_filters [OF f g that] .
  show ?thesis
    using False s new g key
    by (auto simp: handleNewS3PodAttachment_def expect_pending_def expect_set_def wp isPending_def
        derive_key createS3PodAttachmentWithMPPod_def spawnMountpointPod_def setPending_def
        expected_def keyed_guard_def split: sum.split option.split)
qed

lemma wp_volume:
  assumes s: "expected {} s"
  shows "wp (spawnOrDeleteMountpointPodIfNeeded r w p kind) (\<lambda>_. expected {}) s"
proof -
  have exist: "wp (getExistingS3PodAttachment r f) (\<lambda>res s'. wp
      (case res of Inl e \<Rightarrow> State_Monad.return (Requeue, Some e)
       | Inr a \<Rightarrow> if \<not> isPodActive w then handleInactivePod r a (pod_uid w) f
         else case a of Some a \<Rightarrow> handleExistingS3PodAttachment r w p a f kind
            | None \<Rightarrow> handleNewS3PodAttachment r w p role f kind) (\<lambda>_. expected {}) s') s"
    if s: "expected {} s" and f: "buildFieldFilters w p role = Inr f" for s role f
    using wp_existing [OF s]
  proof (rule wp_mono, goal_cases)
    case (1 res s')
    then have s': "expected {} s'" and some: "res = Inr (Some a) \<Longrightarrow> expected {filter_key f} s'" for a
      by auto
    show ?case
    proof (cases res)
      case (Inl e)
      with s' show ?thesis by (simp add: wp)
    next
      case (Inr x)
      show ?thesis
      proof (cases x)
        case None
        with Inr s' show ?thesis
          by (simp add: handleInactivePod_def wp wp_handleNew [OF s' f])
      next
        case (Some a)
        then have "expected {filter_key f} s'" using Inr some by simp
        then show ?thesis
          using Inr Some by (auto simp: handleInactivePod_def
              intro!: seen_weaken [OF seen.pres_removeWorkload] seen_weaken [OF seen.pres_handleExisting])
      qed
    qed
  qed
  show ?thesis
    using s
    by (auto simp: spawnOrDeleteMountpointPodIfNeeded_def findIRSAServiceAccountRole_def wp
        split: sum.split option.split intro!: exist expected_read)
qed

interpretation pend: request_invariant r "expected {}" for r
proof unfold_locales
  show "expected {} s \<Longrightarrow> read_event e \<Longrightarrow> expected {} (s\<lparr>calls := e # calls s\<rparr>)" for s e
    by (rule expected_read)
  show "preserves (expected {}) (spawnOrDeleteMountpointPodIfNeeded r w p kind)" for w p kind
    by (rule preservesI) (rule wp_volume)
qed (auto simp: preserves_def wp createHeadroomPodForMountpointPod_def create_headroom_def
      getHeadroomPodForMountpointPod_def deleteHeadroomPodForMountpointPod_def
      intro: expected_other expected_other [where s = "s\<lparr>calls := _\<rparr>" for s, simplified]
      split: sum.splits option.splits)

interpretation pend_cleanup: attachment_invariant r "expected {}" "\<lambda>_. True" "\<lambda>_. False" for r
proof unfold_locales
  show "expected {} s \<Longrightarrow> read_event e \<Longrightarrow> expected {} (s\<lparr>calls := e # calls s\<rparr>)" for s e
    by (rule expected_read)
qed (auto simp: preserves_def wp addNeedsUnmountAnnotation_def getMountpointPod_def
      deleteS3PodAttachment_def spawn_for_existing_def spawnMountpointPod_def
      intro: expected_other expected_other [where s = "s\<lparr>calls := _\<rparr>" for s, simplified]
      split: sum.splits option.splits)

lemma cleanup_expected: "preserves (expected {}) (RunCleanup r)"
  by (intro pend_cleanup.pres_RunCleanup pres_cleanupStaleHeadroomPods expected_other) auto

section \<open>The same for filters\<close>

text \<open>
  The field filters, as maps, of the attachments whose creation was accepted and that no listing with
  these very filters has shown since. The reconciler remembers a text made of the filters, in which a value
  with a semicolon can look like another entry: filters without one are plain.
\<close>

fun unseen :: "history \<Rightarrow> (string \<rightharpoonup> string) set" where
  "unseen [] = {}"
| "unseen (EvCreateS3PA a None # h) = insert (map_of (attachment_filters a)) (unseen h)"
| "unseen (EvListS3PA (Some f) (Inr (_ # _)) # h) = unseen h - {map_of f}"
| "unseen (_ # h) = unseen h"

fun plain_event :: "api_event \<Rightarrow> bool" where
  "plain_event (EvCreateS3PA a _) = clean_entries (attachment_filters a)"
| "plain_event (EvListS3PA (Some f) _) = clean_entries f"
| "plain_event _ = True"

definition create_guard :: "history \<Rightarrow> api_event \<Rightarrow> bool" where
  "create_guard h e =
     (case e of
        EvCreateS3PA a _ \<Rightarrow> list_all plain_event (e # h) \<longrightarrow> map_of (attachment_filters a) \<notin> unseen h
      | _ \<Rightarrow> True)"

lemma unseen_has_key:
  "list_all plain_event h \<Longrightarrow> m \<in> unseen h \<Longrightarrow>
     \<exists>f. clean_entries f \<and> map_of f = m \<and> filter_key f \<in> unseen_keys h"
proof (induction h rule: unseen.induct)
  case (3 g a as h)
  then obtain f where f: "clean_entries f" "map_of f = m" "filter_key f \<in> unseen_keys h" by auto
  moreover have "filter_key f \<noteq> filter_key g" using filter_key_inj [of f g] f 3 by auto
  ultimately show ?case by auto
qed auto

lemma keyed_create_guard: "keyed_guard h e \<Longrightarrow> create_guard h e"
proof (cases e)
  case (EvCreateS3PA a res)
  assume "keyed_guard h e"
  then have key: "filter_key (attachment_filters a) \<notin> unseen_keys h"
    by (simp add: keyed_guard_def EvCreateS3PA)
  have "map_of (attachment_filters a) \<notin> unseen h" if "list_all plain_event h"
    using unseen_has_key [OF that] filter_key_cong key by metis
  then show ?thesis by (simp add: create_guard_def EvCreateS3PA)
qed (simp_all add: create_guard_def)

lemma created_unseen:
  assumes "EvCreateS3PA a None \<in> set h" "\<forall>f b bs. EvListS3PA (Some f) (Inr (b # bs)) \<notin> set h"
  shows "map_of (attachment_filters a) \<in> unseen h"
  using assms by (induction h rule: unseen.induct) auto

lemma run_expected: "expected {} (controller_run r reqs)"
  by (rule run_invariant [OF pend.pres_Reconcile cleanup_expected]) (simp add: initial_def expected_def)

text \<open>
  C11: The controller never creates a MountpointS3PodAttachment for field filters for which it created
  one that no listing with these filters has shown since, however long the informer cache lags behind: every
  such attachment still has its expectation pending. This is for runs in which no value of the
  filters contains a semicolon: with one, different filters can share an expectation, and a listing with
  the others takes it away (\<^verbatim>\<open>expectation_key_collision\<close>).
\<close>

theorem no_second_attachment_while_unseen:
  "guarded create_guard (calls (controller_run r reqs)) \<and>
   (list_all plain_event (calls (controller_run r reqs)) \<longrightarrow>
     (\<forall>f. map_of f \<in> unseen (calls (controller_run r reqs)) \<longrightarrow>
        isPending ord f (s3paExpectations (controller_run r reqs))))"
proof (intro conjI impI allI)
  note keys = run_expected [of r reqs, unfolded expected_def]
  from keys have "guarded keyed_guard (calls (controller_run r reqs))" by simp
  then show "guarded create_guard (calls (controller_run r reqs))"
    by (rule guarded_mono) (rule keyed_create_guard)
  fix f
  assume "list_all plain_event (calls (controller_run r reqs))" "map_of f \<in> unseen (calls (controller_run r reqs))"
  from unseen_has_key [OF this] obtain g where "map_of g = map_of f"
    "filter_key g \<in> unseen_keys (calls (controller_run r reqs))" by blast
  with keys have "filter_key f \<in> s3paExpectations (controller_run r reqs)"
    using filter_key_cong [of g f] by auto
  then show "isPending ord f (s3paExpectations (controller_run r reqs))"
    by (simp add: isPending_def derive_key)
qed

text \<open>A workload that is looked at twice while its attachment does not show up in a listing.\<close>

definition lagging_run :: ctl_state where
  "lagging_run = controller_run (example_reconciler (\<lambda>ns n. Inr example_workload) [])
     [ReconcilePod ''default'' ''w'', ReconcilePod ''default'' ''w'']"

definition created_in :: "history \<Rightarrow> s3pa list" where
  "created_in h = concat (map (\<lambda>e. case e of EvCreateS3PA a None \<Rightarrow> [a] | _ \<Rightarrow> []) h)"

theorem no_second_attachment_while_unseen_witness:
  "length (created_in (calls lagging_run)) = 1 \<and>
   list_all (\<lambda>a. isPending id (attachment_filters a) (s3paExpectations lagging_run)) (created_in (calls lagging_run))"
proof
  show "length (created_in (calls lagging_run)) = 1" by code_simp
  have "list_all plain_event (calls lagging_run)" by code_simp
  then have pending: "map_of f \<in> unseen (calls lagging_run) \<Longrightarrow> isPending id f (s3paExpectations lagging_run)" for f
    using no_second_attachment_while_unseen unfolding lagging_run_def by blast
  have "list_all (\<lambda>e. case e of EvListS3PA (Some f) (Inr (b # bs)) \<Rightarrow> False | _ \<Rightarrow> True) (calls lagging_run)"
    by code_simp
  then have none: "\<forall>f b bs. EvListS3PA (Some f) (Inr (b # bs)) \<notin> set (calls lagging_run)"
    by (auto simp: list_all_iff)
  show "list_all (\<lambda>a. isPending id (attachment_filters a) (s3paExpectations lagging_run)) (created_in (calls lagging_run))"
    unfolding list_all_iff
    by (intro ballI pending created_unseen none) (auto simp: created_in_def split: api_event.splits option.splits)
qed

text \<open>
  An attachment created for a workload and a volume carries exactly the fields the reconciler
  looks it up with, so an indexed listing with those filters selects it.
\<close>

theorem created_attachment_is_found:
  assumes "buildFieldFilters w p role = Inr f" "getFSGroup w = Inr g" "pv_csi p = Some csi"
  shows "attachment_filters (new_attachment r w p csi g role k t) = f \<and>
    matches_fields f (new_attachment r w p csi g role k t)"
  using new_attachment_filters [OF assms] matches_own_filters by metis

theorem created_attachment_is_found_witness:
  "matches_fields [(FieldNodeName, ''node''), (FieldPersistentVolumeName, ''pv''),
      (FieldVolumeID, ''vol''), (FieldMountOptions, ''allow-delete''), (FieldWorkloadFSGroup, []),
      (FieldAuthenticationSource, ''driver'')]
     (new_attachment (example_reconciler no_pods []) example_workload example_pv example_csi []
        [] ''mp-1'' 0)"
proof -
  have "buildFieldFilters example_workload example_pv [] =
      Inr [(FieldNodeName, ''node''), (FieldPersistentVolumeName, ''pv''),
      (FieldVolumeID, ''vol''), (FieldMountOptions, ''allow-delete''), (FieldWorkloadFSGroup, []),
      (FieldAuthenticationSource, ''driver'')]"
    by (simp add: buildFieldFilters_def getAuthSource_def getFSGroup_def ExtractVolumeAttributes_def
        go_lookup_def example_defs auth_source_consts)
  moreover have "getFSGroup example_workload = Inr []" "pv_csi example_pv = Some example_csi"
    by (simp_all add: getFSGroup_def example_workload_def example_pv_def)
  ultimately show ?thesis
    using created_attachment_is_found by blast
qed

end
