(* ===== verification/Controller_Removal.thy ===== *)
theory Controller_Removal
  imports Controller_Safety
begin

text \<open>
  What \<^verbatim>\<open>removeWorkloadFromS3PodAttachment\<close> does with an attachment: the order in which it retires
  Mountpoint Pods, and the attachment it leaves behind when it reports success.
\<close>

section \<open>Retiring a Mountpoint Pod\<close>

text \<open>
  A Mountpoint Pod is retired once it was annotated to be unmounted or found to be gone. The
  history is that of the operation itself, without what was called before it.
\<close>

definition retired :: "reconciler \<Rightarrow> string \<Rightarrow> history \<Rightarrow> bool" where
  "retired r k h \<longleftrightarrow>
     (let ns = mountpoint_namespace (mountpointPodConfig r)
      in EvGetPod ns k (Inl NotFound) \<in> set h \<or>
         (\<exists>p. EvGetPod ns k (Inr p) \<in> set h \<and> EvUpdatePod (annotate_needs_unmount p) None \<in> set h))"

definition retire_guard :: "reconciler \<Rightarrow> string set \<Rightarrow> history \<Rightarrow> api_event \<Rightarrow> bool" where
  "retire_guard r K h e =
     (case e of
        EvUpdateS3PA b _ \<Rightarrow> \<forall>k \<in> K. k \<in> fst ` set (sp_attachments b) \<or> retired r k h
      | EvDeleteS3PA b _ _ \<Rightarrow> \<forall>k \<in> K. retired r k h
      | _ \<Rightarrow> True)"

lemma retired_Cons: "retired r k h \<Longrightarrow> retired r k (e # h)"
  by (auto simp: retired_def Let_def)

section \<open>What remains of an attachment\<close>

abbreviation keys_of :: "s3pa \<Rightarrow> string set" where
  "keys_of a \<equiv> fst ` set (sp_attachments a)"

definition without :: "string \<Rightarrow> workload_attachment list \<Rightarrow> workload_attachment list" where
  "without uid ws = filter (\<lambda>w. workload_pod_uid w \<noteq> uid) ws"

text \<open>
  The specification: the workload is gone from every Mountpoint Pod, and the Mountpoint Pods that
  serve nobody are gone.
\<close>

definition remaining ::
    "string \<Rightarrow> (string \<times> workload_attachment list) list \<Rightarrow> (string \<times> workload_attachment list) list" where
  "remaining uid m = filter (\<lambda>(k, ws). ws \<noteq> []) (map (\<lambda>(k, ws). (k, without uid ws)) m)"

text \<open>The attachment as last stored, given what was stored at the start.\<close>

fun stored :: "s3pa \<Rightarrow> history \<Rightarrow> (string \<times> workload_attachment list) list" where
  "stored a [] = sp_attachments a"
| "stored a (EvUpdateS3PA b (Inr _) # h) = sp_attachments b"
| "stored a (_ # h) = stored a h"

lemma map_of_alookup:
  "map_of m k = (if k \<in> fst ` set m then Some (alookup m k) else None)"
  by (auto simp: alookup_def map_of_eq_None_iff split: option.splits dest: map_of_SomeD)

lemma map_of_remaining:
  assumes "distinct (map fst m)"
  shows "map_of (remaining uid m) k =
    (if k \<in> fst ` set m \<and> without uid (alookup m k) \<noteq> [] then Some (without uid (alookup m k)) else None)"
  using assms
proof (induction m)
  case (Cons kv m)
  obtain k' ws where kv: "kv = (k', ws)" by (cases kv)
  have "k' \<notin> fst ` set m" using Cons.prems kv by simp
  then have "map_of (remaining uid m) k' = None"
    by (force simp: remaining_def map_of_eq_None_iff)
  then show ?case
    using Cons kv by (auto simp: remaining_def alookup_Cons)
qed (simp add: remaining_def)

section \<open>The loops\<close>

text \<open>
  \<open>progress K a0 s0 a s\<close>: since \<open>s0\<close> every call obeyed the guard, every key of \<open>K\<close> that \<open>a\<close> lost
  is retired, and \<open>a\<close> is what is stored.
\<close>

definition progress :: "reconciler \<Rightarrow> string set \<Rightarrow> s3pa \<Rightarrow> ctl_state \<Rightarrow> s3pa \<Rightarrow> ctl_state \<Rightarrow> bool" where
  "progress r K a0 s0 a s \<longleftrightarrow>
     (\<exists>new. calls s = new @ calls s0 \<and> guarded (retire_guard r K) new \<and>
       (\<forall>k \<in> K. k \<in> keys_of a \<or> retired r k new) \<and> stored a0 new = sp_attachments a)"

text \<open>The weaker fact that also holds when the operation stops early.\<close>

definition obeyed :: "reconciler \<Rightarrow> string set \<Rightarrow> ctl_state \<Rightarrow> ctl_state \<Rightarrow> bool" where
  "obeyed r K s0 s \<longleftrightarrow>
     (\<exists>new. calls s = new @ calls s0 \<and> guarded (retire_guard r K) new)"

lemma obeyed_expectations [simp]: "obeyed r K s0 (s\<lparr>s3paExpectations := x\<rparr>) = obeyed r K s0 s"
  by (simp add: obeyed_def)

lemma progress_obeyed: "progress r K a0 s0 a s \<Longrightarrow> obeyed r K s0 s"
  by (auto simp: progress_def obeyed_def)

lemma obeyed_call:
  "obeyed r K s0 s \<Longrightarrow> (\<And>h. retire_guard r K h e) \<Longrightarrow> obeyed r K s0 (s\<lparr>calls := e # calls s\<rparr>)"
  unfolding obeyed_def by (metis append_Cons api_state.select_convs(1) api_state.update_convs(1) guarded.simps(2) api_state.surjective)

lemma progress_update:
  assumes p: "progress r K a0 s0 a s" and k: "K \<inter> keys_of a \<subseteq> keys_of b \<union> X"
    and X: "\<And>new. calls s = new @ calls s0 \<Longrightarrow> \<forall>k \<in> X. retired r k new"
  shows "progress r K a0 s0 (b\<lparr>sp_resource_version := rv\<rparr>)
      (s\<lparr>calls := EvUpdateS3PA b (Inr rv) # calls s\<rparr>)"
    and "obeyed r K s0 (s\<lparr>calls := EvUpdateS3PA b (Inl e) # calls s\<rparr>)"
proof -
  obtain new where new: "calls s = new @ calls s0" "guarded (retire_guard r K) new"
    "\<forall>k \<in> K. k \<in> keys_of a \<or> retired r k new"
    using p by (auto simp: progress_def)
  then have *: "\<forall>k \<in> K. k \<in> keys_of b \<or> retired r k new"
    using k X by blast
  show "progress r K a0 s0 (b\<lparr>sp_resource_version := rv\<rparr>)
      (s\<lparr>calls := EvUpdateS3PA b (Inr rv) # calls s\<rparr>)"
    unfolding progress_def using new *
    by (intro exI [of _ "EvUpdateS3PA b (Inr rv) # new"])
      (auto simp: retire_guard_def intro: retired_Cons)
  show "obeyed r K s0 (s\<lparr>calls := EvUpdateS3PA b (Inl e) # calls s\<rparr>)"
    unfolding obeyed_def using new *
    by (intro exI [of _ "EvUpdateS3PA b (Inl e) # new"]) (auto simp: retire_guard_def)
qed

lemma wp_remove_workload_loop:
  assumes a: "well_formed a" and p: "progress r K a0 s0 a s"
    and names: "\<forall>k. uid \<in> uids_at (sp_attachments a) k \<longrightarrow> k \<in> set names"
    and keys: "set names \<subseteq> keys_of a"
  shows "wp (remove_workload_loop r uid a names)
    (\<lambda>res s'. obeyed r K s0 s' \<and>
       (\<forall>a'. res = Inr a' \<longrightarrow> progress r K a0 s0 a' s' \<and> keys_of a' = keys_of a \<and> well_formed a' \<and>
          (\<forall>k. alookup (sp_attachments a') k = without uid (alookup (sp_attachments a) k))) \<and>
       (\<forall>h. res = Inl h \<longrightarrow> fst h = Requeue)) s"
  using names keys
proof (induction names)
  case Nil
  have "alookup (sp_attachments a) k = without uid (alookup (sp_attachments a) k)" for k
    using Nil by (auto simp: without_def uids_at_def workload_uids_def intro!: sym [OF filter_True])
  with a p show ?case by (auto simp: wp intro: progress_obeyed)
next
  case (Cons k names)
  let ?ws = "alookup (sp_attachments a) k"
  show ?case
  proof (cases "list_ex (\<lambda>w. workload_pod_uid w = uid) ?ws")
    case False
    then have "uid \<notin> uids_at (sp_attachments a) k"
      by (auto simp: uids_at_def workload_uids_def list_ex_iff)
    with Cons.prems have "\<forall>k. uid \<in> uids_at (sp_attachments a) k \<longrightarrow> k \<in> set names" by auto
    with Cons False show ?thesis by (simp add: Let_def)
  next
    case True
    then have uid: "uid \<in> uids_at (sp_attachments a) k"
      by (auto simp: uids_at_def workload_uids_def list_ex_iff)
    have others: "without uid (alookup (sp_attachments a) k') = alookup (sp_attachments a) k'"
      if "k' \<noteq> k" for k'
    proof -
      have "uid \<notin> uids_at (sp_attachments a) k'"
        using a uid that by (auto simp: well_formed_iff)
      then show ?thesis
        by (auto simp: without_def uids_at_def workload_uids_def intro!: filter_True)
    qed
    let ?b = "a\<lparr>sp_attachments := AList.update k (without uid ?ws) (sp_attachments a)\<rparr>"
    have b: "well_formed ?b"
      unfolding without_def using a by (rule well_formed_filter)
    have keys: "keys_of ?b = keys_of a"
      using Cons.prems by auto
    note upd = progress_update [OF p, of ?b "{}", simplified]
    show ?thesis
      using True upd b keys others
      by (auto simp: Let_def wp without_def [symmetric] split: sum.split intro: progress_obeyed)
  qed
qed

definition retired_since :: "reconciler \<Rightarrow> string \<Rightarrow> ctl_state \<Rightarrow> ctl_state \<Rightarrow> bool" where
  "retired_since r k s0 s \<longleftrightarrow> (\<forall>new. calls s = new @ calls s0 \<longrightarrow> retired r k new)"

lemma progress_call:
  assumes "progress r K a0 s0 a s" "\<And>b res. e \<noteq> EvUpdateS3PA b res" "\<And>b rv res. e \<noteq> EvDeleteS3PA b rv res"
  shows "progress r K a0 s0 a (s\<lparr>calls := e # calls s\<rparr>)"
proof -
  obtain new where new: "calls s = new @ calls s0" "guarded (retire_guard r K) new"
    "\<forall>k \<in> K. k \<in> keys_of a \<or> retired r k new" "stored a0 new = sp_attachments a"
    using assms(1) by (auto simp: progress_def)
  have "stored a0 (e # new) = stored a0 new"
    using assms(2) by (cases "(a0, e # new)" rule: stored.cases) auto
  moreover have "retire_guard r K new e"
    using assms(2,3) by (cases e) (auto simp: retire_guard_def)
  ultimately show ?thesis
    unfolding progress_def using new
    by (intro exI [of _ "e # new"]) (auto intro: retired_Cons)
qed

lemma wp_annotate:
  assumes p: "progress r K a0 s0 a s"
  shows "wp (addNeedsUnmountAnnotation r k)
    (\<lambda>err s'. progress r K a0 s0 a s' \<and> (err = None \<longrightarrow> retired_since r k s0 s')) s"
proof -
  obtain new where new: "calls s = new @ calls s0"
    using p by (auto simp: progress_def)
  let ?ns = "mountpoint_namespace (mountpointPodConfig r)"
  have get: "progress r K a0 s0 a (s\<lparr>calls := EvGetPod ?ns k res # calls s\<rparr>)" for res
    using p by (rule progress_call) auto
  have both: "progress r K a0 s0 a
      (s\<lparr>calls := EvUpdatePod q u # EvGetPod ?ns k res # calls s\<rparr>)" for q u res
    using progress_call [OF get, of "EvUpdatePod q u"] by simp
  show ?thesis
    using get both new
    by (auto simp: addNeedsUnmountAnnotation_def getMountpointPod_def wp retired_since_def
        retired_def Let_def split: sum.split option.split)
qed

lemma wp_remove_empty_loop:
  assumes "progress r K a0 s0 a s" "distinct (map fst (sp_attachments a))"
  shows "wp (remove_empty_loop r a names)
    (\<lambda>res s'. obeyed r K s0 s' \<and>
       (\<forall>a'. res = Inr a' \<longrightarrow> progress r K a0 s0 a' s' \<and>
          distinct (map fst (sp_attachments a')) \<and>
          keys_of a' = {k \<in> keys_of a. k \<in> set names \<longrightarrow> alookup (sp_attachments a) k \<noteq> []} \<and>
          (\<forall>k. alookup (sp_attachments a') k = alookup (sp_attachments a) k)) \<and>
       (\<forall>h. res = Inl h \<longrightarrow> fst h = Requeue)) s"
  using assms
proof (induction names arbitrary: a s)
  case Nil
  then show ?case by (auto simp: wp intro: progress_obeyed)
next
  case (Cons k names)
  let ?b = "a\<lparr>sp_attachments := AList.delete k (sp_attachments a)\<rparr>"
  show ?case
  proof (cases "alookup (sp_attachments a) k = []")
    case False
    then have "{k' \<in> keys_of a. k' \<in> set (k # names) \<longrightarrow> alookup (sp_attachments a) k' \<noteq> []} =
        {k' \<in> keys_of a. k' \<in> set names \<longrightarrow> alookup (sp_attachments a) k' \<noteq> []}" by auto
    with False Cons.IH [OF Cons.prems] show ?thesis by (simp only: remove_empty_loop.simps if_False)
  next
    case True
    have annotated: "wp (addNeedsUnmountAnnotation r k)
      (\<lambda>err s'. progress r K a0 s0 a s' \<and> (err = None \<longrightarrow> retired_since r k s0 s')) s"
      by (rule wp_annotate [OF Cons.prems(1)])
    have step: "wp (case err of
          Some e \<Rightarrow> State_Monad.return (Inl (Requeue, Some e))
        | None \<Rightarrow> do {
            res \<leftarrow> update_s3pa (client r) ?b;
            case res of
              Inl e \<Rightarrow> State_Monad.return
                (if is_conflict e then Inl (Requeue, None) else Inl (Requeue, Some e))
            | Inr a' \<Rightarrow> remove_empty_loop r a' names })
      (\<lambda>res s'. obeyed r K s0 s' \<and>
       (\<forall>a'. res = Inr a' \<longrightarrow> progress r K a0 s0 a' s' \<and>
          distinct (map fst (sp_attachments a')) \<and>
          keys_of a' = {k' \<in> keys_of a. k' \<in> set (k # names) \<longrightarrow> alookup (sp_attachments a) k' \<noteq> []} \<and>
          (\<forall>k. alookup (sp_attachments a') k = alookup (sp_attachments a) k)) \<and>
       (\<forall>h. res = Inl h \<longrightarrow> fst h = Requeue)) s1"
      if p: "progress r K a0 s0 a s1" and ret: "err = None \<longrightarrow> retired_since r k s0 s1" for err s1
    proof (cases err)
      case (Some e)
      with p show ?thesis by (auto simp: wp intro: progress_obeyed)
    next
      case None
      note upd = progress_update [OF p, of ?b "{k}"]
      have X: "\<forall>k' \<in> {k}. retired r k' new" if "calls s1 = new @ calls s0" for new
        using ret None that by (simp add: retired_since_def)
      have inl: "obeyed r K s0 (s1\<lparr>calls := EvUpdateS3PA ?b (Inl e) # calls s1\<rparr>)" for e
        by (rule upd(2)) (use X in auto)
      have inr: "progress r K a0 s0 (?b\<lparr>sp_resource_version := rv\<rparr>)
          (s1\<lparr>calls := EvUpdateS3PA ?b (Inr rv) # calls s1\<rparr>)" for rv
        by (rule upd(1)) (use X in auto)
      have dist: "distinct (map fst (sp_attachments (?b\<lparr>sp_resource_version := rv\<rparr>)))" for rv
        using Cons.prems by simp
      have keys: "{k' \<in> keys_of ?b. k' \<in> set names \<longrightarrow> alookup (sp_attachments ?b) k' \<noteq> []} =
          {k' \<in> keys_of a. k' \<in> set (k # names) \<longrightarrow> alookup (sp_attachments a) k' \<noteq> []}"
        using True by auto
      have look: "alookup (sp_attachments ?b) k' = alookup (sp_attachments a) k'" for k'
        using True by simp
      show ?thesis
        using None Cons.IH [OF inr dist] keys look inl
        by (auto simp: wp split: sum.split elim!: wp_mono)
    qed
    show ?thesis
      using True by (simp add: wp) (rule wp_mono [OF annotated], use step in \<open>simp add: wp\<close>)
  qed
qed

section \<open>The operation\<close>

lemma wp_delete_if_empty:
  assumes p: "progress r K a0 s0 a s" and K: "K \<subseteq> keys_of a0"
  shows "wp (delete_if_empty r a f)
    (\<lambda>(rq, err) s'. obeyed r K s0 s' \<and> (\<not> rq \<longrightarrow> err = None \<and>
       (\<exists>new. calls s' = new @ calls s0 \<and> stored a0 new = sp_attachments a \<and>
          (sp_attachments a = [] \<longrightarrow> EvDeleteS3PA a (sp_resource_version a) None \<in> set new)))) s"
proof (cases "sp_attachments a = []")
  case False
  with p show ?thesis
    by (auto simp: delete_if_empty_def wp progress_def obeyed_def)
next
  case True
  obtain new where new: "calls s = new @ calls s0" "guarded (retire_guard r K) new"
    "\<forall>k \<in> K. retired r k new" "stored a0 new = []"
    using p True by (auto simp: progress_def)
  have del: "obeyed r K s0 (s\<lparr>calls := EvDeleteS3PA a rv res # calls s\<rparr>)" for rv res
    unfolding obeyed_def using new
    by (intro exI [of _ "EvDeleteS3PA a rv res # new"]) (simp add: retire_guard_def)
  have "\<exists>new'. EvDeleteS3PA a (sp_resource_version a) None # new @ calls s0 = new' @ calls s0 \<and>
      stored a0 new' = [] \<and> EvDeleteS3PA a (sp_resource_version a) None \<in> set new'"
    using new by (intro exI [of _ "EvDeleteS3PA a (sp_resource_version a) None # new"]) simp
  with del True new(1) show ?thesis
    by (auto simp: delete_if_empty_def deleteS3PodAttachment_def wp expect_pending_def
        expect_clear_def split: option.split)
qed

lemma wp_removeWorkload:
  assumes a: "well_formed a"
  shows "wp (removeWorkloadFromS3PodAttachment r a uid f)
    (\<lambda>(rq, err) s'. obeyed r (keys_of a) s s' \<and> (\<not> rq \<longrightarrow> err = None \<and>
       (\<exists>new. calls s' = new @ calls s \<and>
          map_of (stored a new) = map_of (remaining uid (sp_attachments a)) \<and>
          (stored a new = [] \<longrightarrow>
             (\<exists>b. sp_attachments b = [] \<and> EvDeleteS3PA b (sp_resource_version b) None \<in> set new))))) s"
    (is "wp _ ?Q s")
proof -
  let ?m = "sp_attachments a"
  have start: "progress r (keys_of a) a s a s"
    by (auto simp: progress_def)
  have finish: "wp (do { names \<leftarrow> range_keys (client r) (sp_attachments a1);
      res \<leftarrow> remove_empty_loop r a1 names;
      case res of Inl h \<Rightarrow> State_Monad.return h | Inr a \<Rightarrow> delete_if_empty r a f }) ?Q s1"
    if p: "progress r (keys_of a) a s a1 s1" and keys: "keys_of a1 = keys_of a"
      and wf: "well_formed a1" and look: "\<And>k. alookup (sp_attachments a1) k = without uid (alookup ?m k)"
    for a1 s1
  proof -
    let ?names = "go_range (range_order (client r) (calls s1)) (map fst (sp_attachments a1))"
    have d1: "distinct (map fst (sp_attachments a1))"
      using wf by (simp add: well_formed_def)
    have last: "wp (delete_if_empty r a2 f) ?Q s2"
      if p2: "progress r (keys_of a) a s a2 s2" and d2: "distinct (map fst (sp_attachments a2))"
        and k2: "keys_of a2 = {k \<in> keys_of a1. k \<in> set ?names \<longrightarrow> alookup (sp_attachments a1) k \<noteq> []}"
        and l2: "\<forall>k. alookup (sp_attachments a2) k = alookup (sp_attachments a1) k" for a2 s2
    proof -
      have "map_of (sp_attachments a2) k = map_of (remaining uid ?m) k" for k
        using a k2 l2 keys look
        by (auto simp: well_formed_def map_of_remaining map_of_alookup [of "sp_attachments a2"])
      then have "map_of (sp_attachments a2) = map_of (remaining uid ?m)" by blast
      with wp_delete_if_empty [OF p2 subset_refl, of f] show ?thesis
        by (elim wp_mono) (clarsimp split: prod.splits, metis)
    qed
    show ?thesis
      by (simp add: wp) (rule wp_mono [OF wp_remove_empty_loop [OF p d1, of ?names]],
        use last in \<open>auto simp: wp split: sum.split\<close>)
  qed
  have first: "wp (remove_workload_loop r uid a names)
      (\<lambda>res s'. obeyed r (keys_of a) s s' \<and>
       (\<forall>a'. res = Inr a' \<longrightarrow> progress r (keys_of a) a s a' s' \<and> keys_of a' = keys_of a \<and> well_formed a' \<and>
          (\<forall>k. alookup (sp_attachments a') k = without uid (alookup ?m k))) \<and>
       (\<forall>h. res = Inl h \<longrightarrow> fst h = Requeue)) s"
    if "names = go_range (range_order (client r) (calls s)) (map fst ?m)" for names
  proof (rule wp_remove_workload_loop [OF a start])
    show "\<forall>k. uid \<in> uids_at ?m k \<longrightarrow> k \<in> set names"
      using that by (auto simp: uids_at_absent) (metis uids_at_absent empty_iff)
  qed (use that in simp)
  show ?thesis
    unfolding removeWorkloadFromS3PodAttachment_def
    by (simp add: wp_bind wp_range_keys) (rule wp_mono [OF first [OF refl]],
      use finish in \<open>auto simp: wp_bind wp_range_keys wp_return split: sum.split\<close>)
qed

section \<open>When nothing fails\<close>

text \<open>A cluster that accepts every write and knows whether a Pod exists.\<close>

definition obliging :: "cluster \<Rightarrow> bool" where
  "obliging c \<longleftrightarrow>
     (\<forall>h ns n. on_get_pod c h ns n = Inl NotFound \<or> (\<exists>p. on_get_pod c h ns n = Inr p)) \<and>
     (\<forall>h p. on_update_pod c h p = None) \<and> (\<forall>h a. \<exists>rv. on_update_s3pa c h a = Inr rv) \<and>
     (\<forall>h a. on_delete_s3pa c h a = None)"

lemma obligingD:
  assumes "obliging c"
  shows "on_get_pod c h ns n = Inl e \<Longrightarrow> e = NotFound" "on_update_pod c h p = None"
    "\<exists>rv. on_update_s3pa c h a = Inr rv" "on_delete_s3pa c h a = None"
proof -
  show "on_get_pod c h ns n = Inl e \<Longrightarrow> e = NotFound"
    using assms unfolding obliging_def by (metis Inl_Inr_False sum.inject(1))
qed (use assms in \<open>simp_all add: obliging_def\<close>)

lemma obliging_annotate:
  assumes "obliging (client r)"
  shows "yields (\<lambda>_. True) (addNeedsUnmountAnnotation r k) (\<lambda>err. err = None)"
proof (rule yieldsI)
  fix s
  from assms show "wp (addNeedsUnmountAnnotation r k) (\<lambda>a s'. True \<and> a = None) s"
    by (cases "on_get_pod (client r) (calls s) (mountpoint_namespace (mountpointPodConfig r)) k")
      (auto simp: obligingD addNeedsUnmountAnnotation_def getMountpointPod_def wp)
qed

lemma obliging_update:
  assumes "obliging (client r)"
  shows "yields (\<lambda>_. True) (update_s3pa (client r) a) (\<lambda>res. \<exists>a'. res = Inr a')"
proof (rule yieldsI)
  fix s
  obtain rv where "on_update_s3pa (client r) (calls s) a = Inr rv"
    using obligingD(3) [OF assms] by blast
  then show "wp (update_s3pa (client r) a) (\<lambda>res s'. True \<and> (\<exists>a'. res = Inr a')) s"
    by (simp add: wp)
qed

lemma obliging_loops:
  assumes "obliging (client r)"
  shows "yields (\<lambda>_. True) (remove_workload_loop r uid a names) (\<lambda>res. \<exists>a'. res = Inr a')"
    and "yields (\<lambda>_. True) (remove_empty_loop r a names) (\<lambda>res. \<exists>a'. res = Inr a')"
proof -
  show "yields (\<lambda>_. True) (remove_workload_loop r uid a names) (\<lambda>res. \<exists>a'. res = Inr a')"
    by (induction names)
      (auto simp: Let_def intro!: yields_return yields_bind [OF obliging_update [OF assms]])
  show "yields (\<lambda>_. True) (remove_empty_loop r a names) (\<lambda>res. \<exists>a'. res = Inr a')"
    by (induction names arbitrary: a)
      (auto intro!: yields_return yields_bind [OF obliging_annotate [OF assms]]
        yields_bind [OF obliging_update [OF assms]])
qed

lemma obliging_removal:
  assumes "obliging (client r)"
  shows "yields (\<lambda>_. True) (removeWorkloadFromS3PodAttachment r a uid f) (\<lambda>h. h = (DontRequeue, None))"
proof -
  have "yields (\<lambda>_. True) (delete_if_empty r a f) (\<lambda>h. h = (DontRequeue, None))" for a
    using assms
    by (auto simp: yields_def delete_if_empty_def deleteS3PodAttachment_def wp obligingD
        expect_pending_def expect_clear_def)
  then show ?thesis
    unfolding removeWorkloadFromS3PodAttachment_def range_keys_def
    by (auto intro!: yields_bind [OF obliging_loops(1) [OF assms]]
        yields_bind [OF obliging_loops(2) [OF assms]]
        yields_bind_preserves [OF preserves_read])
qed

section \<open>Properties\<close>

text \<open>
  C13: While it removes a workload, the reconciler drops a Mountpoint Pod from a
  MountpointS3PodAttachment, or deletes the attachment, only after that Mountpoint Pod was annotated
  to be unmounted or found to be gone: no Mountpoint Pod becomes unreachable while it still runs
  without a request to unmount.
\<close>

theorem mountpoint_pod_retired_before_dropped:
  assumes "well_formed a"
  shows "\<exists>new. calls (snd (run_state (removeWorkloadFromS3PodAttachment r a uid f) s)) =
      new @ calls s \<and> guarded (retire_guard r (keys_of a)) new"
proof -
  have "wp (removeWorkloadFromS3PodAttachment r a uid f) (\<lambda>_ s'. obeyed r (keys_of a) s s') s"
    by (rule wp_mono [OF wp_removeWorkload [OF assms]]) auto
  then show ?thesis
    by (simp add: wp_snd obeyed_def)
qed

theorem mountpoint_pod_retired_before_dropped_witness:
  "\<exists>new. calls (snd (run_state (removeWorkloadFromS3PodAttachment (example_reconciler no_pods [])
      example_attachment ''u1'' []) initial)) = new @ calls initial \<and>
    guarded (retire_guard (example_reconciler no_pods []) {''mp-1''}) new"
  using mountpoint_pod_retired_before_dropped [OF well_formed_example,
      of "example_reconciler no_pods []" "''u1''" "[]" initial]
  by (simp add: example_attachment_def)

lemma removal_result:
  fixes s s' :: ctl_state
  assumes "well_formed a"
    and "run_state (removeWorkloadFromS3PodAttachment r a uid f) s = ((DontRequeue, err), s')"
  shows "err = None \<and>
    (\<exists>new. calls s' = new @ calls s \<and>
       map_of (stored a new) = map_of (remaining uid (sp_attachments a)) \<and>
       (remaining uid (sp_attachments a) = [] \<longrightarrow>
          (\<exists>b :: s3pa. sp_attachments b = [] \<and>
             EvDeleteS3PA b (sp_resource_version b) None \<in> set new)))"
proof -
  from wp_runD [OF wp_removeWorkload [OF assms(1)] assms(2)]
  obtain new where new: "err = None" "calls s' = new @ calls s"
    "map_of (stored a new) = map_of (remaining uid (sp_attachments a))"
    "stored a new = [] \<longrightarrow>
       (\<exists>b. sp_attachments b = [] \<and> EvDeleteS3PA b (sp_resource_version b) None \<in> set new)"
    by auto
  have "stored a new = []" if "remaining uid (sp_attachments a) = []"
    using new(3) that by (cases "stored a new") (auto split: if_splits dest: fun_cong)
  with new show ?thesis by blast
qed

lemma obliging_run:
  assumes "obliging (client r)"
  obtains s' where "run_state (removeWorkloadFromS3PodAttachment r a uid f) s = ((DontRequeue, None), s')"
  using yieldsD [OF obliging_removal [OF assms, of a uid f], where s = s]
  by (auto simp: wp_def split: prod.splits)

text \<open>
  C12: Removing a workload implements its specification. Unless the handler asks to be called again,
  what it leaves stored is the attachment without the workload and without the Mountpoint Pods that
  serve nobody, and if no Mountpoint Pod is left the attachment itself is deleted.
\<close>

theorem removal_implements_remaining:
  fixes s s' :: ctl_state
  assumes "well_formed a"
    and "run_state (removeWorkloadFromS3PodAttachment r a uid f) s = ((DontRequeue, err), s')"
  shows "err = None \<and>
    (\<exists>new. calls s' = new @ calls s \<and>
       map_of (stored a new) = map_of (remaining uid (sp_attachments a)) \<and>
       (remaining uid (sp_attachments a) = [] \<longrightarrow>
          (\<exists>b :: s3pa. sp_attachments b = [] \<and>
             EvDeleteS3PA b (sp_resource_version b) None \<in> set new)))"
  using removal_result [OF assms] .

lemma obliging_example: "obliging (client (example_reconciler no_pods as))"
  by (simp add: obliging_def example_defs)

theorem removal_implements_remaining_witness:
  "\<exists>s'. run_state (removeWorkloadFromS3PodAttachment (example_reconciler no_pods [])
      example_attachment ''u1'' []) initial = ((DontRequeue, None), s') \<and>
    (\<exists>b :: s3pa. sp_attachments b = [] \<and>
       EvDeleteS3PA b (sp_resource_version b) None \<in> set (calls s'))"
proof -
  let ?m = "removeWorkloadFromS3PodAttachment (example_reconciler no_pods []) example_attachment ''u1'' []"
  obtain s' where run: "run_state ?m initial = ((DontRequeue, None), s')"
    using obliging_run [OF obliging_example [of "[]"]] by blast
  have "remaining ''u1'' (sp_attachments example_attachment) = []"
    by (simp add: remaining_def without_def example_attachment_def)
  with removal_implements_remaining [OF well_formed_example run] run show ?thesis
    by (auto simp: initial_def)
qed

text \<open>
  C18: Removing a workload completes in one go when nothing is in its way: if the cluster accepts every write
  and answers each read of a Pod with the Pod or that it does not exist, the handler asks for no
  other call and returns no error, and then the attachment is stored without the workload and without
  the Mountpoint Pods that serve nobody, or deleted if none is left.
\<close>

theorem removal_completes:
  assumes "obliging (client r)" "well_formed a"
  shows "\<exists>s' new. run_state (removeWorkloadFromS3PodAttachment r a uid f) s = ((DontRequeue, None), s') \<and>
    calls s' = new @ calls s \<and>
    map_of (stored a new) = map_of (remaining uid (sp_attachments a)) \<and>
    (remaining uid (sp_attachments a) = [] \<longrightarrow>
       (\<exists>b :: s3pa. sp_attachments b = [] \<and> EvDeleteS3PA b (sp_resource_version b) None \<in> set new))"
proof -
  obtain s' where run: "run_state (removeWorkloadFromS3PodAttachment r a uid f) s = ((DontRequeue, None), s')"
    using obliging_run [OF assms(1)] .
  from removal_result [OF assms(2) run] run show ?thesis by blast
qed

text \<open>An attachment with two Mountpoint Pods, of which one stays.\<close>

definition shared_attachment :: s3pa where
  "shared_attachment = example_attachment\<lparr>sp_attachments :=
     [(''mp-1'', [\<lparr>workload_pod_uid = ''u1'', attachment_time = 0\<rparr>]),
      (''mp-2'', [\<lparr>workload_pod_uid = ''u2'', attachment_time = 0\<rparr>])]\<rparr>"

theorem removal_completes_witness:
  "\<exists>s' new. run_state (removeWorkloadFromS3PodAttachment (example_reconciler no_pods [])
       shared_attachment ''u1'' []) initial = ((DontRequeue, None), s') \<and> calls s' = new \<and>
     map_of (stored shared_attachment new) =
       [''mp-2'' \<mapsto> [\<lparr>workload_pod_uid = ''u2'', attachment_time = 0\<rparr>]]"
proof -
  have form: "well_formed shared_attachment"
    by (simp add: well_formed_def workload_uids_def shared_attachment_def)
  have "remaining ''u1'' (sp_attachments shared_attachment) =
      [(''mp-2'', [\<lparr>workload_pod_uid = ''u2'', attachment_time = 0\<rparr>])]"
    by (simp add: remaining_def without_def shared_attachment_def)
  with removal_completes [OF obliging_example [of "[]"] form, of "''u1''" "[]" initial] show ?thesis
    by (auto simp: initial_def)
qed

end
