(* ===== verification/Controller_Runs.thy ===== *)
theory Controller_Runs
  imports Reconciler
begin

text \<open>
  What a request of the controller returns, together with the calls it makes: the rules by which the
  results about whole requests are put together from those of their steps.
\<close>

named_theorems performs "rules for results and added calls of the controller"

definition performs :: "(ctl_state, 'a) state \<Rightarrow> ('a \<Rightarrow> history \<Rightarrow> bool) \<Rightarrow> bool" where
  "performs m R \<longleftrightarrow> (\<forall>s. wp m (\<lambda>a s'. \<exists>new. calls s' = new @ calls s \<and> R a new) s)"

lemma performs_mono: "performs m S \<Longrightarrow> (\<And>a new. S a new \<Longrightarrow> R a new) \<Longrightarrow> performs m R"
  unfolding performs_def by (blast intro: wp_mono)

lemma performs_conj: "performs m R \<Longrightarrow> performs m S \<Longrightarrow> performs m (\<lambda>a new. R a new \<and> S a new)"
  unfolding performs_def by (fastforce simp: wp_def split: prod.splits)

lemma performs_return [performs]: "R a [] \<Longrightarrow> performs (State_Monad.return a) R"
  by (auto simp: performs_def wp)

lemma performs_call: "(\<And>r. R r [event r]) \<Longrightarrow> performs (api_call answer event) R"
  by (auto simp: performs_def wp)

lemma performs_bind:
  assumes m: "performs m S" and f: "\<And>a new. S a new \<Longrightarrow> performs (f a) (\<lambda>r later. R r (later @ new))"
  shows "performs (State_Monad.bind m f) R"
  unfolding performs_def wp_bind
proof
  fix s
  have "wp m (\<lambda>a s'. \<exists>new. calls s' = new @ calls s \<and> S a new) s"
    using m by (simp add: performs_def)
  then show "wp m (\<lambda>a. wp (f a) (\<lambda>r s'. \<exists>new. calls s' = new @ calls s \<and> R r new)) s"
  proof (rule wp_mono, elim exE conjE)
    fix a and s' :: ctl_state and new
    assume s': "calls s' = new @ calls s" and S: "S a new"
    have "wp (f a) (\<lambda>r t. \<exists>later. calls t = later @ calls s' \<and> R r (later @ new)) s'"
      using f [OF S] unfolding performs_def by blast
    then show "wp (f a) (\<lambda>r t. \<exists>new. calls t = new @ calls s \<and> R r new) s'"
    proof (rule wp_mono, elim exE conjE)
      fix r t later
      assume "calls t = later @ calls s'" "R r (later @ new)"
      with s' show "\<exists>new. calls t = new @ calls s \<and> R r new"
        by (intro exI [of _ "later @ new"]) simp
    qed
  qed
qed

lemma performs_bind_return [performs]:
  "performs (f a) R \<Longrightarrow> performs (State_Monad.bind (State_Monad.return a) f) R"
  by (rule performs_bind [where S = "\<lambda>x new. x = a \<and> new = []"]) (auto intro: performs)

lemma performs_if [performs]:
  "(b \<Longrightarrow> performs m R) \<Longrightarrow> (\<not> b \<Longrightarrow> performs n R) \<Longrightarrow> performs (if b then m else n) R"
  by simp

lemma performs_let [performs]: "(\<And>y. y = x \<Longrightarrow> performs (f y) R) \<Longrightarrow> performs (let y = x in f y) R"
  by simp

lemma performs_option [performs]:
  "(x = None \<Longrightarrow> performs m R) \<Longrightarrow> (\<And>y. x = Some y \<Longrightarrow> performs (f y) R) \<Longrightarrow>
     performs (case x of None \<Rightarrow> m | Some y \<Rightarrow> f y) R"
  by (simp split: option.split)

lemma performs_sum [performs]:
  "(\<And>y. x = Inl y \<Longrightarrow> performs (f y) R) \<Longrightarrow> (\<And>y. x = Inr y \<Longrightarrow> performs (g y) R) \<Longrightarrow>
     performs (case x of Inl y \<Rightarrow> f y | Inr y \<Rightarrow> g y) R"
  by (simp split: sum.split)

lemma performs_prod [performs]:
  "(\<And>y z. x = (y, z) \<Longrightarrow> performs (f y z) R) \<Longrightarrow> performs (case x of (y, z) \<Rightarrow> f y z) R"
  by (simp split: prod.split)

lemma performs_list [performs]:
  "(x = [] \<Longrightarrow> performs m R) \<Longrightarrow> (\<And>y ys. x = y # ys \<Longrightarrow> performs (f y ys) R) \<Longrightarrow>
     performs (case x of [] \<Rightarrow> m | y # ys \<Rightarrow> f y ys) R"
  by (simp split: list.split)

text \<open>The calls of the client: each adds one event, and the code gets the answer in its own form.\<close>

definition answers :: "(ctl_state, 'a) state \<Rightarrow> ('r \<Rightarrow> api_event) \<Rightarrow> ('r \<Rightarrow> 'a) \<Rightarrow> bool" where
  "answers m event g \<longleftrightarrow> performs m (\<lambda>a new. \<exists>x. a = g x \<and> new = [event x])"

lemma answers_call: "answers (State_Monad.bind (api_call answer event) (\<lambda>x. State_Monad.return (g x))) event g"
  unfolding answers_def
  by (rule performs_bind [OF performs_call [where R = "\<lambda>x new. new = [event x]"]])
    (auto intro: performs_return)

lemma answers_client:
  "answers (get_pod c ns n) (EvGetPod ns n) lift_sum"
  "answers (get_pvc c ns n) (EvGetPVC ns n) lift_sum"
  "answers (get_pv c n) (EvGetPV n) lift_sum"
  "answers (get_service_account c ns n) (EvGetServiceAccount ns n) lift_sum"
  "answers (list_s3pa c f) (EvListS3PA f) lift_sum"
  "answers (create_pod c p) (EvCreatePod p) lift_sum"
  "answers (update_pod c p) (EvUpdatePod p) (map_option ApiErr)"
  "answers (patch_pod c p p') (EvPatchPod p p') lift_sum"
  "answers (delete_pod c p) (EvDeletePod p) (map_option ApiErr)"
  "answers (create_s3pa c a) (EvCreateS3PA a) (map_option ApiErr)"
  "answers (update_s3pa c a) (EvUpdateS3PA a)
     (\<lambda>x. case x of Inl e \<Rightarrow> Inl (ApiErr e) | Inr rv \<Rightarrow> Inr (a\<lparr>sp_resource_version := rv\<rparr>))"
  "answers (delete_s3pa c a rv) (EvDeleteS3PA a rv) (map_option ApiErr)"
  unfolding get_pod_def get_pvc_def get_pv_def get_service_account_def list_s3pa_def create_pod_def
    update_pod_def delete_pod_def patch_pod_def create_s3pa_def update_s3pa_def delete_s3pa_def
  by (rule answers_call)+

lemma performs_answers: "answers m event g \<Longrightarrow> (\<And>x. R (g x) [event x]) \<Longrightarrow> performs m R"
  unfolding answers_def by (erule performs_mono) auto

lemma performs_bind_answers:
  assumes "answers m event g" "\<And>x. performs (f (g x)) (\<lambda>r later. R r (later @ [event x]))"
  shows "performs (State_Monad.bind m f) R"
  by (rule performs_bind [OF assms(1) [unfolded answers_def]]) (auto intro: assms(2))

lemmas performs_client [performs] = answers_client [THEN performs_answers]
lemmas performs_bind_client [performs] = answers_client [THEN performs_bind_answers]

text \<open>Steps that call nothing.\<close>

definition silent :: "(ctl_state, 'a) state \<Rightarrow> ('a \<Rightarrow> bool) \<Rightarrow> bool" where
  "silent m P \<longleftrightarrow> performs m (\<lambda>a new. P a \<and> new = [])"

lemma silent_steps:
  "silent (expect_pending r f) (\<lambda>b. True)" "silent (expect_set r f) (\<lambda>u. True)"
  "silent (expect_clear r f) (\<lambda>u. True)" "silent (now c) (\<lambda>t. True)"
  "silent (range_keys c m) (\<lambda>ks. set ks = fst ` set m)"
  by (auto simp: silent_def performs_def wp expect_pending_def expect_set_def expect_clear_def)

lemma performs_silently: "silent m P \<Longrightarrow> (\<And>a. P a \<Longrightarrow> R a []) \<Longrightarrow> performs m R"
  unfolding silent_def by (erule performs_mono) auto

lemma performs_bind_silently:
  assumes "silent m P" "\<And>a. P a \<Longrightarrow> performs (f a) R"
  shows "performs (State_Monad.bind m f) R"
  by (rule performs_bind [OF assms(1) [unfolded silent_def]]) (auto intro: assms(2))

lemmas performs_silent [performs] = silent_steps [THEN performs_silently]
lemmas performs_bind_silent [performs] = silent_steps [THEN performs_bind_silently]

lemma lift_sum_simps [simp]: "lift_sum x = Inl e \<longleftrightarrow> (\<exists>a. x = Inl a \<and> e = ApiErr a)" "lift_sum x = Inr y \<longleftrightarrow> x = Inr y"
  "Inl e = lift_sum x \<longleftrightarrow> (\<exists>a. x = Inl a \<and> e = ApiErr a)" "Inr y = lift_sum x \<longleftrightarrow> x = Inr y"
  by (auto simp: lift_sum_def split: sum.splits)

lemma performs_run:
  assumes "performs m R" "run_state m s = (a, s')"
  obtains new where "calls s' = new @ calls s" "R a new"
proof -
  have "wp m (\<lambda>a s'. \<exists>new. calls s' = new @ calls s \<and> R a new) s"
    using assms(1) by (simp add: performs_def)
  then show ?thesis using assms(2) that by (auto simp: wp_def)
qed

lemma guarded_append:
  "guarded G (later @ new) \<longleftrightarrow> guarded (\<lambda>h. G (h @ new)) later \<and> guarded G new"
  by (induction later) auto

lemma guarded_all: "\<forall>e \<in> set new. \<forall>h. G h e \<Longrightarrow> guarded G new"
  by (induction new) auto

end
