(* ===== verification/Controller_Assignment.thy ===== *)
theory Controller_Assignment
  imports Controller_Safety Controller_Runs
begin

text \<open>
  Which Mountpoint Pod a workload gets when its attachment exists already: a suitable one that is
  running for the attachment, or a new one if there is none.
\<close>

section \<open>What the history says about a Mountpoint Pod\<close>

text \<open>
  A Mountpoint Pod takes a new workload if neither annotation that keeps workloads away is set, and if its
  labels, when it has any, name the version of this driver.
\<close>

definition takes_workloads :: "string \<Rightarrow> pod \<Rightarrow> bool" where
  "takes_workloads version q \<longleftrightarrow>
     (case pod_annotations q of None \<Rightarrow> True
      | Some m \<Rightarrow> m ''s3.csi.aws.com/needs-unmount'' \<noteq> Some ''true'' \<and>
          m ''s3.csi.aws.com/no-new-workload'' \<noteq> Some ''true'') \<and>
     (case pod_labels q of None \<Rightarrow> True
      | Some m \<Rightarrow> (case m ''s3.csi.aws.com/mounted-by-csi-driver-version'' of
          None \<Rightarrow> version = [] | Some v \<Rightarrow> v = version))"

lemma takes_workloads_iff:
  "shouldAssignNewWorkloadToMountpointPod r q \<longleftrightarrow>
     takes_workloads (csi_driver_version (mountpointPodConfig r)) q"
  by (auto simp: shouldAssignNewWorkloadToMountpointPod_def takes_workloads_def go_lookup_nil_def
      go_lookup_def mppod_consts split: option.splits)

text \<open>An attachment in which the workloads of one Mountpoint Pod are changed, and nothing else.\<close>

definition replaces_at :: "s3pa \<Rightarrow> string \<Rightarrow> workload_attachment list \<Rightarrow> s3pa \<Rightarrow> bool" where
  "replaces_at a k ws b \<longleftrightarrow>
     map_of (sp_attachments b) = (map_of (sp_attachments a))(k \<mapsto> ws) \<and>
     b\<lparr>sp_attachments := []\<rparr> = a\<lparr>sp_attachments := []\<rparr>"

lemma replaces_at_append:
  assumes "k \<in> fst ` set (sp_attachments a)"
  obtains ws where "map_of (sp_attachments a) k = Some ws"
    "replaces_at a k (ws @ [\<lparr>workload_pod_uid = uid, attachment_time = t\<rparr>]) (append_workload a k uid t)"
proof -
  obtain ws where ws: "map_of (sp_attachments a) k = Some ws"
    using assms by (metis map_of_eq_None_iff not_None_eq)
  then show ?thesis
    using that by (auto simp: replaces_at_def append_workload_def alookup_def update_conv')
qed

lemma replaces_at_set:
  "replaces_at a k [\<lparr>workload_pod_uid = uid, attachment_time = t\<rparr>] (set_workload a k uid t)"
  by (simp add: replaces_at_def set_workload_def update_conv')

fun found_suitable :: "reconciler \<Rightarrow> string \<Rightarrow> history \<Rightarrow> bool" where
  "found_suitable r k (EvGetPod ns n (Inr q) # _) =
     (ns = mountpoint_namespace (mountpointPodConfig r) \<and> n = k \<and>
      takes_workloads (csi_driver_version (mountpointPodConfig r)) q)"
| "found_suitable r k _ = False"

definition found_unsuitable :: "reconciler \<Rightarrow> string \<Rightarrow> history \<Rightarrow> bool" where
  "found_unsuitable r k h \<longleftrightarrow>
     (let ns = mountpoint_namespace (mountpointPodConfig r)
      in EvGetPod ns k (Inl NotFound) \<in> set h \<or>
         (\<exists>q. EvGetPod ns k (Inr q) \<in> set h \<and>
            \<not> takes_workloads (csi_driver_version (mountpointPodConfig r)) q))"

fun just_spawned :: "history \<Rightarrow> pod \<Rightarrow> bool" where
  "just_spawned (EvCreatePod _ (Inr q') # _) q = (q' = q)"
| "just_spawned _ _ = False"

definition assign_guard ::
    "reconciler \<Rightarrow> pod \<Rightarrow> pv \<Rightarrow> s3pa \<Rightarrow> priority_class_kind \<Rightarrow> history \<Rightarrow> api_event \<Rightarrow> bool" where
  "assign_guard r w p a kind h e =
     (case e of
        EvUpdateS3PA b _ \<Rightarrow>
          (\<exists>k ws t. map_of (sp_attachments a) k = Some ws \<and> found_suitable r k h \<and>
             replaces_at a k (ws @ [\<lparr>workload_pod_uid = pod_uid w, attachment_time = t\<rparr>]) b) \<or>
          (\<exists>q t. just_spawned h q \<and>
             replaces_at a (pod_name q) [\<lparr>workload_pod_uid = pod_uid w, attachment_time = t\<rparr>] b)
      | EvCreatePod m _ \<Rightarrow>
          MountpointPod (creatorOutside r) (mountpointPodConfig r) (node_name w) p kind = Inr m \<and>
          (\<forall>k \<in> fst ` set (sp_attachments a). found_unsuitable r k h)
      | EvDeletePod q _ \<Rightarrow> rolled_back h q
      | EvGetPod _ _ _ \<Rightarrow> True
      | _ \<Rightarrow> False)"

definition tracked ::
    "reconciler \<Rightarrow> pod \<Rightarrow> pv \<Rightarrow> s3pa \<Rightarrow> priority_class_kind \<Rightarrow> ctl_state \<Rightarrow> history \<Rightarrow> ctl_state \<Rightarrow> bool" where
  "tracked r w p a kind s0 new s \<longleftrightarrow> calls s = new @ calls s0 \<and> guarded (assign_guard r w p a kind) new"

lemma tracked_call:
  "tracked r w p a kind s0 new s \<Longrightarrow> assign_guard r w p a kind new e \<Longrightarrow>
     tracked r w p a kind s0 (e # new) (s\<lparr>calls := e # calls s\<rparr>)"
  by (simp add: tracked_def)

lemma found_unsuitable_Cons: "found_unsuitable r k h \<Longrightarrow> found_unsuitable r k (e # h)"
  by (auto simp: found_unsuitable_def Let_def)

section \<open>The search\<close>

lemma wp_find_suitable:
  assumes "tracked r w p a kind s0 new s" "\<forall>k \<in> K. found_unsuitable r k new"
  shows "wp (find_suitable_loop r names)
    (\<lambda>res s'. \<exists>new'. tracked r w p a kind s0 new' s' \<and>
       (res = Inr None \<longrightarrow> (\<forall>k \<in> K \<union> set names. found_unsuitable r k new')) \<and>
       (\<forall>k. res = Inr (Some k) \<longrightarrow> k \<in> set names \<and> found_suitable r k new') \<and>
       (\<forall>e. res = Inl e \<longrightarrow> (\<exists>x. e = ApiErr x))) s"
  using assms
proof (induction names arbitrary: new s K)
  case Nil
  then show ?case by (auto simp: wp)
next
  case (Cons k names)
  let ?ns = "mountpoint_namespace (mountpointPodConfig r)"
  have get: "tracked r w p a kind s0 (EvGetPod ?ns k res # new) (s\<lparr>calls := EvGetPod ?ns k res # calls s\<rparr>)"
    for res
    using Cons.prems(1) by (rule tracked_call) (simp add: assign_guard_def)
  have IH: "wp (find_suitable_loop r names)
    (\<lambda>res s'. \<exists>new'. tracked r w p a kind s0 new' s' \<and>
       (res = Inr None \<longrightarrow> (\<forall>k \<in> K \<union> set (k # names). found_unsuitable r k new')) \<and>
       (\<forall>k'. res = Inr (Some k') \<longrightarrow> k' \<in> set (k # names) \<and> found_suitable r k' new') \<and>
       (\<forall>e. res = Inl e \<longrightarrow> (\<exists>x. e = ApiErr x)))
    (s\<lparr>calls := EvGetPod ?ns k res # calls s\<rparr>)"
    if "found_unsuitable r k (EvGetPod ?ns k res # new)" for res
  proof -
    have "\<forall>k' \<in> insert k K. found_unsuitable r k' (EvGetPod ?ns k res # new)"
      using that Cons.prems(2) by (auto intro: found_unsuitable_Cons)
    from Cons.IH [OF get this] show ?thesis
      by (elim wp_mono) auto
  qed
  show ?case
  proof (cases "on_get_pod (client r) (calls s) ?ns k")
    case (Inl e)
    have "found_unsuitable r k (EvGetPod ?ns k (Inl NotFound) # new)"
      by (simp add: found_unsuitable_def)
    with Inl IH get [of "Inl e"] show ?thesis
      by (auto simp: getMountpointPod_def wp)
  next
    case (Inr q)
    have "found_unsuitable r k (EvGetPod ?ns k (Inr q) # new)"
      if "\<not> shouldAssignNewWorkloadToMountpointPod r q"
      using that [unfolded takes_workloads_iff] by (auto simp: found_unsuitable_def Let_def)
    with Inr IH get [of "Inr q"] show ?thesis
      by (auto simp: getMountpointPod_def wp takes_workloads_iff [symmetric]
          intro!: exI [of _ "EvGetPod ?ns k (Inr q) # new"])
  qed
qed

lemma wp_assign:
  assumes "tracked r w p a kind s0 new s"
  shows "wp (assignWorkloadToAnExistingMountpointPod r a (pod_uid w))
    (\<lambda>(rq, err) s'. \<exists>new'. tracked r w p a kind s0 new' s' \<and>
       (err = Some ErrNoSuitableMountpointPod \<longrightarrow>
          (\<forall>k \<in> fst ` set (sp_attachments a). found_unsuitable r k new')) \<and>
       (\<forall>e. err = Some e \<longrightarrow> e = ErrNoSuitableMountpointPod \<or> (\<exists>x. e = ApiErr x))) s"
proof -
  let ?names = "go_range (range_order (client r) (calls s)) (map fst (sp_attachments a))"
  have "wp (find_suitable_loop r ?names)
    (\<lambda>res s'. \<exists>new'. tracked r w p a kind s0 new' s' \<and>
       (res = Inr None \<longrightarrow> (\<forall>k \<in> {} \<union> set ?names. found_unsuitable r k new')) \<and>
       (\<forall>k. res = Inr (Some k) \<longrightarrow> k \<in> set ?names \<and> found_suitable r k new') \<and>
       (\<forall>e. res = Inl e \<longrightarrow> (\<exists>x. e = ApiErr x))) s"
    using assms by (rule wp_find_suitable) simp
  then have found: "wp (find_suitable_loop r ?names)
    (\<lambda>res s'. \<exists>new'. tracked r w p a kind s0 new' s' \<and>
       (res = Inr None \<longrightarrow> (\<forall>k \<in> fst ` set (sp_attachments a). found_unsuitable r k new')) \<and>
       (\<forall>k. res = Inr (Some k) \<longrightarrow> k \<in> fst ` set (sp_attachments a) \<and> found_suitable r k new') \<and>
       (\<forall>e. res = Inl e \<longrightarrow> (\<exists>x. e = ApiErr x))) s"
    by simp
  have upd: "\<exists>n. tracked r w p a kind s0 n
      (s'\<lparr>calls := EvUpdateS3PA (append_workload a k (pod_uid w) t) res # calls s'\<rparr>)"
    if tr: "tracked r w p a kind s0 new' s'" and key: "k \<in> fst ` set (sp_attachments a)"
      and found: "found_suitable r k new'"
    for new' s' k t res
  proof (rule exI, rule tracked_call [OF tr])
    obtain ws where "map_of (sp_attachments a) k = Some ws"
      "replaces_at a k (ws @ [\<lparr>workload_pod_uid = pod_uid w, attachment_time = t\<rparr>]) (append_workload a k (pod_uid w) t)"
      using replaces_at_append [OF key] .
    with found show "assign_guard r w p a kind new' (EvUpdateS3PA (append_workload a k (pod_uid w) t) res)"
      by (auto simp: assign_guard_def)
  qed
  show ?thesis
    unfolding assignWorkloadToAnExistingMountpointPod_def wp_bind wp_range_keys
  proof (rule wp_mono [OF found], elim exE conjE, goal_cases)
    case (1 res s' new')
    show ?case
    proof (cases res)
      case (Inl e)
      with 1 show ?thesis by (auto simp: wp)
    next
      case (Inr x)
      with 1 upd show ?thesis
        by (cases x) (auto simp: wp split: sum.split intro: upd)
    qed
  qed
qed

section \<open>The handler\<close>

lemma wp_spawn_for_existing:
  assumes tr: "tracked r w p a kind s0 new s"
    and none: "\<forall>k \<in> fst ` set (sp_attachments a). found_unsuitable r k new"
  shows "wp (spawn_for_existing r w p a kind) (\<lambda>_ s'. \<exists>new'. tracked r w p a kind s0 new' s') s"
proof (cases "MountpointPod (creatorOutside r) (mountpointPodConfig r) (node_name w) p kind")
  case (Inl e)
  with tr show ?thesis
    by (auto simp: spawn_for_existing_def spawnMountpointPod_def wp)
next
  case (Inr m)
  have created: "tracked r w p a kind s0 (EvCreatePod m res # new) (s\<lparr>calls := EvCreatePod m res # calls s\<rparr>)"
    for res
    using tr by (rule tracked_call) (use Inr none in \<open>auto simp: assign_guard_def\<close>)
  let ?b = "\<lambda>q t. set_workload a (pod_name q) (pod_uid w) t"
  have updated: "tracked r w p a kind s0 (EvUpdateS3PA (?b q t) u # EvCreatePod m (Inr q) # new)
      (s\<lparr>calls := EvUpdateS3PA (?b q t) u # EvCreatePod m (Inr q) # calls s\<rparr>)" for q t u
    using tracked_call [OF created [of "Inr q"], of "EvUpdateS3PA (?b q t) u"]
    using replaces_at_set by (fastforce simp: assign_guard_def)
  have deleted: "tracked r w p a kind s0
      (EvDeletePod q d # EvUpdateS3PA (?b q t) (Inl e) # EvCreatePod m (Inr q) # new)
      (s\<lparr>calls := EvDeletePod q d # EvUpdateS3PA (?b q t) (Inl e) # EvCreatePod m (Inr q) # calls s\<rparr>)"
    for q t e d
    using tracked_call [OF updated [of q t "Inl e"], of "EvDeletePod q d"]
    by (simp add: assign_guard_def set_workload_def)
  have ex: "\<exists>n. tracked r w p a kind s0 n (s\<lparr>calls := EvCreatePod m res # calls s\<rparr>)"
    "\<exists>n. tracked r w p a kind s0 n
       (s\<lparr>calls := EvUpdateS3PA (?b q t) u # EvCreatePod m (Inr q) # calls s\<rparr>)"
    "\<exists>n. tracked r w p a kind s0 n
       (s\<lparr>calls := EvDeletePod q d # EvUpdateS3PA (?b q t) (Inl e) # EvCreatePod m (Inr q) # calls s\<rparr>)"
    for res q t u d e
    using created updated deleted by blast+
  show ?thesis
    using Inr ex
    by (auto simp: spawn_for_existing_def spawnMountpointPod_def wp split: sum.split option.split)
qed

lemma wp_addWorkload:
  assumes tr: "tracked r w p a kind s0 new s"
  shows "wp (addWorkloadToS3PodAttachment r w p a kind) (\<lambda>_ s'. \<exists>new'. tracked r w p a kind s0 new' s') s"
  unfolding addWorkloadToS3PodAttachment_def wp_bind
proof (rule wp_mono [OF wp_assign [OF tr]], goal_cases)
  case (1 res s')
  obtain rq err where res: "res = (rq, err)" by (cases res)
  with 1 obtain new' where new': "tracked r w p a kind s0 new' s'"
    "err = Some ErrNoSuitableMountpointPod \<longrightarrow>
       (\<forall>k \<in> fst ` set (sp_attachments a). found_unsuitable r k new')"
    "\<forall>e. err = Some e \<longrightarrow> e = ErrNoSuitableMountpointPod \<or> (\<exists>x. e = ApiErr x)"
    by auto
  show ?case
  proof (cases err)
    case None
    with res new' show ?thesis by (auto simp: wp)
  next
    case (Some e)
    show ?thesis
    proof (cases "e = ErrNoSuitableMountpointPod")
      case True
      with Some new' have "\<forall>k \<in> fst ` set (sp_attachments a). found_unsuitable r k new'"
        by simp
      from wp_spawn_for_existing [OF new'(1) this] show ?thesis
        using True Some res by (simp add: wp)
    next
      case False
      with Some new' obtain x where "e = ApiErr x" by auto
      with res Some new'(1) show ?thesis by (auto simp: wp)
    qed
  qed
qed

lemma wp_expect_clear: "wp (expect_clear r f) Q s \<longleftrightarrow> Q () (s\<lparr>s3paExpectations :=
    clearPending (range_order (client r) (calls s)) f (s3paExpectations s)\<rparr>)"
  by (simp add: expect_clear_def wp)

lemma wp_expect_pending: "wp (expect_pending r f) Q s \<longleftrightarrow>
    Q (isPending (range_order (client r) (calls s)) f (s3paExpectations s)) s"
  by (simp add: expect_pending_def wp)

lemma wp_handleExisting:
  "wp (handleExistingS3PodAttachment r w p a f kind)
     (\<lambda>_ s'. \<exists>new. tracked r w p a kind s new s' \<and>
       (s3paContainsWorkload a (pod_uid w) \<longrightarrow> new = [])) s"
proof -
  have start: "tracked r w p a kind s [] (s\<lparr>s3paExpectations := x\<rparr>)" "tracked r w p a kind s [] s" for x
    by (simp_all add: tracked_def)
  show ?thesis
  proof (cases "s3paContainsWorkload a (pod_uid w)")
    case True
    then show ?thesis
      by (auto simp: handleExistingS3PodAttachment_def wp wp_expect_clear wp_expect_pending start)
  next
    case False
    then show ?thesis
      by (auto simp: handleExistingS3PodAttachment_def wp wp_expect_clear wp_expect_pending
          intro: wp_addWorkload [OF start(1)] wp_addWorkload [OF start(2)])
  qed
qed

section \<open>What the handler returns\<close>

definition attached :: "s3pa \<Rightarrow> string \<Rightarrow> bool" where
  "attached a uid \<longleftrightarrow>
     (\<exists>k ws x. (k, ws) \<in> set (sp_attachments a) \<and> x \<in> set ws \<and> workload_pod_uid x = uid)"

lemma attached_iff: "s3paContainsWorkload a uid \<longleftrightarrow> attached a uid"
  by (fastforce simp: s3paContainsWorkload_def attached_def list_ex_iff)

definition joined :: "history \<Rightarrow> bool" where
  "joined h \<longleftrightarrow> (\<exists>b v. EvUpdateS3PA b (Inr v) \<in> set h)"

text \<open>Why a workload could not join, with the error that is returned; a conflicting update is only retried.\<close>

definition kept_out :: "error option \<Rightarrow> history \<Rightarrow> bool" where
  "kept_out err h \<longleftrightarrow>
     (\<exists>ns k e. EvGetPod ns k (Inl e) \<in> set h \<and> e \<noteq> NotFound \<and> err = Some (ApiErr e)) \<or>
     (\<exists>b e. EvUpdateS3PA b (Inl e) \<in> set h \<and> err = (if e = Conflict then None else Some (ApiErr e))) \<or>
     (\<exists>m e. EvCreatePod m (Inl e) \<in> set h \<and> err = Some (ApiErr e))"

definition join_result :: "reconciler \<Rightarrow> pod \<Rightarrow> pv \<Rightarrow> priority_class_kind \<Rightarrow> handled \<Rightarrow> history \<Rightarrow> bool" where
  "join_result r w p kind res h \<longleftrightarrow>
     (if joined h then res = (DontRequeue, None)
      else \<exists>err. res = (Requeue, err) \<and>
        (kept_out err h \<or> (\<exists>e. err = Some e \<and>
           MountpointPod (creatorOutside r) (mountpointPodConfig r) (node_name w) p kind = Inl e)))"

definition only_reads :: "history \<Rightarrow> bool" where
  "only_reads h \<longleftrightarrow> (\<forall>e \<in> set h. \<exists>ns k x. e = EvGetPod ns k x)"

lemma join_result_reads:
  "only_reads h \<Longrightarrow> join_result r w p kind res l \<Longrightarrow> join_result r w p kind res (l @ h)"
  unfolding join_result_def kept_out_def joined_def only_reads_def by (fastforce split: if_splits)

lemma join_result_update:
  "join_result r w p kind (DontRequeue, None) (EvUpdateS3PA b (Inr v) # h)"
  "\<not> joined h \<Longrightarrow> join_result r w p kind (Requeue, None) (EvUpdateS3PA b (Inl Conflict) # h)"
  "\<not> joined h \<Longrightarrow> e \<noteq> Conflict \<Longrightarrow> join_result r w p kind (Requeue, Some (ApiErr e)) (EvUpdateS3PA b (Inl e) # h)"
  by (auto simp: join_result_def joined_def kept_out_def)

lemma join_result_delete: "join_result r w p kind res h \<Longrightarrow> join_result r w p kind res (EvDeletePod q x # h)"
  unfolding join_result_def kept_out_def joined_def by (auto split: if_splits)

lemma join_result_failed:
  "\<not> joined h \<Longrightarrow> kept_out (Some e) h \<Longrightarrow> join_result r w p kind (Requeue, Some e) h"
  "\<not> joined h \<Longrightarrow> join_result r w p kind (Requeue, Some (ApiErr x)) (EvCreatePod m (Inl x) # h)"
  "MountpointPod (creatorOutside r) (mountpointPodConfig r) (node_name w) p kind = Inl e \<Longrightarrow>
     join_result r w p kind (Requeue, Some e) []"
  by (simp add: join_result_def) (auto simp: join_result_def joined_def kept_out_def)

lemma join_result_error: "join_result r w p kind (rq, Some e) h \<Longrightarrow> rq = Requeue"
  by (auto simp: join_result_def split: if_splits)

lemma not_joined: "\<not> joined []" "only_reads h \<Longrightarrow> \<not> joined h" "joined (EvCreatePod m x # h) \<longleftrightarrow> joined h"
  by (auto simp: joined_def only_reads_def)

lemma only_reads_simps: "only_reads []" "only_reads (EvGetPod ns k x # h) = only_reads h"
    "only_reads (l @ h) \<longleftrightarrow> only_reads l \<and> only_reads h"
  by (auto simp: only_reads_def)

lemma kept_out_read: "e \<noteq> NotFound \<Longrightarrow> kept_out (Some (ApiErr e)) [EvGetPod ns k (Inl e)]"
    "kept_out err l \<Longrightarrow> kept_out err (l @ h)"
proof -
  show "kept_out err l \<Longrightarrow> kept_out err (l @ h)"
    unfolding kept_out_def set_append by blast
qed (simp add: kept_out_def)

lemma joins_find_suitable:
  "performs (find_suitable_loop r names) (\<lambda>res new. only_reads new \<and>
     (\<forall>e. res = Inl e \<longrightarrow> kept_out (Some e) new))"
proof (induction names)
  case (Cons k names)
  have IH: "performs (find_suitable_loop r names) (\<lambda>res later. only_reads (later @ [EvGetPod ns k x]) \<and>
     (\<forall>e. res = Inl e \<longrightarrow> kept_out (Some e) (later @ [EvGetPod ns k x])))" for ns x
    by (rule performs_mono [OF Cons]) (auto simp: only_reads_simps kept_out_read)
  show ?case
    unfolding find_suitable_loop.simps getMountpointPod_def
    by (intro performs IH) (auto simp: only_reads_simps kept_out_read)
qed (simp add: performs_return only_reads_def)

lemma joins_assign:
  "performs (assignWorkloadToAnExistingMountpointPod r a (pod_uid w)) (\<lambda>(rq, err) new.
     (err = Some ErrNoSuitableMountpointPod \<and> only_reads new) \<or>
     (join_result r w p kind (rq, err) new \<and> (\<forall>e. err = Some e \<longrightarrow> \<not> error_is e ErrNoSuitableMountpointPod)))"
proof -
  have api: "kept_out (Some e) new \<Longrightarrow> \<not> error_is e ErrNoSuitableMountpointPod" for e new
    by (auto simp: kept_out_def split: if_splits)
  show ?thesis
    unfolding assignWorkloadToAnExistingMountpointPod_def
    apply (intro performs, rule performs_bind [OF joins_find_suitable], intro performs)
      apply (auto simp: not_joined intro!: join_result_update intro: join_result_failed(1) dest: api split: sum.splits)
    done
qed

lemma joins_spawn:
  "performs (spawn_for_existing r w p a kind) (join_result r w p kind)"
  unfolding spawn_for_existing_def spawnMountpointPod_def
  by (cases "MountpointPod (creatorOutside r) (mountpointPodConfig r) (node_name w) p kind";
      simp only: sum.case; intro performs)
    (auto simp: not_joined intro!: join_result_update join_result_delete join_result_failed(2,3) split: sum.splits)

lemma joins_add: "performs (addWorkloadToS3PodAttachment r w p a kind) (join_result r w p kind)"
  unfolding addWorkloadToS3PodAttachment_def
  apply (rule performs_bind [OF joins_assign [where p = p and kind = kind]])
  apply (intro performs performs_mono [OF joins_spawn])
  apply (auto intro: join_result_reads dest: join_result_error)
  done

lemma joins_handleExisting:
  "performs (handleExistingS3PodAttachment r w p a f kind) (\<lambda>res new.
     if attached a (pod_uid w) then res = (DontRequeue, None) \<and> new = []
     else guarded (assign_guard r w p a kind) new \<and> join_result r w p kind res new)"
proof -
  have guards: "performs (handleExistingS3PodAttachment r w p a f kind)
      (\<lambda>_ new. guarded (assign_guard r w p a kind) new)"
    unfolding performs_def by (intro allI wp_mono [OF wp_handleExisting]) (auto simp: tracked_def)
  have "performs (if s3paContainsWorkload a (pod_uid w) then State_Monad.return (DontRequeue, None)
      else addWorkloadToS3PodAttachment r w p a kind)
     (\<lambda>res new. if attached a (pod_uid w) then res = (DontRequeue, None) \<and> new = []
        else join_result r w p kind res new)"
    by (auto simp: attached_iff intro!: performs joins_add)
  then have "performs (handleExistingS3PodAttachment r w p a f kind)
     (\<lambda>res new. if attached a (pod_uid w) then res = (DontRequeue, None) \<and> new = []
        else join_result r w p kind res new)"
    unfolding handleExistingS3PodAttachment_def
    by (intro performs; cases) (auto intro!: performs)
  from performs_conj [OF guards this] show ?thesis
    by (rule performs_mono) (auto split: if_splits)
qed

text \<open>
  C16: How a workload joins an existing MountpointS3PodAttachment. If it is attached already, nothing
  is called. Otherwise the one change that is made to the attachment is that the workload is added to a Mountpoint
  Pod: to one of the attachment that was just read and takes workloads, which is not to be unmounted, is open to
  new workloads and of this driver version, behind those it has; or as the only workload of a new one, which is
  created, for the node of the workload, only after each Mountpoint Pod of the attachment was found to
  take no workloads or to be gone, and is deleted again only if recording it failed. The
  handler is done exactly if that change was accepted. If not it asks to be called again, because reading a
  Mountpoint Pod, the change, or creating the Mountpoint Pod failed, with the error of that call, or because
  the new Mountpoint Pod cannot be specified, with that error; a conflict is retried without an error.
\<close>

theorem workload_joins_suitable_mountpoint_pod:
  assumes "run_state (handleExistingS3PodAttachment r w p a f kind) s = (res, s')"
  shows "\<exists>new. calls s' = new @ calls s \<and>
    (if attached a (pod_uid w) then res = (DontRequeue, None) \<and> new = []
     else guarded (assign_guard r w p a kind) new \<and> join_result r w p kind res new)"
  by (rule performs_run [OF joins_handleExisting assms]) blast

text \<open>A second workload, which finds the Mountpoint Pod of the first one, and one which finds it retired.\<close>

definition second_workload :: pod where
  "second_workload = example_workload\<lparr>pod_name := ''w2'', pod_uid := ''u2''\<rparr>"

definition found_pod :: "strmap option \<Rightarrow> string \<Rightarrow> string \<Rightarrow> api_error + pod" where
  "found_pod annotations ns n = Inr (example_workload\<lparr>pod_name := n, pod_namespace := ns, pod_annotations := annotations,
     pod_labels := Some [''s3.csi.aws.com/mounted-by-csi-driver-version'' \<mapsto> ''2.0.0'']\<rparr>)"

definition join_run :: "strmap option \<Rightarrow> handled \<times> ctl_state" where
  "join_run annotations = run_state (handleExistingS3PodAttachment
     (example_reconciler (found_pod annotations) []) second_workload example_pv
     example_attachment [] DefaultPriorityClass) initial"

theorem workload_joins_suitable_mountpoint_pod_witness:
  "joined (calls (snd (join_run None))) \<and> fst (join_run None) = (DontRequeue, None) \<and>
   guarded (assign_guard (example_reconciler (found_pod None) []) second_workload example_pv
     example_attachment DefaultPriorityClass) (calls (snd (join_run None)))"
proof -
  have "\<not> attached example_attachment (pod_uid second_workload)"
    by (simp add: attached_def example_attachment_def second_workload_def)
  moreover have "fst (join_run None) = (DontRequeue, None)" by code_simp
  moreover obtain res s' where run: "join_run None = (res, s')" by (rule prod.exhaust)
  ultimately show ?thesis
    using workload_joins_suitable_mountpoint_pod [OF run [unfolded join_run_def]]
    by (auto simp: run initial_def join_result_def split: if_splits)
qed

text \<open>Next to a Mountpoint Pod that is to be unmounted, a new one is spawned.\<close>

lemma retired_pod_is_left_alone:
  "fst (join_run (Some [''s3.csi.aws.com/needs-unmount'' \<mapsto> ''true''])) = (DontRequeue, None) \<and>
   list_ex (\<lambda>e. case e of EvCreatePod _ _ \<Rightarrow> True | _ \<Rightarrow> False)
     (calls (snd (join_run (Some [''s3.csi.aws.com/needs-unmount'' \<mapsto> ''true'']))))"
  by code_simp

text \<open>
  A Mountpoint Pod fresh from its specification is suitable for new workloads, whatever labels the
  operator configured for Mountpoint Pods, and it is created in the namespace in which the reconciler
  looks for it.
\<close>

theorem fresh_mountpoint_pod_is_suitable:
  assumes "MountpointPod (creatorOutside r) (mountpointPodConfig r) node p kind = Inr m"
  shows "shouldAssignNewWorkloadToMountpointPod r m \<and> isInMountpointNamespace r m \<and>
    \<not> IsHeadroomPod m"
  using assms
  by (auto elim!: MountpointPod_Inr simp: shouldAssignNewWorkloadToMountpointPod_def
      mountpoint_pod_base_def isInMountpointNamespace_def IsHeadroomPod_def headroomPodNamePrefix_def
      has_prefix_def go_lookup_nil_def go_lookup_def mppod_consts)

theorem fresh_mountpoint_pod_is_suitable_witness:
  "\<exists>m. MountpointPod example_outside example_config ''node'' example_pv DefaultPriorityClass = Inr m \<and>
     shouldAssignNewWorkloadToMountpointPod (example_reconciler no_pods []) m"
proof -
  have "\<exists>m. MountpointPod (creatorOutside (example_reconciler no_pods []))
      (mountpointPodConfig (example_reconciler no_pods [])) ''node'' example_pv DefaultPriorityClass = Inr m"
    by (simp add: MountpointPod_def Let_def configureLocalCache_def configureResourceRequests_def
        configureResourceLimits_def ExtractVolumeAttributes_def go_lookup_def example_defs
        args_Has_def args_find_def ParseArgs_def parse_one_def Let_def index_of_def trim_char_def
        normalizeKey_def disallowed_keys_def ArgCache_def ArgNoValue_def has_prefix_def
        go_range_def volume_context_consts)
  then show ?thesis
    using fresh_mountpoint_pod_is_suitable by (auto simp: example_reconciler_def)
qed

text \<open>
  A Mountpoint Pod that carries the needs-unmount annotation takes no new workloads.
\<close>

theorem retired_mountpoint_pod_is_unsuitable:
  "\<not> shouldAssignNewWorkloadToMountpointPod r (annotate_needs_unmount m)"
  by (simp add: shouldAssignNewWorkloadToMountpointPod_def annotate_needs_unmount_def
      go_lookup_nil_def go_lookup_def)

end
