(* ===== verification/Env.thy ===== *)
theory Env
  imports Paths Keyed_Store
begin

text \<open>
  \<^verbatim>\<open>pkg/driver/node/envprovider/provider.go\<close>: the environment variables passed to Mountpoint. An
  environment is a Go map, here an association list with distinct keys; the order in which the map
  is iterated is a parameter. It is a \<open>keyed_store\<close>, so that the laws of sequences of writes are
  those of that interface.
\<close>

section \<open>Names\<close>

definition EnvRegion :: string where "EnvRegion = ''AWS_REGION''"
definition EnvDefaultRegion :: string where "EnvDefaultRegion = ''AWS_DEFAULT_REGION''"
definition EnvSTSRegionalEndpoints :: string where
  "EnvSTSRegionalEndpoints = ''AWS_STS_REGIONAL_ENDPOINTS''"
definition EnvMaxAttempts :: string where "EnvMaxAttempts = ''AWS_MAX_ATTEMPTS''"
definition EnvProfile :: string where "EnvProfile = ''AWS_PROFILE''"
definition EnvConfigFile :: string where "EnvConfigFile = ''AWS_CONFIG_FILE''"
definition EnvSharedCredentialsFile :: string where
  "EnvSharedCredentialsFile = ''AWS_SHARED_CREDENTIALS_FILE''"
definition EnvRoleARN :: string where "EnvRoleARN = ''AWS_ROLE_ARN''"
definition EnvWebIdentityTokenFile :: string where
  "EnvWebIdentityTokenFile = ''AWS_WEB_IDENTITY_TOKEN_FILE''"
definition EnvContainerAuthorizationTokenFile :: string where
  "EnvContainerAuthorizationTokenFile = ''AWS_CONTAINER_AUTHORIZATION_TOKEN_FILE''"
definition EnvContainerCredentialsFullURI :: string where
  "EnvContainerCredentialsFullURI = ''AWS_CONTAINER_CREDENTIALS_FULL_URI''"
definition EnvEC2MetadataDisabled :: string where
  "EnvEC2MetadataDisabled = ''AWS_EC2_METADATA_DISABLED''"
definition EnvAccessKeyID :: string where "EnvAccessKeyID = ''AWS_ACCESS_KEY_ID''"
definition EnvSecretAccessKey :: string where "EnvSecretAccessKey = ''AWS_SECRET_ACCESS_KEY''"
definition EnvSessionToken :: string where "EnvSessionToken = ''AWS_SESSION_TOKEN''"
definition EnvMountpointCacheKey :: string where
  "EnvMountpointCacheKey = ''UNSTABLE_MOUNTPOINT_CACHE_KEY''"
definition EnvHTTPSProxy :: string where "EnvHTTPSProxy = ''HTTPS_PROXY''"
definition EnvNoProxy :: string where "EnvNoProxy = ''NO_PROXY''"
definition mountpointEnvPrefix :: string where "mountpointEnvPrefix = ''mountpointEnv.''"

lemmas env_consts = EnvRegion_def EnvDefaultRegion_def EnvSTSRegionalEndpoints_def
  EnvMaxAttempts_def EnvProfile_def EnvConfigFile_def EnvSharedCredentialsFile_def EnvRoleARN_def
  EnvWebIdentityTokenFile_def EnvContainerAuthorizationTokenFile_def
  EnvContainerCredentialsFullURI_def EnvEC2MetadataDisabled_def EnvAccessKeyID_def
  EnvSecretAccessKey_def EnvSessionToken_def EnvMountpointCacheKey_def EnvHTTPSProxy_def
  EnvNoProxy_def

definition envAllowlist :: "string list" where
  "envAllowlist = [EnvRegion, EnvDefaultRegion, EnvSTSRegionalEndpoints]"

definition userEnvAllowlist :: "string list" where
  "userEnvAllowlist = [EnvHTTPSProxy, EnvNoProxy]"

section \<open>Operations\<close>

type_synonym environment = "(string \<times> string) list"

definition env_Set :: "string \<Rightarrow> string \<Rightarrow> environment \<Rightarrow> environment" where
  "env_Set key val env = AList.update key val env"

definition env_Delete :: "string \<Rightarrow> environment \<Rightarrow> environment" where
  "env_Delete key env = AList.delete key env"

text \<open>\<^verbatim>\<open>env.Merge(other)\<close>; each key of \<open>other\<close> is written once, so the order does not matter.\<close>

definition env_Merge :: "environment \<Rightarrow> environment \<Rightarrow> environment" where
  "env_Merge env other = fold (\<lambda>(key, val). env_Set key val) other env"

definition env_format :: "string \<Rightarrow> string \<Rightarrow> string" where
  "env_format key val = key @ ''='' @ val"

definition env_List :: "(string list \<Rightarrow> string list) \<Rightarrow> environment \<Rightarrow> string list" where
  "env_List ord env =
     sort (map (\<lambda>key. env_format key (go_lookup (map_of env) key)) (go_range ord (map fst env)))"

definition Region :: "getenv \<Rightarrow> string" where
  "Region getenv = (let region = getenv EnvRegion in if region \<noteq> [] then region else getenv EnvDefaultRegion)"

definition Default :: "getenv \<Rightarrow> environment" where
  "Default getenv =
     fold (\<lambda>key env. let val = getenv key in if val \<noteq> [] then env_Set key val env else env)
       envAllowlist []"

text \<open>The loop over the volume context stops at the first key that is not allowed.\<close>

fun parse_user_env_loop ::
    "(string \<times> string) list \<Rightarrow> string list \<Rightarrow> environment \<Rightarrow> string + environment" where
  "parse_user_env_loop volumeCtx [] env = Inr env"
| "parse_user_env_loop volumeCtx (key # keys) env =
     (case cut_prefix key mountpointEnvPrefix of
        None \<Rightarrow> parse_user_env_loop volumeCtx keys env
      | Some envName \<Rightarrow>
          if envName \<notin> set userEnvAllowlist then Inl key
          else parse_user_env_loop volumeCtx keys
            (env_Set envName (go_lookup (map_of volumeCtx) key) env))"

definition ParseUserEnvFromVolumeContext ::
    "(string list \<Rightarrow> string list) \<Rightarrow> (string \<times> string) list \<Rightarrow> string + environment" where
  "ParseUserEnvFromVolumeContext ord volumeCtx =
     parse_user_env_loop volumeCtx (go_range ord (map fst volumeCtx)) []"

section \<open>The environment as a store\<close>

definition env_ok :: "environment \<Rightarrow> bool" where
  "env_ok env \<longleftrightarrow> distinct (map fst env)"

interpretation env_store: keyed_store map_of env_Set env_ok id
  by unfold_locales (auto simp: env_Set_def env_ok_def update_conv' distinct_update)

lemma env_ok_Nil [simp]: "env_ok []"
  by (simp add: env_ok_def)

lemma env_ok_Merge: "env_ok env \<Longrightarrow> env_ok (env_Merge env other)"
  unfolding env_Merge_def by (rule env_store.invar_fold_put)

lemma find_rev_map_of:
  "distinct (map fst kvs) \<Longrightarrow>
     (case find (\<lambda>(k', v). k' = k) (rev kvs) of None \<Rightarrow> d | Some (_, v) \<Rightarrow> Some v) =
     (case map_of kvs k of None \<Rightarrow> d | Some v \<Rightarrow> Some v)"
proof -
  assume d: "distinct (map fst kvs)"
  have *: "(case find (\<lambda>(k', v). k' = k) l of None \<Rightarrow> d | Some (_, v) \<Rightarrow> Some v) =
      (case map_of l k of None \<Rightarrow> d | Some v \<Rightarrow> Some v)" for l :: "('a \<times> 'b) list" and d
    by (induction l) auto
  have "map_of (rev kvs) = map_of kvs"
    using d by (subst map_of_inject_set) (simp_all flip: rev_map)
  with * show ?thesis by metis
qed

text \<open>Reading a merged environment: the merged-in value wins.\<close>

lemma map_of_Merge:
  assumes "env_ok env" "env_ok other"
  shows "map_of (env_Merge env other) k =
    (case map_of other k of None \<Rightarrow> map_of env k | Some v \<Rightarrow> Some v)"
  using env_store.look_fold_put [OF assms(1), of other k] assms(2)
  by (simp add: env_Merge_def env_ok_def find_rev_map_of)

lemma env_ok_fold_Default: "env_ok env \<Longrightarrow>
    env_ok (fold (\<lambda>key env. let val = getenv key in if val \<noteq> [] then env_Set key val env else env) ks env)"
  by (induction ks arbitrary: env) (auto simp: Let_def env_store.invar_put)

lemma env_ok_Default [simp]: "env_ok (Default getenv)"
  unfolding Default_def by (rule env_ok_fold_Default) simp

lemma map_of_fold_Default:
  "env_ok env \<Longrightarrow> map_of (fold (\<lambda>key env. let val = getenv key in
       if val \<noteq> [] then env_Set key val env else env) ks env) k =
     (if k \<in> set ks \<and> getenv k \<noteq> [] then Some (getenv k) else map_of env k)"
  by (induction ks arbitrary: env) (auto simp: Let_def env_store.invar_put env_store.look_put)

lemma map_of_Default:
  "map_of (Default getenv) k =
     (if k \<in> set envAllowlist \<and> getenv k \<noteq> [] then Some (getenv k) else None)"
  by (simp only: Default_def map_of_fold_Default [OF env_ok_Nil] map_of.simps)

section \<open>The rendered list\<close>

lemma env_List_unordered:
  assumes "env_ok env"
  shows "env_List ord env =
    sort (map (\<lambda>key. env_format key (go_lookup (map_of env) key)) (map fst env))"
proof -
  have "mset (go_range ord (map fst env)) = mset (map fst env)"
    using assms by (intro mset_go_range) (simp add: env_ok_def)
  then have "mset (map (\<lambda>key. env_format key (go_lookup (map_of env) key)) (go_range ord (map fst env))) =
      mset (map (\<lambda>key. env_format key (go_lookup (map_of env) key)) (map fst env))"
    by (simp only: mset_map)
  then show ?thesis
    unfolding env_List_def by (intro properties_for_sort) simp_all
qed

lemma set_env_List:
  assumes "env_ok env"
  shows "set (env_List ord env) = {env_format k v | k v. map_of env k = Some v}"
proof -
  have look: "map_of env k = Some v \<longleftrightarrow> (k, v) \<in> set env" for k v
    using assms by (simp add: env_ok_def map_of_eq_Some_iff)
  have "set (env_List ord env) = (\<lambda>k. env_format k (go_lookup (map_of env) k)) ` fst ` set env"
    using assms by (simp add: env_List_unordered image_image)
  also have "\<dots> = (\<lambda>(k, v). env_format k v) ` set env"
    unfolding image_image
  proof (rule image_cong [OF refl])
    fix x assume "x \<in> set env"
    then have "map_of env (fst x) = Some (snd x)" by (simp add: look)
    then show "env_format (fst x) (go_lookup (map_of env) (fst x)) = (case x of (k, v) \<Rightarrow> env_format k v)"
      by (simp add: go_lookup_def split_beta)
  qed
  finally show ?thesis by (auto simp: look)
qed

text \<open>
  The list of variables handed to Mountpoint is sorted, does not depend on the iteration order of
  the map, has one entry per variable, and loses nothing: splitting the entries at their first equals
  sign gives the variables back.
\<close>

theorem env_list_faithful:
  assumes "env_ok env" "\<forall>k \<in> fst ` set env. CHR ''='' \<notin> set k"
  shows "sorted (env_List ord env) \<and> env_List ord env = env_List ord' env \<and>
    length (env_List ord env) = length env \<and>
    (\<forall>k v. map_of env k = Some v \<longleftrightarrow>
       (k, v) \<in> split2 CHR ''='' ` set (env_List ord env) \<and> CHR ''='' \<notin> set k)"
proof -
  have "(k, v) \<in> split2 CHR ''='' ` set (env_List ord env)" if "map_of env k = Some v" for k v
  proof -
    have "CHR ''='' \<notin> set k" using that assms(2) by (force dest: map_of_SomeD)
    then have "split2 CHR ''='' (env_format k v) = (k, v)"
      by (simp add: env_format_def split2_append)
    with that assms(1) show ?thesis by (force simp: set_env_List)
  qed
  moreover have "map_of env k = Some v"
    if mem: "(k, v) \<in> split2 CHR ''='' ` set (env_List ord env)" for k v
  proof -
    obtain e where e: "e \<in> set (env_List ord env)" "(k, v) = split2 CHR ''='' e"
      using mem by blast
    then obtain k' v' where kv: "map_of env k' = Some v'" "(k, v) = split2 CHR ''='' (env_format k' v')"
      unfolding set_env_List [OF assms(1)] by blast
    have "CHR ''='' \<notin> set k'" using kv(1) assms(2) by (force dest: map_of_SomeD)
    with kv show ?thesis by (simp add: env_format_def split2_append)
  qed
  moreover have "CHR ''='' \<notin> set k" if "map_of env k = Some v" for k v
    using that assms(2) by (force dest: map_of_SomeD)
  moreover have "sorted (env_List ord env)"
    by (simp add: env_List_def)
  moreover have "env_List ord env = env_List ord' env" "length (env_List ord env) = length env"
    using assms(1) by (simp_all add: env_List_unordered)
  ultimately show ?thesis by blast
qed

theorem env_list_faithful_witness:
  "env_List rev [(''B'', ''2=3''), (''A'', ''1'')] = [''A=1'', ''B=2=3''] \<and>
   split2 CHR ''='' ''B=2=3'' = (''B'', ''2=3'')"
proof -
  have "env_ok [(''B'', ''2=3''), (''A'', ''1'')]" by (simp add: env_ok_def)
  from env_list_faithful [OF this, of rev id]
  have "env_List rev [(''B'', ''2=3''), (''A'', ''1'')] = env_List id [(''B'', ''2=3''), (''A'', ''1'')]"
    by simp
  also have "\<dots> = [''A=1'', ''B=2=3'']" by code_simp
  finally show ?thesis by (simp add: split2_def)
qed

section \<open>Variables from the user\<close>

lemma parse_loop_Inr:
  "parse_user_env_loop vc keys env = Inr env' \<Longrightarrow> env_ok env \<Longrightarrow>
     env_ok env' \<and> (\<forall>n. mountpointEnvPrefix @ n \<in> set keys \<longrightarrow> n \<in> set userEnvAllowlist) \<and>
     (\<forall>n. map_of env' n =
        (if mountpointEnvPrefix @ n \<in> set keys
         then Some (go_lookup (map_of vc) (mountpointEnvPrefix @ n)) else map_of env n))"
proof (induction keys arbitrary: env)
  case (Cons key keys)
  show ?case
  proof (cases "cut_prefix key mountpointEnvPrefix")
    case None
    then have "key \<noteq> mountpointEnvPrefix @ n" for n
      using cut_prefix_Some [of key mountpointEnvPrefix n] by auto
    with Cons None show ?thesis by auto
  next
    case (Some m)
    then have key: "key = mountpointEnvPrefix @ m" by (simp add: cut_prefix_Some)
    with Cons Some show ?thesis
      by (auto simp: env_store.invar_put env_store.look_put split: if_splits)
  qed
qed simp

lemma parse_loop_ok:
  "\<forall>n. mountpointEnvPrefix @ n \<in> set keys \<longrightarrow> n \<in> set userEnvAllowlist \<Longrightarrow>
     \<exists>env'. parse_user_env_loop vc keys env = Inr env'"
  by (induction keys arbitrary: env) (auto simp: cut_prefix_Some split: option.split)

text \<open>
  A volume's context sets environment variables of Mountpoint only through keys with the reserved
  prefix, and only variables of the allow list: with any other name the whole request is refused,
  whatever the iteration order. If it is accepted, the environment holds exactly those variables with
  the values given.
\<close>

theorem user_env_allow_listed:
  "(\<exists>env. ParseUserEnvFromVolumeContext ord vc = Inr env) =
     (\<forall>n. mountpointEnvPrefix @ n \<in> fst ` set vc \<longrightarrow> n \<in> {EnvHTTPSProxy, EnvNoProxy}) \<and>
   (\<forall>env. ParseUserEnvFromVolumeContext ord vc = Inr env \<longrightarrow>
      env_ok env \<and> (\<forall>n. map_of env n = map_of vc (mountpointEnvPrefix @ n)))"
proof -
  have look: "(if k \<in> fst ` set vc then Some (go_lookup (map_of vc) k) else None) = map_of vc k" for k
    using map_of_eq_None_iff [of vc k] by (cases "map_of vc k") (simp_all add: go_lookup_def)
  have keys: "set (go_range ord (map fst vc)) = fst ` set vc" by simp
  have allow: "set userEnvAllowlist = {EnvHTTPSProxy, EnvNoProxy}"
    by (simp add: userEnvAllowlist_def)
  note Inr = parse_loop_Inr [of vc "go_range ord (map fst vc)" "[]", unfolded keys allow,
      OF _ env_ok_Nil]
  note ok = parse_loop_ok [of "go_range ord (map fst vc)" vc "[]", unfolded keys allow]
  have val: "map_of env n = map_of vc (mountpointEnvPrefix @ n)"
    if "parse_user_env_loop vc (go_range ord (map fst vc)) [] = Inr env" for env n
    using Inr [OF that] look [of "mountpointEnvPrefix @ n"] unfolding map_of.simps by metis
  show ?thesis
    unfolding ParseUserEnvFromVolumeContext_def using Inr ok val by meson
qed

theorem user_env_allow_listed_witness:
  "\<exists>env. ParseUserEnvFromVolumeContext rev
       [(''bucketName'', ''b''), (''mountpointEnv.NO_PROXY'', ''x'')] = Inr env \<and>
     map_of env ''NO_PROXY'' = Some ''x''"
proof -
  let ?vc = "[(''bucketName'', ''b''), (''mountpointEnv.NO_PROXY'', ''x'')]"
  have "n \<in> {EnvHTTPSProxy, EnvNoProxy}" if "mountpointEnvPrefix @ n \<in> fst ` set ?vc" for n
    using that by (auto simp: mountpointEnvPrefix_def EnvNoProxy_def)
  then obtain env where env: "ParseUserEnvFromVolumeContext rev ?vc = Inr env"
    using user_env_allow_listed [of rev ?vc] by blast
  then have "map_of env ''NO_PROXY'' = map_of ?vc (mountpointEnvPrefix @ ''NO_PROXY'')"
    using user_env_allow_listed [of rev ?vc] by blast
  with env show ?thesis by (simp add: mountpointEnvPrefix_def)
qed

end
