(* ===== verification/Node_World.thy ===== *)
theory Node_World
  imports K8s Paths Env "HOL-Library.Word"
begin

text \<open>
  The world of the node component: the file system, the mount table, the Mountpoint Pods it watches
  and the processes it talks to. As on the controller's side it is a parameter: a record \<open>world\<close>
  with one function per call that gives the answer from what was called before, so that a theorem
  about every \<open>world\<close> covers every behaviour of the operating system and of concurrent processes.
  Each call is recorded with its answer.

  Waiting is part of the world too: \<open>polls\<close> says how often a polling loop gets to run before its
  context expires, and \<open>schedule\<close> in which order two concurrent polling loops run.
\<close>

section \<open>Errors\<close>

datatype os_error = ErrNotExist | ErrExist | OtherOsError string

datatype node_error =
    OsErr os_error
  | NWrapped string node_error          \<comment> \<open>formatted with the \<^verbatim>\<open>%w\<close> verb: the cause stays visible\<close>
  | NMessage string                     \<comment> \<open>formatted with \<^verbatim>\<open>%v\<close>: only the text is left\<close>
  | NJoined "node_error list"
  | NStatus string string               \<comment> \<open>a gRPC status\<close>
  | NApi api_error
  | ErrMissingTarget
  | ErrMountpointStillInUse
  | ErrDeadlineExceeded
  | ErrPodNotFound
  | ErrPodNotReady
  | ErrPodUnschedulable
  | ErrTarget target_error
  | ErrInvalidCredentials
  | ErrMissingRoleAnnotation
  | ErrUnknownRegion
  | ErrMountKindMissing
  | ErrUnknownAuthenticationSource string

fun nerror_is :: "node_error \<Rightarrow> node_error \<Rightarrow> bool"
  and nerrors_is :: "node_error list \<Rightarrow> node_error \<Rightarrow> bool" where
  "nerror_is (NWrapped m e) t = (NWrapped m e = t \<or> nerror_is e t)"
| "nerror_is (NJoined es) t = (NJoined es = t \<or> nerrors_is es t)"
| "nerror_is e t = (e = t)"
| "nerrors_is [] t = False"
| "nerrors_is (e # es) t = (nerror_is e t \<or> nerrors_is es t)"

abbreviation is_not_exist :: "node_error \<Rightarrow> bool" where
  "is_not_exist e \<equiv> nerror_is e (OsErr ErrNotExist)"

text \<open>\<^verbatim>\<open>errors.Join\<close> of two or three errors, each of which may be nil.\<close>

definition njoin :: "node_error option list \<Rightarrow> node_error option" where
  "njoin es = (let present = [e. Some e \<leftarrow> es] in if present = [] then None else Some (NJoined present))"

section \<open>Calls\<close>

record send_options =
  opt_fd :: int
  opt_bucket :: string
  opt_args :: "string list"
  opt_env :: "string list"

text \<open>
  How a replacement of a file by a copy (\<^verbatim>\<open>util.ReplaceFile\<close>) ends: a failed one may leave the
  temporary file that it copied to.
\<close>

datatype replacement = Replaced | ReplaceFailed node_error "string option"

primrec replace_error :: "replacement \<Rightarrow> node_error option" where
  "replace_error Replaced = None" | "replace_error (ReplaceFailed e left) = Some e"

datatype node_event =
    NvStatx string "node_error option"
  | NvStat string "node_error option"
  | NvIsMountPoint string "node_error + bool"
  | NvListMounts "node_error + (string \<times> string) list"
  | NvMountRefs string "node_error + string list"
  | NvUnmount string "node_error option"
  | NvOpenFuse "node_error + int"
  | NvFileMode string "node_error + 32 word"
  | NvMount int string "64 word" string "node_error option"  \<comment> \<open>descriptor, target, flags, options\<close>
  | NvBindMount string string "node_error option"
  | NvMkdirAll string "node_error option"
  | NvMkdir string "node_error option"
  | NvRemove string "node_error option"
  | NvCreate string "node_error option"
  | NvReadDir string "node_error + (string \<times> bool) list"
  | NvReadFile string "node_error + string"
  | NvWriteFile string string "node_error option"
  | NvReplaceFile string string replacement
  | NvSend string send_options "node_error option"
  | NvCloseFd int "node_error option"
  | NvAddHandler "node_error option"
  | NvWatchEvents string "pod list"
  | NvGetPod string "node_error + pod"
  | NvListAttachments field_filters "node_error + s3pa list"
  | NvServiceAccount string string "node_error + strmap option"
  | NvRegionFromIMDS string
  | NvLock string
  | NvUnlock string

type_synonym nhistory = "node_event list" \<comment> \<open>latest call first\<close>

record world =
  on_statx :: "nhistory \<Rightarrow> string \<Rightarrow> node_error option"
  on_stat :: "nhistory \<Rightarrow> string \<Rightarrow> node_error option"
  on_is_mount_point :: "nhistory \<Rightarrow> string \<Rightarrow> node_error + bool"
  on_list_mounts :: "nhistory \<Rightarrow> node_error + (string \<times> string) list" \<comment> \<open>device and path\<close>
  on_mount_refs :: "nhistory \<Rightarrow> string \<Rightarrow> node_error + string list"
  on_unmount :: "nhistory \<Rightarrow> string \<Rightarrow> node_error option"
  on_open_fuse :: "nhistory \<Rightarrow> node_error + int"
  on_file_mode :: "nhistory \<Rightarrow> string \<Rightarrow> node_error + 32 word"
  on_mount :: "nhistory \<Rightarrow> string \<Rightarrow> 64 word \<Rightarrow> string \<Rightarrow> node_error option"
  on_bind_mount :: "nhistory \<Rightarrow> string \<Rightarrow> string \<Rightarrow> node_error option"
  on_mkdir_all :: "nhistory \<Rightarrow> string \<Rightarrow> node_error option"
  on_mkdir :: "nhistory \<Rightarrow> string \<Rightarrow> node_error option"
  on_remove :: "nhistory \<Rightarrow> string \<Rightarrow> node_error option"
  on_create :: "nhistory \<Rightarrow> string \<Rightarrow> node_error option"
  on_read_dir :: "nhistory \<Rightarrow> string \<Rightarrow> node_error + (string \<times> bool) list" \<comment> \<open>name, is it a directory\<close>
  on_read_file :: "nhistory \<Rightarrow> string \<Rightarrow> node_error + string"
  on_write_file :: "nhistory \<Rightarrow> string \<Rightarrow> string \<Rightarrow> node_error option"
  on_replace_file :: "nhistory \<Rightarrow> string \<Rightarrow> string \<Rightarrow> replacement"
  on_send :: "nhistory \<Rightarrow> string \<Rightarrow> send_options \<Rightarrow> node_error option"
  on_close_fd :: "nhistory \<Rightarrow> int \<Rightarrow> node_error option"
  on_add_handler :: "nhistory \<Rightarrow> node_error option"
  watch_events :: "nhistory \<Rightarrow> string \<Rightarrow> pod list"   \<comment> \<open>events delivered to a handler in a while\<close>
  deadline_wins :: "nhistory \<Rightarrow> bool"             \<comment> \<open>choice of a \<^verbatim>\<open>select\<close> with two ready cases\<close>
  on_watched_pod :: "nhistory \<Rightarrow> string \<Rightarrow> node_error + pod"
  on_list_attachments :: "nhistory \<Rightarrow> field_filters \<Rightarrow> node_error + s3pa list"
  on_service_account :: "nhistory \<Rightarrow> string \<Rightarrow> string \<Rightarrow> node_error + strmap option"
  region_from_imds :: "nhistory \<Rightarrow> string" \<comment> \<open>empty when the lookup failed\<close>
  corrupted_mount :: "node_error \<Rightarrow> bool"   \<comment> \<open>\<^verbatim>\<open>mountutils.IsCorruptedMnt\<close>\<close>
  polls :: "nhistory \<Rightarrow> nat"
  schedule :: "nhistory \<Rightarrow> bool list"
  node_range :: "nhistory \<Rightarrow> string list \<Rightarrow> string list" \<comment> \<open>order of a \<^verbatim>\<open>range\<close> over a map\<close>
  node_env :: getenv
  effective_uid :: int
  effective_gid :: int
  unicode_print :: "nat \<Rightarrow> bool"          \<comment> \<open>\<^verbatim>\<open>unicode.IsPrint\<close> above ASCII\<close>
  escape_name :: "string \<Rightarrow> string"       \<comment> \<open>\<^verbatim>\<open>k8sstrings.EscapeQualifiedName\<close>\<close>
  decode_tokens :: "string \<Rightarrow> strmap option" \<comment> \<open>the JSON of service account tokens, by audience\<close>

record node_state =
  ncalls :: nhistory

type_synonym 'a node = "(node_state, 'a) state"

definition node_call :: "(node_state \<Rightarrow> 'r) \<Rightarrow> ('r \<Rightarrow> node_event) \<Rightarrow> 'r node" where
  "node_call answer event =
     State (\<lambda>s. let r = answer s in (r, s\<lparr>ncalls := event r # ncalls s\<rparr>))"

definition node_read :: "(nhistory \<Rightarrow> 'r) \<Rightarrow> 'r node" where
  "node_read f = State (\<lambda>s. (f (ncalls s), s))"

lemma wp_node_call [wp]:
  "wp (node_call answer event) Q s \<longleftrightarrow> Q (answer s) (s\<lparr>ncalls := event (answer s) # ncalls s\<rparr>)"
  by (simp add: node_call_def wp_State Let_def)

lemma wp_node_read [wp]: "wp (node_read f) Q s \<longleftrightarrow> Q (f (ncalls s)) s"
  by (simp add: node_read_def wp_State)

abbreviation os_statx where "os_statx w p \<equiv> node_call (\<lambda>s. on_statx w (ncalls s) p) (NvStatx p)"
abbreviation os_stat where "os_stat w p \<equiv> node_call (\<lambda>s. on_stat w (ncalls s) p) (NvStat p)"
abbreviation os_is_mount_point where
  "os_is_mount_point w p \<equiv> node_call (\<lambda>s. on_is_mount_point w (ncalls s) p) (NvIsMountPoint p)"
abbreviation os_list_mounts where
  "os_list_mounts w \<equiv> node_call (\<lambda>s. on_list_mounts w (ncalls s)) NvListMounts"
abbreviation os_mount_refs where
  "os_mount_refs w p \<equiv> node_call (\<lambda>s. on_mount_refs w (ncalls s) p) (NvMountRefs p)"
abbreviation os_unmount where
  "os_unmount w p \<equiv> node_call (\<lambda>s. on_unmount w (ncalls s) p) (NvUnmount p)"
abbreviation os_open_fuse where
  "os_open_fuse w \<equiv> node_call (\<lambda>s. on_open_fuse w (ncalls s)) NvOpenFuse"
abbreviation os_file_mode where
  "os_file_mode w p \<equiv> node_call (\<lambda>s. on_file_mode w (ncalls s) p) (NvFileMode p)"
abbreviation os_mount where
  "os_mount w fd p flags opts \<equiv>
     node_call (\<lambda>s. on_mount w (ncalls s) p flags opts) (NvMount fd p flags opts)"
abbreviation os_bind_mount where
  "os_bind_mount w p q \<equiv> node_call (\<lambda>s. on_bind_mount w (ncalls s) p q) (NvBindMount p q)"
abbreviation os_mkdir_all where
  "os_mkdir_all w p \<equiv> node_call (\<lambda>s. on_mkdir_all w (ncalls s) p) (NvMkdirAll p)"
abbreviation os_mkdir where "os_mkdir w p \<equiv> node_call (\<lambda>s. on_mkdir w (ncalls s) p) (NvMkdir p)"
abbreviation os_remove where "os_remove w p \<equiv> node_call (\<lambda>s. on_remove w (ncalls s) p) (NvRemove p)"
abbreviation os_create where "os_create w p \<equiv> node_call (\<lambda>s. on_create w (ncalls s) p) (NvCreate p)"
abbreviation os_read_dir where
  "os_read_dir w p \<equiv> node_call (\<lambda>s. on_read_dir w (ncalls s) p) (NvReadDir p)"
abbreviation os_read_file where
  "os_read_file w p \<equiv> node_call (\<lambda>s. on_read_file w (ncalls s) p) (NvReadFile p)"
abbreviation os_write_file where
  "os_write_file w p c \<equiv> node_call (\<lambda>s. on_write_file w (ncalls s) p c) (NvWriteFile p c)"
abbreviation os_replace_file where
  "os_replace_file w p q \<equiv>
     State_Monad.bind (node_call (\<lambda>s. on_replace_file w (ncalls s) p q) (NvReplaceFile p q))
       (\<lambda>r. State_Monad.return (replace_error r))"
abbreviation send_mount_options where
  "send_mount_options w p opts \<equiv> node_call (\<lambda>s. on_send w (ncalls s) p opts) (NvSend p opts)"
abbreviation close_fd where
  "close_fd w fd \<equiv> node_call (\<lambda>s. on_close_fd w (ncalls s) fd) (NvCloseFd fd)"
abbreviation add_handler where
  "add_handler w \<equiv> node_call (\<lambda>s. on_add_handler w (ncalls s)) NvAddHandler"
abbreviation handler_events where
  "handler_events w n \<equiv> node_call (\<lambda>s. watch_events w (ncalls s) n) (NvWatchEvents n)"
abbreviation lister_get where
  "lister_get w n \<equiv> node_call (\<lambda>s. on_watched_pod w (ncalls s) n) (NvGetPod n)"
abbreviation cache_list where
  "cache_list w f \<equiv> node_call (\<lambda>s. on_list_attachments w (ncalls s) f) (NvListAttachments f)"
abbreviation get_sa where
  "get_sa w ns n \<equiv> node_call (\<lambda>s. on_service_account w (ncalls s) ns n) (NvServiceAccount ns n)"
abbreviation imds_region where
  "imds_region w \<equiv> node_call (\<lambda>s. region_from_imds w (ncalls s)) NvRegionFromIMDS"

abbreviation lock_event where "lock_event n \<equiv> node_call (\<lambda>s. ()) (\<lambda>u. NvLock n)"
abbreviation unlock_event where "unlock_event n \<equiv> node_call (\<lambda>s. ()) (\<lambda>u. NvUnlock n)"

section \<open>Polling\<close>

text \<open>
  \<^verbatim>\<open>wait.PollUntilContextCancel\<close> that runs its condition at once: the condition runs until it is
  done, fails, or the context expires.
\<close>

fun poll_until :: "nat \<Rightarrow> (node_error + bool) node \<Rightarrow> node_error option node" where
  "poll_until 0 cond = State_Monad.return (Some ErrDeadlineExceeded)"
| "poll_until (Suc n) cond = do {
     res \<leftarrow> cond;
     case res of
       Inl e \<Rightarrow> State_Monad.return (Some e)
     | Inr finished \<Rightarrow>
         if finished then State_Monad.return None else poll_until n cond }"

definition poll :: "world \<Rightarrow> (node_error + bool) node \<Rightarrow> node_error option node" where
  "poll w cond = do { n \<leftarrow> node_read (polls w); poll_until (Suc n) cond }"

section \<open>Guarded histories of the node\<close>

fun nguarded :: "(nhistory \<Rightarrow> node_event \<Rightarrow> bool) \<Rightarrow> nhistory \<Rightarrow> bool" where
  "nguarded G [] = True"
| "nguarded G (e # h) = (G h e \<and> nguarded G h)"

lemma preserves_node_call:
  "(\<And>s. I s \<Longrightarrow> I (s\<lparr>ncalls := event (answer s) # ncalls s\<rparr>)) \<Longrightarrow>
     preserves I (node_call answer event)"
  by (simp add: preserves_def wp)

lemma preserves_node_read [pres]: "preserves I (node_read f)"
  by (simp add: preserves_def wp)

lemma preserves_poll_until: "preserves I cond \<Longrightarrow> preserves I (poll_until n cond)"
  by (induction n) (auto intro!: pres)

lemma preserves_poll: "preserves I cond \<Longrightarrow> preserves I (poll w cond)"
  unfolding poll_def by (intro pres preserves_poll_until)

section \<open>What a run adds to the history\<close>

definition since :: "nhistory \<Rightarrow> nhistory \<Rightarrow> nhistory" where
  "since h h' = take (length h' - length h) h'"

definition adds_only :: "(node_event \<Rightarrow> bool) \<Rightarrow> nhistory \<Rightarrow> node_state \<Rightarrow> bool" where
  "adds_only P h s \<longleftrightarrow> (\<exists>new. ncalls s = new @ h \<and> (\<forall>e \<in> set new. P e))"

lemma since_append [simp]: "since h (new @ h) = new"
  by (simp add: since_def)

lemma since_Cons [simp]: "since h (e # new @ h) = e # new"
  using since_append [of h "e # new"] by simp

lemma since_same [simp]: "since h h = []"
  by (simp add: since_def)

lemma adds_only_refl [simp]: "adds_only P (ncalls s) s"
  by (simp add: adds_only_def)

lemma adds_only_since: "adds_only P h s \<Longrightarrow> e \<in> set (since h (ncalls s)) \<Longrightarrow> P e"
  by (auto simp: adds_only_def)

lemma adds_only_call: "adds_only P h s \<Longrightarrow> P e \<Longrightarrow> adds_only P h (s\<lparr>ncalls := e # ncalls s\<rparr>)"
  by (auto simp: adds_only_def)

lemma preserves_adds_call:
  "(\<And>r. P (event r)) \<Longrightarrow> preserves (adds_only P h) (node_call answer event)"
  by (intro preserves_node_call adds_only_call)

lemma adds_only_run:
  assumes "preserves (adds_only P (ncalls s)) m"
  shows "adds_only P (ncalls s) (snd (run_state m s))"
  using preserves_snd [OF assms] by simp

section \<open>What a run returns and adds\<close>

text \<open>
  \<open>runs m R\<close>: from every state, \<open>m\<close> only adds calls to the history, and its result and the calls it
  added (latest first) satisfy \<open>R\<close>.
\<close>

named_theorems runs "rules for results and added calls"

definition runs :: "'a node \<Rightarrow> ('a \<Rightarrow> nhistory \<Rightarrow> bool) \<Rightarrow> bool" where
  "runs m R \<longleftrightarrow> (\<forall>s. wp m (\<lambda>r s'. \<exists>new. s' = s\<lparr>ncalls := new @ ncalls s\<rparr> \<and> R r new) s)"

lemma runs_mono: "runs m S \<Longrightarrow> (\<And>r new. S r new \<Longrightarrow> R r new) \<Longrightarrow> runs m R"
  unfolding runs_def by (blast intro: wp_mono)

lemma runs_return [runs]: "R a [] \<Longrightarrow> runs (State_Monad.return a) R"
  by (auto simp: runs_def wp intro: exI [of _ "[]"])

lemma runs_call [runs]: "(\<And>r. R r [event r]) \<Longrightarrow> runs (node_call answer event) R"
  unfolding runs_def wp by (auto intro: exI [of _ "[_]"])

lemma runs_read: "(\<And>r. R r []) \<Longrightarrow> runs (node_read f) R"
  by (auto simp: runs_def wp intro: exI [of _ "[]"])

lemma runs_bind:
  assumes m: "runs m S" and f: "\<And>a new. S a new \<Longrightarrow> runs (f a) (\<lambda>r later. R r (later @ new))"
  shows "runs (State_Monad.bind m f) R"
  unfolding runs_def wp_bind
proof
  fix s
  have "wp m (\<lambda>a s'. \<exists>new. s' = s\<lparr>ncalls := new @ ncalls s\<rparr> \<and> S a new) s"
    using m by (simp add: runs_def)
  then show "wp m (\<lambda>a. wp (f a) (\<lambda>r s'. \<exists>new. s' = s\<lparr>ncalls := new @ ncalls s\<rparr> \<and> R r new)) s"
  proof (rule wp_mono, elim exE conjE)
    fix a s' new
    assume s': "s' = s\<lparr>ncalls := new @ ncalls s\<rparr>" and S: "S a new"
    have "wp (f a) (\<lambda>r t. \<exists>later. t = s'\<lparr>ncalls := later @ ncalls s'\<rparr> \<and> R r (later @ new)) s'"
      using f [OF S] unfolding runs_def by blast
    then show "wp (f a) (\<lambda>r t. \<exists>new. t = s\<lparr>ncalls := new @ ncalls s\<rparr> \<and> R r new) s'"
    proof (rule wp_mono, elim exE conjE)
      fix r t later
      assume "t = s'\<lparr>ncalls := later @ ncalls s'\<rparr>" and "R r (later @ new)"
      then have "t = s\<lparr>ncalls := (later @ new) @ ncalls s\<rparr> \<and> R r (later @ new)" by (simp add: s')
      then show "\<exists>new. t = s\<lparr>ncalls := new @ ncalls s\<rparr> \<and> R r new" by blast
    qed
  qed
qed

lemma runs_bind_call [runs]:
  "(\<And>a. runs (f a) (\<lambda>r later. R r (later @ [event a]))) \<Longrightarrow>
     runs (State_Monad.bind (node_call answer event) f) R"
  by (rule runs_bind [where S = "\<lambda>a new. new = [event a]"]) (auto intro: runs)

lemma runs_bind_return [runs]: "runs (f a) R \<Longrightarrow> runs (State_Monad.bind (State_Monad.return a) f) R"
  by (rule runs_bind [where S = "\<lambda>x new. x = a \<and> new = []"]) (auto intro: runs)

lemma runs_bind_read [runs]:
  "(\<And>a. runs (f a) R) \<Longrightarrow> runs (State_Monad.bind (node_read g) f) R"
  by (rule runs_bind [where S = "\<lambda>a new. new = []"]) (auto intro: runs_read)

lemma runs_if [runs]: "(b \<Longrightarrow> runs m R) \<Longrightarrow> (\<not> b \<Longrightarrow> runs n R) \<Longrightarrow> runs (if b then m else n) R"
  by simp

lemma runs_let [runs]: "(\<And>y. y = x \<Longrightarrow> runs (f y) R) \<Longrightarrow> runs (let y = x in f y) R"
  by simp

lemma runs_option [runs]:
  "(x = None \<Longrightarrow> runs m R) \<Longrightarrow> (\<And>y. x = Some y \<Longrightarrow> runs (f y) R) \<Longrightarrow>
     runs (case x of None \<Rightarrow> m | Some y \<Rightarrow> f y) R"
  by (simp split: option.split)

lemma runs_sum [runs]:
  "(\<And>y. x = Inl y \<Longrightarrow> runs (f y) R) \<Longrightarrow> (\<And>y. x = Inr y \<Longrightarrow> runs (g y) R) \<Longrightarrow>
     runs (case x of Inl y \<Rightarrow> f y | Inr y \<Rightarrow> g y) R"
  by (simp split: sum.split)

lemma runs_prod [runs]:
  "(\<And>y z. x = (y, z) \<Longrightarrow> runs (f y z) R) \<Longrightarrow> runs (case x of (y, z) \<Rightarrow> f y z) R"
  by (simp split: prod.split)

lemma runs_run:
  assumes "runs m R" "run_state m s = (r, s')"
  shows "R r (since (ncalls s) (ncalls s')) \<and> ncalls s' = since (ncalls s) (ncalls s') @ ncalls s"
proof -
  have "wp m (\<lambda>r s'. \<exists>new. s' = s\<lparr>ncalls := new @ ncalls s\<rparr> \<and> R r new) s"
    using assms(1) by (simp add: runs_def)
  from wp_runD [OF this assms(2)] show ?thesis by auto
qed

lemma runs_adds_only:
  assumes "runs m (\<lambda>_ new. \<forall>e \<in> set new. P e)"
  shows "preserves (adds_only P h) m"
proof (rule preservesI)
  fix s
  assume "adds_only P h s"
  then obtain old where old: "ncalls s = old @ h" "\<forall>e \<in> set old. P e"
    by (auto simp: adds_only_def)
  have "wp m (\<lambda>r s'. \<exists>new. s' = s\<lparr>ncalls := new @ ncalls s\<rparr> \<and> (\<forall>e \<in> set new. P e)) s"
    using assms by (simp add: runs_def)
  then show "wp m (\<lambda>_. adds_only P h) s"
    by (rule wp_mono) (use old in \<open>fastforce simp: adds_only_def\<close>)
qed

lemma adds_only_runs:
  assumes "\<And>h. preserves (adds_only P h) m"
  shows "runs m (\<lambda>_ new. \<forall>e \<in> set new. P e)"
  unfolding runs_def
proof
  fix s
  have "wp m (\<lambda>_. adds_only P (ncalls s)) s"
    using assms by (rule preservesD) simp
  then show "wp m (\<lambda>_ s'. \<exists>new. s' = s\<lparr>ncalls := new @ ncalls s\<rparr> \<and> (\<forall>e \<in> set new. P e)) s"
  proof (rule wp_mono)
    fix r s'
    assume "adds_only P (ncalls s) s'"
    then obtain new where "ncalls s' = new @ ncalls s" "\<forall>e \<in> set new. P e"
      by (auto simp: adds_only_def)
    moreover have "s' = s\<lparr>ncalls := ncalls s'\<rparr>" by (cases s, cases s') simp
    ultimately show "\<exists>new. s' = s\<lparr>ncalls := new @ ncalls s\<rparr> \<and> (\<forall>e \<in> set new. P e)" by metis
  qed
qed

lemma nguarded_append:
  "nguarded G (later @ new) \<longleftrightarrow> nguarded (\<lambda>h. G (h @ new)) later \<and> nguarded G new"
  by (induction later) auto

lemma nguarded_all: "(\<And>h e. e \<in> set new \<Longrightarrow> G h e) \<Longrightarrow> nguarded G new"
  by (induction new) auto

lemma nguarded_mono:
  assumes "nguarded G new" "\<And>h e. set h \<subseteq> set new \<Longrightarrow> e \<in> set new \<Longrightarrow> G h e \<Longrightarrow> H h e"
  shows "nguarded H new"
proof -
  have "nguarded G later \<Longrightarrow> set later \<subseteq> set new \<Longrightarrow> nguarded H later" for later
    by (induction later) (use assms(2) in auto)
  with assms(1) show ?thesis by simp
qed

lemma nguarded_True [simp]: "nguarded (\<lambda>h e. True) new"
  by (simp add: nguarded_all)

section \<open>Holding the lock of a Mountpoint Pod\<close>

fun holds :: "string \<Rightarrow> nhistory \<Rightarrow> bool" where
  "holds n [] = False"
| "holds n (e # h) =
     (case e of NvLock m \<Rightarrow> m = n \<or> holds n h | NvUnlock m \<Rightarrow> m \<noteq> n \<and> holds n h | _ \<Rightarrow> holds n h)"

fun lock_call :: "node_event \<Rightarrow> bool" where
  "lock_call (NvLock m) = True"
| "lock_call (NvUnlock m) = True"
| "lock_call e = False"

lemma holds_append: "\<forall>e \<in> set new. \<not> lock_call e \<Longrightarrow> holds n (new @ h) = holds n h"
  by (induction new) (auto split: node_event.split)

end
