(* ===== verification/Runes.thy ===== *)
theory Runes
  imports Csi_Prelude
begin

text \<open>
  The code points of a Go string. Go ranges over the runes of a string, so tests of characters decode
  UTF-8; an invalid byte counts as the rune 65533.
\<close>

definition between :: "nat \<Rightarrow> nat \<Rightarrow> nat \<Rightarrow> bool" where "between a b x \<longleftrightarrow> a \<le> x \<and> x \<le> b"

text \<open>The rune at the head of a byte sequence and the number of further bytes it takes.\<close>

definition decode_rune :: "nat \<Rightarrow> nat list \<Rightarrow> nat \<times> nat" where
  "decode_rune b0 bs =
     (let cont = between 128 191; bad = (65533, 0);
          b1 = (case bs of x # _ \<Rightarrow> x | _ \<Rightarrow> 0);
          b2 = (case bs of _ # x # _ \<Rightarrow> x | _ \<Rightarrow> 0);
          b3 = (case bs of _ # _ # x # _ \<Rightarrow> x | _ \<Rightarrow> 0)
      in if b0 < 128 then (b0, 0)
         else if between 194 223 b0 then
           (if cont b1 then ((b0 - 192) * 64 + (b1 - 128), 1) else bad)
         else if between 224 239 b0 then
           (if between (if b0 = 224 then 160 else 128) (if b0 = 237 then 159 else 191) b1 \<and> cont b2
            then ((b0 - 224) * 4096 + (b1 - 128) * 64 + (b2 - 128), 2) else bad)
         else if between 240 244 b0 then
           (if between (if b0 = 240 then 144 else 128) (if b0 = 244 then 143 else 191) b1 \<and>
               cont b2 \<and> cont b3
            then ((b0 - 240) * 262144 + (b1 - 128) * 4096 + (b2 - 128) * 64 + (b3 - 128), 3) else bad)
         else bad)"

function runes :: "nat list \<Rightarrow> nat list" where
  "runes [] = []"
| "runes (b # bs) = (case decode_rune b bs of (r, n) \<Rightarrow> r # runes (drop n bs))"
  by pat_completeness auto
termination by (relation "measure length") auto

lemma decode_ascii: "b < 128 \<Longrightarrow> decode_rune b bs = (b, 0)"
  by (simp add: decode_rune_def)

lemma runes_ascii: "\<forall>b \<in> set bs. b < 128 \<Longrightarrow> runes bs = bs"
  by (induction bs) (simp_all add: decode_ascii)

lemma decode_skips_high:
  assumes "decode_rune b bs = (r, n)" "i < n"
  shows "i < length bs \<and> 128 \<le> bs ! i"
  using assms
  by (auto simp: decode_rune_def Let_def between_def less_Suc_eq nth_Cons'
      numeral_2_eq_2 numeral_3_eq_3 split: if_splits list.splits)
    (metis One_nat_def Suc_lessI length_greater_0_conv)+

lemma ascii_in_runes: "b \<in> set bs \<Longrightarrow> b < 128 \<Longrightarrow> b \<in> set (runes bs)"
proof (induction bs rule: runes.induct)
  case (2 c bs)
  obtain r n where d: "decode_rune c bs = (r, n)" by force
  show ?case
  proof (cases "b = c")
    case True
    with 2 show ?thesis by (simp add: decode_ascii)
  next
    case False
    with 2 obtain i where i: "i < length bs" "bs ! i = b" by (auto simp: in_set_conv_nth)
    then have "\<not> i < n"
      using decode_skips_high [OF d, of i] 2(3) by auto
    then have "b \<in> set (drop n bs)"
      using i by (auto simp: in_set_conv_nth intro!: exI [of _ "i - n"])
    with 2 d show ?thesis by auto
  qed
qed simp

end
