(* ===== verification/Aws_Profile.thy ===== *)
theory Aws_Profile
  imports Node_World Runes
begin

text \<open>
  \<^verbatim>\<open>pkg/driver/node/credentialprovider/awsprofile/aws_profile.go\<close>: the AWS profile written for
  long-term credentials. Go ranges over the runes of a string, so the validity test decodes UTF-8;
  which code points above ASCII are printable is Unicode's table, a parameter.
\<close>

section \<open>Printable characters\<close>

definition is_print :: "(nat \<Rightarrow> bool) \<Rightarrow> nat \<Rightarrow> bool" where
  "is_print unicode r = (if r < 128 then between 32 126 r else unicode r)"

definition isValidCredential :: "(nat \<Rightarrow> bool) \<Rightarrow> string \<Rightarrow> bool" where
  "isValidCredential unicode s \<longleftrightarrow> \<not> list_ex (\<lambda>r. \<not> is_print unicode r) (runes (map of_char s))"

section \<open>The profile\<close>

record profile =
  profile_name :: string
  config_filename :: string
  credentials_filename :: string

record credentials =
  access_key_id :: string
  secret_access_key :: string
  session_token :: string

record settings =
  basepath :: string
  settings_prefix :: string

definition awsProfileNameSuffix :: string where "awsProfileNameSuffix = ''s3-csi''"
definition awsProfileConfigFilenameSuffix :: string where
  "awsProfileConfigFilenameSuffix = ''s3-csi-config''"
definition awsProfileCredentialsFilenameSuffix :: string where
  "awsProfileCredentialsFilenameSuffix = ''s3-csi-credentials''"

definition isValid :: "(nat \<Rightarrow> bool) \<Rightarrow> credentials \<Rightarrow> bool" where
  "isValid unicode c \<longleftrightarrow> isValidCredential unicode (access_key_id c) \<and>
     isValidCredential unicode (secret_access_key c) \<and> isValidCredential unicode (session_token c)"

definition prefixed :: "settings \<Rightarrow> string \<Rightarrow> string" where
  "prefixed st sfx = settings_prefix st @ sfx"

definition settings_path :: "settings \<Rightarrow> string \<Rightarrow> string" where
  "settings_path st filename = path_join [basepath st, filename]"

definition prefixedPath :: "settings \<Rightarrow> string \<Rightarrow> string" where
  "prefixedPath st filename = settings_path st (prefixed st filename)"

definition newline :: char where "newline = char_of (10 :: nat)"

definition credentialsFileContents :: "string \<Rightarrow> credentials \<Rightarrow> string" where
  "credentialsFileContents name c =
     ''['' @ name @ '']'' @ [newline] @
     ''aws_access_key_id='' @ access_key_id c @ [newline] @
     ''aws_secret_access_key='' @ secret_access_key c @ [newline] @
     (if session_token c \<noteq> [] then ''aws_session_token='' @ session_token c @ [newline] else [])"

definition configFileContents :: "string \<Rightarrow> string" where
  "configFileContents name = ''[profile '' @ name @ '']'' @ [newline]"

definition aws_Create ::
    "world \<Rightarrow> (nat \<Rightarrow> bool) \<Rightarrow> settings \<Rightarrow> credentials \<Rightarrow> (node_error + profile) node" where
  "aws_Create w unicode st c =
     (if \<not> isValid unicode c then State_Monad.return (Inl ErrInvalidCredentials)
      else
        let name = prefixed st awsProfileNameSuffix;
            configFilename = prefixed st awsProfileConfigFilenameSuffix;
            credentialsFilename = prefixed st awsProfileCredentialsFilenameSuffix
        in do {
          err \<leftarrow> os_write_file w (settings_path st configFilename) (configFileContents name);
          case err of
            Some e \<Rightarrow> State_Monad.return
              (Inl (NMessage ''aws-profile: Failed to create config file''))
          | None \<Rightarrow> do {
              err \<leftarrow> os_write_file w (settings_path st credentialsFilename)
                (credentialsFileContents name c);
              State_Monad.return (case err of
                  Some e \<Rightarrow> Inl (NMessage ''aws-profile: Failed to create credentials file'')
                | None \<Rightarrow> Inr \<lparr>profile_name = name, config_filename = configFilename,
                    credentials_filename = credentialsFilename\<rparr>) } })"

definition aws_Cleanup :: "world \<Rightarrow> settings \<Rightarrow> node_error option node" where
  "aws_Cleanup w st = do {
     err \<leftarrow> os_remove w (prefixedPath st awsProfileConfigFilenameSuffix);
     if err \<noteq> None \<and> \<not> is_not_exist (the err)
     then State_Monad.return (Some (NMessage ''aws-profile: Failed to remove config file''))
     else do {
       err \<leftarrow> os_remove w (prefixedPath st awsProfileCredentialsFilenameSuffix);
       State_Monad.return
         (if err \<noteq> None \<and> \<not> is_not_exist (the err)
          then Some (NMessage ''aws-profile: Failed to remove credentials file'') else None) } }"

section \<open>A valid credential stays on its line\<close>

lemma isValidCredential_ascii:
  "\<forall>c \<in> set s. between 32 126 (of_char c) \<Longrightarrow> isValidCredential unicode s"
proof -
  assume a: "\<forall>c \<in> set s. between 32 126 (of_char c)"
  then have "\<forall>b \<in> set (map of_char s). b < (128 :: nat)" by (force simp: between_def)
  then have "runes (map of_char s) = map of_char s" by (rule runes_ascii)
  with a show ?thesis
    by (auto simp: isValidCredential_def list_ex_iff is_print_def between_def)
qed

lemma valid_no_newline: "isValidCredential unicode s \<Longrightarrow> newline \<notin> set s"
proof
  assume v: "isValidCredential unicode s" and n: "newline \<in> set s"
  then have "(10 :: nat) \<in> set (map of_char s)"
    by (force simp: newline_def image_iff)
  then have "(10 :: nat) \<in> set (runes (map of_char s))"
    by (rule ascii_in_runes) simp
  with v show False
    by (auto simp: isValidCredential_def list_ex_iff is_print_def between_def)
qed

text \<open>The lines of a file.\<close>

fun file_lines :: "string \<Rightarrow> string list" where
  "file_lines [] = []"
| "file_lines (c # s) =
     (if c = newline then [] # file_lines s
      else case file_lines s of [] \<Rightarrow> [[c]] | l # ls \<Rightarrow> (c # l) # ls)"

lemma file_lines_append:
  "newline \<notin> set l \<Longrightarrow> file_lines (l @ newline # s) = l # file_lines s"
  by (induction l) auto

lemma file_lines_four:
  assumes "newline \<notin> set l1" "newline \<notin> set l2" "newline \<notin> set l3" "newline \<notin> set l4"
  shows "file_lines (l1 @ [newline] @ l2 @ [newline] @ l3 @ [newline] @ (if b then l4 @ [newline] else [])) =
    [l1, l2, l3] @ (if b then [l4] else [])"
  using assms by (simp add: file_lines_append)

text \<open>
  C37: No credential breaks out of its line: with credentials that pass the validity test, and a
  profile name without a line break, the credentials file consists of the profile header and one
  line per credential, the session token's only if there is one.
\<close>

theorem credentials_file_lines:
  assumes "isValid unicode c" "newline \<notin> set name"
  shows "file_lines (credentialsFileContents name c) =
    [''['' @ name @ '']'', ''aws_access_key_id='' @ access_key_id c,
     ''aws_secret_access_key='' @ secret_access_key c] @
    (if session_token c \<noteq> [] then [''aws_session_token='' @ session_token c] else [])"
proof -
  have no: "newline \<notin> set (access_key_id c)" "newline \<notin> set (secret_access_key c)"
    "newline \<notin> set (session_token c)"
    using assms(1) by (auto simp: isValid_def dest: valid_no_newline)
  let ?l1 = "''['' @ name @ '']''" and ?l2 = "''aws_access_key_id='' @ access_key_id c"
    and ?l3 = "''aws_secret_access_key='' @ secret_access_key c"
    and ?l4 = "''aws_session_token='' @ session_token c"
  have n: "newline \<notin> set ?l1" "newline \<notin> set ?l2" "newline \<notin> set ?l3" "newline \<notin> set ?l4"
    using no assms(2) by (simp_all add: newline_def char_of_def)
  have "credentialsFileContents name c = ?l1 @ [newline] @ ?l2 @ [newline] @ ?l3 @ [newline] @
      (if session_token c \<noteq> [] then ?l4 @ [newline] else [])"
    by (simp only: credentialsFileContents_def append_assoc)
  with file_lines_four [OF n] show ?thesis by (simp only:)
qed

theorem credentials_file_lines_witness:
  "file_lines (credentialsFileContents ''p'' \<lparr>access_key_id = ''AKIA'', secret_access_key = ''s3cr'',
      session_token = []\<rparr>) =
    [''[p]'', ''aws_access_key_id=AKIA'', ''aws_secret_access_key=s3cr'']"
proof -
  let ?c = "\<lparr>access_key_id = ''AKIA'', secret_access_key = ''s3cr'', session_token = []\<rparr>"
  have "isValid (\<lambda>_. False) ?c"
    unfolding isValid_def
    by (intro conjI isValidCredential_ascii) (simp_all add: between_def)
  moreover have "newline \<notin> set ''p''" by (simp add: newline_def char_of_def)
  ultimately have "file_lines (credentialsFileContents ''p'' ?c) =
      [''['' @ ''p'' @ '']'', ''aws_access_key_id='' @ access_key_id ?c,
       ''aws_secret_access_key='' @ secret_access_key ?c] @
      (if session_token ?c \<noteq> [] then [''aws_session_token='' @ session_token ?c] else [])"
    by (rule credentials_file_lines)
  then show ?thesis by (simp only: credentials.simps append.simps simp_thms if_False)
qed

end
