(* ===== verification/Credentials.thy ===== *)
theory Credentials
  imports Aws_Profile Volume_Context
begin

text \<open>
  \<^verbatim>\<open>pkg/driver/node/credentialprovider\<close>: the credentials given to a Mountpoint and the files
  written for them. The decoder of the service account tokens' JSON, the escaping of names
  (\<^verbatim>\<open>k8sstrings.EscapeQualifiedName\<close>) and the answers of the file system, the API server
  and the instance metadata service belong to the \<open>world\<close>. In error messages the interpolated
  causes are left out.
\<close>

section \<open>Contexts\<close>

datatype mount_kind = MountKindUnspecified | MountKindPod | MountKindSystemd

record provide_ctx =
  pc_write_path :: string
  pc_env_path :: string
  pc_workload_pod_id :: string
  pc_mountpoint_pod_id :: string
  pc_volume_id :: string
  pc_mount_kind :: mount_kind
  pc_authentication_source :: string
  pc_pod_namespace :: string
  pc_service_account_tokens :: string
  pc_service_account_name :: string
  pc_service_account_eks_role_arn :: string
  pc_sts_region :: string
  pc_bucket_region :: string

record cleanup_ctx =
  cc_write_path :: string
  cc_pod_id :: string
  cc_volume_id :: string
  cc_mount_kind :: mount_kind

definition SetWriteAndEnvPath :: "string \<Rightarrow> string \<Rightarrow> provide_ctx \<Rightarrow> provide_ctx" where
  "SetWriteAndEnvPath writePath envPath p = p\<lparr>pc_write_path := writePath, pc_env_path := envPath\<rparr>"

definition SetServiceAccountEKSRoleARN :: "string \<Rightarrow> provide_ctx \<Rightarrow> provide_ctx" where
  "SetServiceAccountEKSRoleARN roleArn p = p\<lparr>pc_service_account_eks_role_arn := roleArn\<rparr>"

definition SetMountpointPodID :: "string \<Rightarrow> provide_ctx \<Rightarrow> provide_ctx" where
  "SetMountpointPodID mpPodUID p = p\<lparr>pc_mountpoint_pod_id := mpPodUID\<rparr>"

definition SetAsPodMountpoint :: "provide_ctx \<Rightarrow> provide_ctx" where
  "SetAsPodMountpoint p = p\<lparr>pc_mount_kind := MountKindPod\<rparr>"

definition SetAsSystemDMountpoint :: "provide_ctx \<Rightarrow> provide_ctx" where
  "SetAsSystemDMountpoint p = p\<lparr>pc_mount_kind := MountKindSystemd\<rparr>"

definition IsPodMountpoint :: "provide_ctx \<Rightarrow> bool" where
  "IsPodMountpoint p \<longleftrightarrow> pc_mount_kind p = MountKindPod"

definition ctx_IsSystemDMountpoint :: "provide_ctx \<Rightarrow> bool" where
  "ctx_IsSystemDMountpoint p \<longleftrightarrow> pc_mount_kind p = MountKindSystemd"

definition GetCredentialPodID :: "provide_ctx \<Rightarrow> string" where
  "GetCredentialPodID p =
     (if pc_mountpoint_pod_id p \<noteq> [] then pc_mountpoint_pod_id p else pc_workload_pod_id p)"

section \<open>Names of files\<close>

definition escapedVolumeIdentifier :: "world \<Rightarrow> string \<Rightarrow> string \<Rightarrow> string" where
  "escapedVolumeIdentifier w podID volumeID = escape_name w podID @ ''-'' @ escape_name w volumeID"

definition driverLevelLongTermCredentialsProfilePrefix :: "world \<Rightarrow> string \<Rightarrow> string \<Rightarrow> string" where
  "driverLevelLongTermCredentialsProfilePrefix w podID volumeID =
     escapedVolumeIdentifier w podID volumeID @ ''-''"

definition podLevelSTSWebIdentityServiceAccountTokenName :: "world \<Rightarrow> string \<Rightarrow> string \<Rightarrow> string" where
  "podLevelSTSWebIdentityServiceAccountTokenName w podID volumeID =
     escapedVolumeIdentifier w podID volumeID @ ''.token''"

definition podLevelEksPodIdentityServiceAccountTokenName :: "world \<Rightarrow> string \<Rightarrow> string \<Rightarrow> string" where
  "podLevelEksPodIdentityServiceAccountTokenName w podID volumeID =
     escapedVolumeIdentifier w podID volumeID @ ''-eks-pod-identity.token''"

definition webIdentityServiceAccountTokenName :: string where
  "webIdentityServiceAccountTokenName = ''token''"
definition eksPodIdentityServiceAccountTokenName :: string where
  "eksPodIdentityServiceAccountTokenName = ''eks-pod-identity-token''"

definition serviceAccountTokenAudienceSTS :: string where
  "serviceAccountTokenAudienceSTS = ''sts.amazonaws.com''"
definition serviceAccountTokenAudiencePodIdentity :: string where
  "serviceAccountTokenAudiencePodIdentity = ''pods.eks.amazonaws.com''"
definition serviceAccountRoleAnnotation :: string where
  "serviceAccountRoleAnnotation = ''eks.amazonaws.com/role-arn''"
definition EnvPodIdentityAgentURI :: string where
  "EnvPodIdentityAgentURI = ''EKS_POD_IDENTITY_AGENT_CONTAINER_CREDENTIALS_FULL_URI''"

section \<open>Driver-level credentials\<close>

definition provideLongTermCredentialsFromDriver ::
    "world \<Rightarrow> provide_ctx \<Rightarrow> string \<Rightarrow> string \<Rightarrow> string \<Rightarrow> (node_error + environment) node" where
  "provideLongTermCredentialsFromDriver w p accessKeyID secretAccessKey sessionToken =
     (let prefix = driverLevelLongTermCredentialsProfilePrefix w (GetCredentialPodID p) (pc_volume_id p)
      in do {
        res \<leftarrow> aws_Create w (unicode_print w)
          \<lparr>basepath = pc_write_path p, settings_prefix = prefix\<rparr>
          \<lparr>access_key_id = accessKeyID, secret_access_key = secretAccessKey,
            session_token = sessionToken\<rparr>;
        State_Monad.return (case res of
            Inl e \<Rightarrow> Inl (NWrapped ''credentialprovider: long-term: failed to create aws profile'' e)
          | Inr awsProfile \<Rightarrow> Inr
              [(EnvProfile, profile_name awsProfile),
               (EnvConfigFile, path_join [pc_env_path p, config_filename awsProfile]),
               (EnvSharedCredentialsFile, path_join [pc_env_path p, credentials_filename awsProfile])]) })"

definition provideStsWebIdentityCredentialsFromDriver ::
    "world \<Rightarrow> provide_ctx \<Rightarrow> (node_error + environment) node" where
  "provideStsWebIdentityCredentialsFromDriver w p = do {
     err \<leftarrow> os_replace_file w (path_join [pc_write_path p, webIdentityServiceAccountTokenName])
       (node_env w EnvWebIdentityTokenFile);
     State_Monad.return (case err of
         Some e \<Rightarrow> Inl (NWrapped
           ''credentialprovider: sts-web-identity: failed to copy driver's service account token'' e)
       | None \<Rightarrow> Inr
           [(EnvRoleARN, node_env w EnvRoleARN),
            (EnvWebIdentityTokenFile, path_join [pc_env_path p, webIdentityServiceAccountTokenName])]) }"

definition provideContainerCredentialsFromDriver ::
    "world \<Rightarrow> provide_ctx \<Rightarrow> string \<Rightarrow> string \<Rightarrow> (node_error + environment) node" where
  "provideContainerCredentialsFromDriver w p containerAuthorizationTokenFile containerCredentialsFullURI =
   do {
     err \<leftarrow> os_replace_file w (path_join [pc_write_path p, eksPodIdentityServiceAccountTokenName])
       containerAuthorizationTokenFile;
     State_Monad.return (case err of
         Some e \<Rightarrow> Inl (NWrapped
           ''credentialprovider: container: failed to copy driver's service account token'' e)
       | None \<Rightarrow> Inr
           [(EnvContainerAuthorizationTokenFile,
              path_join [pc_env_path p, eksPodIdentityServiceAccountTokenName]),
            (EnvContainerCredentialsFullURI, containerCredentialsFullURI)]) }"

text \<open>The three stages of \<^verbatim>\<open>provideFromDriver\<close>, each merging into the environment so far.\<close>

definition driver_long_term_stage ::
    "world \<Rightarrow> provide_ctx \<Rightarrow> environment \<Rightarrow> (node_error + environment) node" where
  "driver_long_term_stage w p env =
     (let accessKeyID = node_env w EnvAccessKeyID; secretAccessKey = node_env w EnvSecretAccessKey in
      if accessKeyID \<noteq> [] \<and> secretAccessKey \<noteq> [] then do {
        res \<leftarrow> provideLongTermCredentialsFromDriver w p accessKeyID secretAccessKey
          (node_env w EnvSessionToken);
        State_Monad.return (map_sum id (env_Merge env) res) }
      else
        let configFile = node_env w EnvConfigFile;
            sharedCredentialsFile = node_env w EnvSharedCredentialsFile
        in State_Monad.return (Inr
             (if ctx_IsSystemDMountpoint p \<and> configFile \<noteq> [] \<and> sharedCredentialsFile \<noteq> []
              then env_Set EnvSharedCredentialsFile sharedCredentialsFile
                (env_Set EnvConfigFile configFile env)
              else env)))"

definition driver_irsa_stage ::
    "world \<Rightarrow> provide_ctx \<Rightarrow> environment \<Rightarrow> (node_error + environment) node" where
  "driver_irsa_stage w p env =
     (if node_env w EnvWebIdentityTokenFile \<noteq> [] \<and> node_env w EnvRoleARN \<noteq> [] then do {
        res \<leftarrow> provideStsWebIdentityCredentialsFromDriver w p;
        State_Monad.return (map_sum id (env_Merge env) res) }
      else State_Monad.return (Inr env))"

definition driver_container_stage ::
    "world \<Rightarrow> provide_ctx \<Rightarrow> environment \<Rightarrow> (node_error + environment) node" where
  "driver_container_stage w p env =
     (let tokenFile = node_env w EnvContainerAuthorizationTokenFile;
          fullURI = node_env w EnvContainerCredentialsFullURI
      in if IsPodMountpoint p \<and> tokenFile \<noteq> [] \<and> fullURI \<noteq> [] then do {
           res \<leftarrow> provideContainerCredentialsFromDriver w p tokenFile fullURI;
           State_Monad.return (map_sum id (env_Merge env) res) }
         else State_Monad.return (Inr env))"

definition provideFromDriver :: "world \<Rightarrow> provide_ctx \<Rightarrow> (node_error + environment) node" where
  "provideFromDriver w p = do {
     res \<leftarrow> driver_long_term_stage w p [];
     case res of
       Inl e \<Rightarrow> State_Monad.return (Inl e)
     | Inr env \<Rightarrow> do {
         res \<leftarrow> driver_irsa_stage w p env;
         case res of
           Inl e \<Rightarrow> State_Monad.return (Inl e)
         | Inr env \<Rightarrow> driver_container_stage w p env } }"

section \<open>Pod-level credentials\<close>

definition stsRegion :: "world \<Rightarrow> provide_ctx \<Rightarrow> (node_error + string) node" where
  "stsRegion w p =
     (if pc_sts_region p \<noteq> [] then State_Monad.return (Inr (pc_sts_region p))
      else if pc_bucket_region p \<noteq> [] then State_Monad.return (Inr (pc_bucket_region p))
      else if node_env w EnvRegion \<noteq> [] then State_Monad.return (Inr (node_env w EnvRegion))
      else if node_env w EnvDefaultRegion \<noteq> []
      then State_Monad.return (Inr (node_env w EnvDefaultRegion))
      else do {
        region \<leftarrow> imds_region w;
        State_Monad.return (if region \<noteq> [] then Inr region else Inl ErrUnknownRegion) })"

definition findPodServiceAccountRole :: "world \<Rightarrow> provide_ctx \<Rightarrow> (node_error + string) node" where
  "findPodServiceAccountRole w p =
     (if IsPodMountpoint p then
        State_Monad.return
          (if pc_service_account_eks_role_arn p \<noteq> [] then Inr (pc_service_account_eks_role_arn p)
           else Inl ErrMissingRoleAnnotation)
      else if pc_pod_namespace p = [] \<or> pc_service_account_name p = [] then
        State_Monad.return (Inl (NStatus ''InvalidArgument'' ''Missing Pod info''))
      else do {
        res \<leftarrow> get_sa w (pc_pod_namespace p) (pc_service_account_name p);
        State_Monad.return (case res of
            Inl e \<Rightarrow> Inl (NStatus ''InvalidArgument'' ''Failed to get pod's service account'')
          | Inr annotations \<Rightarrow>
              let roleArn = go_lookup_nil annotations serviceAccountRoleAnnotation
              in if roleArn = [] then Inl ErrMissingRoleAnnotation else Inr roleArn) })"

definition createIRSACredentialsEnvironment ::
    "world \<Rightarrow> provide_ctx \<Rightarrow> (node_error + environment) node" where
  "createIRSACredentialsEnvironment w p = do {
     res \<leftarrow> findPodServiceAccountRole w p;
     case res of
       Inl e \<Rightarrow> State_Monad.return (Inl e)
     | Inr roleARN \<Rightarrow> do {
         res \<leftarrow> stsRegion w p;
         State_Monad.return (case res of
             Inl e \<Rightarrow> Inl (NStatus ''InvalidArgument'' ''Failed to detect STS AWS Region'')
           | Inr region \<Rightarrow>
               let defaultRegion =
                     (if node_env w EnvDefaultRegion = [] then region else node_env w EnvDefaultRegion);
                   tokenName = podLevelSTSWebIdentityServiceAccountTokenName w
                     (GetCredentialPodID p) (pc_volume_id p)
               in Inr [(EnvRoleARN, roleARN),
                       (EnvWebIdentityTokenFile, path_join [pc_env_path p, tokenName]),
                       (EnvRegion, region), (EnvDefaultRegion, defaultRegion)]) } }"

definition createEKSPodIdentityCredentialsEnvironment ::
    "world \<Rightarrow> provide_ctx \<Rightarrow> node_error + environment" where
  "createEKSPodIdentityCredentialsEnvironment w p =
     (let tokenName = podLevelEksPodIdentityServiceAccountTokenName w
            (GetCredentialPodID p) (pc_volume_id p);
          uri = node_env w EnvPodIdentityAgentURI
      in if uri = [] then
           Inl (NStatus ''InvalidArgument'' ''Failed to detect pod identity agent configuration flag'')
         else Inr [(EnvContainerCredentialsFullURI, uri),
                   (EnvContainerAuthorizationTokenFile, path_join [pc_env_path p, tokenName])])"

definition pod_base_env :: "provide_ctx \<Rightarrow> environment" where
  "pod_base_env p =
     (let env = [(EnvEC2MetadataDisabled, ''true'')] in
      if ctx_IsSystemDMountpoint p then
        env_Set EnvSharedCredentialsFile (path_join [pc_env_path p, ''disable-credentials''])
          (env_Set EnvConfigFile (path_join [pc_env_path p, ''disable-config''])
            (env_Set EnvMountpointCacheKey (pc_pod_namespace p @ ''/'' @ pc_service_account_name p) env))
      else env)"

text \<open>Step 3 of \<^verbatim>\<open>provideFromPod\<close>: IRSA, or EKS Pod Identity when no role is annotated.\<close>

definition provide_pod_token ::
    "world \<Rightarrow> provide_ctx \<Rightarrow> string \<Rightarrow> string option \<Rightarrow> (node_error + environment) node" where
  "provide_pod_token w p stsToken eksToken =
     (let podID = GetCredentialPodID p; env = pod_base_env p in do {
        res \<leftarrow> createIRSACredentialsEnvironment w p;
        case res of
          Inr irsaEnv \<Rightarrow> do {
            err \<leftarrow> os_write_file w (path_join [pc_write_path p,
              podLevelSTSWebIdentityServiceAccountTokenName w podID (pc_volume_id p)]) stsToken;
            State_Monad.return (case err of
                Some e \<Rightarrow> Inl (NStatus ''Internal'' ''Failed to write service account STS token'')
              | None \<Rightarrow> Inr (env_Merge env irsaEnv)) }
        | Inl irsaErr \<Rightarrow>
            if \<not> nerror_is irsaErr ErrMissingRoleAnnotation then State_Monad.return (Inl irsaErr)
            else if ctx_IsSystemDMountpoint p then
              State_Monad.return (Inl (NStatus ''InvalidArgument''
                ''Missing role annotation on pod's service account''))
            else
              case createEKSPodIdentityCredentialsEnvironment w p of
                Inl e \<Rightarrow> State_Monad.return (Inl e)
              | Inr eksEnv \<Rightarrow> do {
                  err \<leftarrow> os_write_file w (path_join [pc_write_path p,
                    podLevelEksPodIdentityServiceAccountTokenName w podID (pc_volume_id p)]) (the eksToken);
                  State_Monad.return (case err of
                      Some e \<Rightarrow> Inl (NStatus ''Internal''
                        ''Failed to write service account EKS Pod Identity token'')
                    | None \<Rightarrow> Inr (env_Merge env eksEnv)) } })"

definition provideFromPod :: "world \<Rightarrow> provide_ctx \<Rightarrow> (node_error + environment) node" where
  "provideFromPod w p =
     (if GetCredentialPodID p = [] then
        State_Monad.return (Inl (NStatus ''InvalidArgument'' ''Missing Pod info''))
      else if pc_service_account_tokens p = [] then
        State_Monad.return (Inl (NStatus ''InvalidArgument'' ''Missing service account tokens''))
      else case decode_tokens w (pc_service_account_tokens p) of
        None \<Rightarrow> State_Monad.return
          (Inl (NStatus ''InvalidArgument'' ''Failed to parse service account tokens''))
      | Some tokens \<Rightarrow>
          case tokens serviceAccountTokenAudienceSTS of
            None \<Rightarrow> State_Monad.return (Inl (NStatus ''InvalidArgument''
              ''Missing service account token for sts.amazonaws.com''))
          | Some stsToken \<Rightarrow>
              let eksToken = tokens serviceAccountTokenAudiencePodIdentity in
              if IsPodMountpoint p \<and> eksToken = None then
                State_Monad.return (Inl (NStatus ''InvalidArgument''
                  ''Missing service account token for pods.eks.amazonaws.com''))
              else provide_pod_token w p stsToken eksToken)"

section \<open>Provide and Cleanup\<close>

text \<open>The authentication source is returned besides the error as well.\<close>

definition Provide :: "world \<Rightarrow> provide_ctx \<Rightarrow> ((node_error + environment) \<times> string) node" where
  "Provide w p =
     (if pc_mount_kind p = MountKindUnspecified then
        State_Monad.return (Inl ErrMountKindMissing, [])
      else
        let authenticationSource = pc_authentication_source p in
        if authenticationSource = AuthenticationSourcePod then do {
          res \<leftarrow> provideFromPod w p;
          State_Monad.return (res, AuthenticationSourcePod) }
        else if authenticationSource = AuthenticationSourceUnspecified \<or>
                authenticationSource = AuthenticationSourceDriver then do {
          res \<leftarrow> provideFromDriver w p;
          State_Monad.return (res, AuthenticationSourceDriver) }
        else State_Monad.return
          (Inl (ErrUnknownAuthenticationSource authenticationSource), AuthenticationSourceUnspecified))"

definition cleanupToken :: "world \<Rightarrow> string \<Rightarrow> string \<Rightarrow> node_error option node" where
  "cleanupToken w basePath tokenName = do {
     err \<leftarrow> os_remove w (path_join [basePath, tokenName]);
     State_Monad.return (if err \<noteq> None \<and> is_not_exist (the err) then None else err) }"

definition cleanupFromPod :: "world \<Rightarrow> cleanup_ctx \<Rightarrow> node_error option node" where
  "cleanupFromPod w c = do {
     errSTS \<leftarrow> cleanupToken w (cc_write_path c)
       (podLevelSTSWebIdentityServiceAccountTokenName w (cc_pod_id c) (cc_volume_id c));
     errEKS \<leftarrow> cleanupToken w (cc_write_path c)
       (podLevelEksPodIdentityServiceAccountTokenName w (cc_pod_id c) (cc_volume_id c));
     State_Monad.return (njoin
       [map_option (\<lambda>_. NStatus ''Internal'' ''Failed to cleanup service account STS token'') errSTS,
        map_option (\<lambda>_. NStatus ''Internal''
          ''Failed to cleanup service account EKS Pod Identity token'') errEKS]) }"

definition cleanupFromDriver :: "world \<Rightarrow> cleanup_ctx \<Rightarrow> node_error option node" where
  "cleanupFromDriver w c = do {
     errLongTerm \<leftarrow> aws_Cleanup w
       \<lparr>basepath = cc_write_path c,
         settings_prefix = driverLevelLongTermCredentialsProfilePrefix w (cc_pod_id c) (cc_volume_id c)\<rparr>;
     if cc_mount_kind c = MountKindPod then do {
       errSTS \<leftarrow> cleanupToken w (cc_write_path c) webIdentityServiceAccountTokenName;
       errEKS \<leftarrow> cleanupToken w (cc_write_path c) eksPodIdentityServiceAccountTokenName;
       State_Monad.return (njoin [errLongTerm,
         map_option (\<lambda>_. NStatus ''Internal''
           ''Failed to cleanup driver-level service account STS token'') errSTS,
         map_option (\<lambda>_. NStatus ''Internal''
           ''Failed to cleanup driver-level service account EKS Pod Identity token'') errEKS]) }
     else State_Monad.return (njoin [errLongTerm]) }"

definition cred_Cleanup :: "world \<Rightarrow> cleanup_ctx \<Rightarrow> node_error option node" where
  "cred_Cleanup w c =
     (if cc_mount_kind c = MountKindUnspecified then State_Monad.return (Some ErrMountKindMissing)
      else do {
        errPod \<leftarrow> cleanupFromPod w c;
        errDriver \<leftarrow> cleanupFromDriver w c;
        State_Monad.return (njoin [errPod, errDriver]) })"

section \<open>What is written where\<close>

definition sts_token_path :: "world \<Rightarrow> string \<Rightarrow> string \<Rightarrow> string \<Rightarrow> string" where
  "sts_token_path w dir pod vol =
     path_join [dir, podLevelSTSWebIdentityServiceAccountTokenName w pod vol]"

definition eks_token_path :: "world \<Rightarrow> string \<Rightarrow> string \<Rightarrow> string \<Rightarrow> string" where
  "eks_token_path w dir pod vol =
     path_join [dir, podLevelEksPodIdentityServiceAccountTokenName w pod vol]"

definition profile_path :: "world \<Rightarrow> string \<Rightarrow> string \<Rightarrow> string \<Rightarrow> string \<Rightarrow> string" where
  "profile_path w dir pod vol sfx =
     path_join [dir, driverLevelLongTermCredentialsProfilePrefix w pod vol @ sfx]"

definition credential_files :: "world \<Rightarrow> string \<Rightarrow> string \<Rightarrow> string \<Rightarrow> string list" where
  "credential_files w dir pod vol =
     [sts_token_path w dir pod vol, eks_token_path w dir pod vol,
      profile_path w dir pod vol awsProfileConfigFilenameSuffix,
      profile_path w dir pod vol awsProfileCredentialsFilenameSuffix,
      path_join [dir, webIdentityServiceAccountTokenName],
      path_join [dir, eksPodIdentityServiceAccountTokenName]]"

text \<open>
  Every call \<^verbatim>\<open>Provide\<close> is allowed to make. With pod-level credentials that is one
  token of the workload's own, in the file of its Pod and volume, and the two look-ups; with
  driver-level credentials the profile and the driver's own tokens.
\<close>

definition credential_call :: "world \<Rightarrow> provide_ctx \<Rightarrow> node_event \<Rightarrow> bool" where
  "credential_call w p e =
     (let dir = pc_write_path p; pod = GetCredentialPodID p; vol = pc_volume_id p;
          fromPod = (pc_authentication_source p = AuthenticationSourcePod);
          token = (\<lambda>audience c. \<exists>tokens. decode_tokens w (pc_service_account_tokens p) = Some tokens \<and>
            tokens audience = Some c);
          name = driverLevelLongTermCredentialsProfilePrefix w pod vol @ awsProfileNameSuffix
      in case e of
        NvWriteFile f c r \<Rightarrow>
          if fromPod then
            f = sts_token_path w dir pod vol \<and> token serviceAccountTokenAudienceSTS c \<or>
            f = eks_token_path w dir pod vol \<and> IsPodMountpoint p \<and>
              token serviceAccountTokenAudiencePodIdentity c
          else
            f = profile_path w dir pod vol awsProfileConfigFilenameSuffix \<and>
              c = configFileContents name \<or>
            f = profile_path w dir pod vol awsProfileCredentialsFilenameSuffix \<and>
              c = credentialsFileContents name \<lparr>access_key_id = node_env w EnvAccessKeyID,
                secret_access_key = node_env w EnvSecretAccessKey,
                session_token = node_env w EnvSessionToken\<rparr>
      | NvReplaceFile f src r \<Rightarrow> \<not> fromPod \<and>
          (f = path_join [dir, webIdentityServiceAccountTokenName] \<and>
             src = node_env w EnvWebIdentityTokenFile \<or>
           f = path_join [dir, eksPodIdentityServiceAccountTokenName] \<and> IsPodMountpoint p \<and>
             src = node_env w EnvContainerAuthorizationTokenFile)
      | NvServiceAccount ns n r \<Rightarrow> fromPod \<and> \<not> IsPodMountpoint p \<and>
          ns = pc_pod_namespace p \<and> n = pc_service_account_name p
      | NvRegionFromIMDS r \<Rightarrow> fromPod
      | _ \<Rightarrow> False)"

abbreviation (input) "calls_ok w p h \<equiv> adds_only (credential_call w p) h"

lemma aws_Create_calls:
  assumes "pc_authentication_source p \<noteq> AuthenticationSourcePod"
  shows "preserves (calls_ok w p h) (provideLongTermCredentialsFromDriver w p
    (node_env w EnvAccessKeyID) (node_env w EnvSecretAccessKey) (node_env w EnvSessionToken))"
  unfolding provideLongTermCredentialsFromDriver_def aws_Create_def Let_def
  by (intro pres preserves_adds_call)
    (use assms in \<open>simp_all add: credential_call_def Let_def profile_path_def settings_path_def prefixed_def\<close>)

lemma provideFromDriver_calls:
  assumes "pc_authentication_source p \<noteq> AuthenticationSourcePod"
  shows "preserves (calls_ok w p h) (provideFromDriver w p)"
  unfolding provideFromDriver_def driver_long_term_stage_def driver_irsa_stage_def
    driver_container_stage_def provideStsWebIdentityCredentialsFromDriver_def
    provideContainerCredentialsFromDriver_def Let_def
  by (intro pres aws_Create_calls assms preserves_adds_call)
    (use assms in \<open>simp_all add: credential_call_def Let_def\<close>)

lemma createIRSA_calls:
  assumes "pc_authentication_source p = AuthenticationSourcePod"
  shows "preserves (calls_ok w p h) (createIRSACredentialsEnvironment w p)"
  unfolding createIRSACredentialsEnvironment_def findPodServiceAccountRole_def stsRegion_def
  by (intro pres preserves_adds_call)
    (use assms in \<open>simp_all add: credential_call_def Let_def\<close>)

lemma provide_pod_token_calls:
  assumes "pc_authentication_source p = AuthenticationSourcePod" "pc_mount_kind p \<noteq> MountKindUnspecified"
    and tokens: "decode_tokens w (pc_service_account_tokens p) = Some tokens"
    and sts: "tokens serviceAccountTokenAudienceSTS = Some stsToken"
    and eks: "IsPodMountpoint p \<longrightarrow> tokens serviceAccountTokenAudiencePodIdentity \<noteq> None"
  shows "preserves (calls_ok w p h)
    (provide_pod_token w p stsToken (tokens serviceAccountTokenAudiencePodIdentity))"
proof -
  have kind: "ctx_IsSystemDMountpoint p \<longleftrightarrow> \<not> IsPodMountpoint p"
    using assms(2) by (cases "pc_mount_kind p") (simp_all add: IsPodMountpoint_def ctx_IsSystemDMountpoint_def)
  show ?thesis
    unfolding provide_pod_token_def Let_def
    by (intro pres createIRSA_calls assms(1) preserves_adds_call)
      (use assms kind in \<open>auto simp: credential_call_def Let_def sts_token_path_def eks_token_path_def\<close>)
qed

lemma Provide_calls: "preserves (calls_ok w p h) (Provide w p)"
  unfolding Provide_def provideFromPod_def Let_def
  by (intro pres provideFromDriver_calls provide_pod_token_calls)
    (auto simp: auth_source_consts)

text \<open>
  C34: Providing credentials touches only what belongs to the mount. In every run, against every file
  system and API server, with pod-level credentials the only file written is a token issued for the
  workload's own service account, stored under the name of its Pod and volume, and the driver's own
  tokens and keys are not copied; with driver-level credentials only the driver's profile and tokens
  are written, and the secret key goes into no file but the profile's credentials file. (A copy of a
  driver's token that fails can leave its temporary file.)
\<close>

theorem provide_calls_confined:
  "adds_only (credential_call w p) (ncalls s) (snd (run_state (Provide w p) s))"
  by (rule adds_only_run [OF Provide_calls])

end
