(* ===== verification/Example_World.thy ===== *)
theory Example_World
  imports Node_World
begin

text \<open>
  A concrete world, on which the theorems about the node are applied: every call succeeds, nothing
  is mounted, and the environment of the driver is a parameter.
\<close>

definition example_world :: "getenv \<Rightarrow> world" where
  "example_world env =
     \<lparr>on_statx = \<lambda>h p. None, on_stat = \<lambda>h p. None, on_is_mount_point = \<lambda>h p. Inr False, on_list_mounts = \<lambda>h. Inr [],
      on_mount_refs = \<lambda>h p. Inr [], on_unmount = \<lambda>h p. None, on_open_fuse = \<lambda>h. Inr 7, on_file_mode = \<lambda>h p. Inr 0x41ED, on_mount = \<lambda>h p flags opts. None,
      on_bind_mount = \<lambda>h p q. None, on_mkdir_all = \<lambda>h p. None, on_mkdir = \<lambda>h p. None,
      on_remove = \<lambda>h p. None, on_create = \<lambda>h p. None, on_read_dir = \<lambda>h p. Inr [],
      on_read_file = \<lambda>h p. Inl (OsErr ErrNotExist), on_write_file = \<lambda>h p c. None,
      on_replace_file = \<lambda>h p q. Replaced, on_send = \<lambda>h p opts. None, on_close_fd = \<lambda>h fd. None,
      on_add_handler = \<lambda>h. None,
      watch_events = \<lambda>h n. [], deadline_wins = \<lambda>h. False, on_watched_pod = \<lambda>h n. Inl (NApi NotFound),
      on_list_attachments = \<lambda>h f. Inr [], on_service_account = \<lambda>h ns n. Inr None,
      region_from_imds = \<lambda>h. [], corrupted_mount = \<lambda>e. False, polls = \<lambda>h. 0,
      schedule = \<lambda>h. [], node_range = \<lambda>h ks. ks, node_env = env, effective_uid = 0, effective_gid = 0, unicode_print = \<lambda>c. False,
      escape_name = map (\<lambda>c. if c = CHR ''/'' then CHR ''~'' else c),
      decode_tokens = \<lambda>json. Some [''sts.amazonaws.com'' \<mapsto> ''sts-token'',
        ''pods.eks.amazonaws.com'' \<mapsto> ''eks-token'']\<rparr>"

definition example_mountpoint_pod :: pod where
  "example_mountpoint_pod =
     \<lparr>pod_name = ''mp-1'', pod_generate_name = [], pod_namespace = ''mount-s3'', pod_uid = ''uid-1'',
      pod_labels = None, pod_annotations = None, deletion_timestamp = None, node_name = ''node-1'',
      service_account_name = [], pod_security_fs_group = None, pod_volumes = [],
      scheduling_gates = [], priority_class = [], restart_policy = [], grace_period = None,
      containers = [], node_affinity = [], pod_affinity = [], tolerations = [],
      phase = PodRunning, conditions = []\<rparr>"

definition start_state :: node_state where
  "start_state = \<lparr>ncalls = []\<rparr>"

lemma example_world_simps [simp]:
  "on_write_file (example_world env) h p c = None"
  "on_replace_file (example_world env) h p q = Replaced"
  "on_remove (example_world env) h p = None"
  "node_env (example_world env) = env"
  "escape_name (example_world env) = map (\<lambda>c. if c = CHR ''/'' then CHR ''~'' else c)"
  "decode_tokens (example_world env) json = Some [''sts.amazonaws.com'' \<mapsto> ''sts-token'',
        ''pods.eks.amazonaws.com'' \<mapsto> ''eks-token'']"
  by (simp_all add: example_world_def)

end
