(* ===== verification/Credential_Properties.thy ===== *)
theory Credential_Properties
  imports Credentials Example_World
begin

text \<open>
  What the credential provider guarantees: which environment a Mountpoint gets, that nothing is
  provided without a known mount kind and source, where the STS region comes from, that file names
  of different volumes differ, and that \<^verbatim>\<open>Cleanup\<close> removes what \<^verbatim>\<open>Provide\<close> wrote.
\<close>

section \<open>Cleanup\<close>

definition removed :: "nhistory \<Rightarrow> string \<Rightarrow> bool" where
  "removed h f \<longleftrightarrow> (\<exists>x. NvRemove f x \<in> set h \<and> (case x of None \<Rightarrow> True | Some e \<Rightarrow> is_not_exist e))"

lemma njoin_None [simp]: "njoin es = None \<longleftrightarrow> set es \<subseteq> {None}"
proof -
  have "[e. Some e \<leftarrow> es] = [] \<longleftrightarrow> set es \<subseteq> {None}"
    by (induction es) (auto split: option.split)
  then show ?thesis by (simp add: njoin_def Let_def)
qed

lemma removed_Cons: "removed (e # h) f \<longleftrightarrow> removed [e] f \<or> removed h f"
  and removed_append: "removed (a @ b) f \<longleftrightarrow> removed a f \<or> removed b f"
  by (auto simp: removed_def)

lemma removed_event: "x = None \<or> (\<exists>e. x = Some e \<and> is_not_exist e) \<Longrightarrow> removed [NvRemove f x] f"
  by (auto simp: removed_def)

text \<open>Each part reports an error or has removed its files.\<close>

lemma wp_cleanupToken:
  assumes "\<And>r e. (r = None \<Longrightarrow> removed [e] (path_join [dir, n])) \<Longrightarrow> Q r (s\<lparr>ncalls := e # ncalls s\<rparr>)"
  shows "wp (cleanupToken w dir n) Q s"
  unfolding cleanupToken_def wp
  by (rule assms, rule removed_event) (auto split: if_splits)

lemma wp_aws_Cleanup:
  assumes "\<And>r new. (r = None \<Longrightarrow> removed new (prefixedPath st awsProfileConfigFilenameSuffix) \<and>
      removed new (prefixedPath st awsProfileCredentialsFilenameSuffix)) \<Longrightarrow>
    Q r (s\<lparr>ncalls := new @ ncalls s\<rparr>)"
  shows "wp (aws_Cleanup w st) Q s"
proof -
  let ?p1 = "prefixedPath st awsProfileConfigFilenameSuffix"
    and ?p2 = "prefixedPath st awsProfileCredentialsFilenameSuffix"
  define x1 where "x1 = on_remove w (ncalls s) ?p1"
  define x2 where "x2 = on_remove w (NvRemove ?p1 x1 # ncalls s) ?p2"
  have one: "Q (Some e) (s\<lparr>ncalls := NvRemove ?p1 x1 # ncalls s\<rparr>)" for e
    using assms [of "Some e" "[NvRemove ?p1 x1]"] by simp
  have two: "Q r (s\<lparr>ncalls := NvRemove ?p2 x2 # NvRemove ?p1 x1 # ncalls s\<rparr>)"
    if "r = None \<Longrightarrow> removed [NvRemove ?p1 x1] ?p1 \<and> removed [NvRemove ?p2 x2] ?p2" for r
    using assms [of r "[NvRemove ?p2 x2, NvRemove ?p1 x1]"] that
    by (auto simp: removed_Cons [of _ "[_]"])
  have gone: "removed [NvRemove f x] f" if "\<not> (x \<noteq> None \<and> \<not> is_not_exist (the x))" for f x
    using that by (cases x) (auto intro: removed_event)
  have "wp (aws_Cleanup w st) Q s \<longleftrightarrow>
      (if x1 \<noteq> None \<and> \<not> is_not_exist (the x1)
       then Q (Some (NMessage ''aws-profile: Failed to remove config file''))
         (s\<lparr>ncalls := NvRemove ?p1 x1 # ncalls s\<rparr>)
       else Q (if x2 \<noteq> None \<and> \<not> is_not_exist (the x2)
           then Some (NMessage ''aws-profile: Failed to remove credentials file'') else None)
         (s\<lparr>ncalls := NvRemove ?p2 x2 # NvRemove ?p1 x1 # ncalls s\<rparr>))"
    unfolding aws_Cleanup_def wp by (simp add: x2_def x1_def)
  also have "\<dots>"
    by (simp only: one simp_thms if_True if_False split: if_split)
      (intro impI conjI two; auto intro!: gone split: if_splits)
  finally show ?thesis by simp
qed

lemma wp_cred_Cleanup:
  assumes pod: "cc_mount_kind c = MountKindPod"
    and Q: "\<And>r new. (r = None \<Longrightarrow> \<forall>f \<in> set (credential_files w (cc_write_path c) (cc_pod_id c)
        (cc_volume_id c)). removed new f) \<Longrightarrow> Q r (s\<lparr>ncalls := new @ ncalls s\<rparr>)"
  shows "wp (cred_Cleanup w c) Q s"
proof -
  let ?files = "set (credential_files w (cc_write_path c) (cc_pod_id c) (cc_volume_id c))"
  have fin: "Q r (s\<lparr>ncalls := e4 # e3 # new @ e2 # e1 # ncalls s\<rparr>)"
    if "r = None \<Longrightarrow> \<forall>f \<in> ?files. removed (e4 # e3 # new @ [e2, e1]) f" for r e1 e2 e3 e4 new
    using Q [of r "e4 # e3 # new @ [e2, e1]"] that by simp
  show ?thesis
    unfolding cred_Cleanup_def cleanupFromPod_def cleanupFromDriver_def wp
    using pod
    by (auto intro!: wp_cleanupToken wp_aws_Cleanup fin simp: wp credential_files_def sts_token_path_def
      eks_token_path_def profile_path_def prefixedPath_def settings_path_def prefixed_def
      removed_append removed_Cons [of _ "_ # _"] removed_Cons [of _ "_ @ _"])
qed

text \<open>The files a call may leave behind: a failed replacement leaves, if anything, its temporary file.\<close>

fun written_files :: "node_event \<Rightarrow> string set" where
  "written_files (NvWriteFile f c r) = {f}"
| "written_files (NvReplaceFile f src Replaced) = {f}"
| "written_files (NvReplaceFile f src (ReplaceFailed e left)) = set_option left"
| "written_files e = {}"

definition left_by_failed_replacement :: "node_event \<Rightarrow> string \<Rightarrow> bool" where
  "left_by_failed_replacement e f \<longleftrightarrow> (\<exists>dest src err. e = NvReplaceFile dest src (ReplaceFailed err (Some f)))"

lemma credential_call_written:
  "credential_call w p e \<Longrightarrow> f \<in> written_files e \<Longrightarrow> left_by_failed_replacement e f \<or>
     f \<in> set (credential_files w (pc_write_path p) (GetCredentialPodID p) (pc_volume_id p))"
  by (cases "e" rule: written_files.cases)
    (auto simp: credential_call_def Let_def credential_files_def left_by_failed_replacement_def split: if_splits)

definition example_ctx :: provide_ctx where
  "example_ctx =
     \<lparr>pc_write_path = ''/w'', pc_env_path = ''/e'', pc_workload_pod_id = ''w1'',
      pc_mountpoint_pod_id = ''m1'', pc_volume_id = ''v1'', pc_mount_kind = MountKindPod,
      pc_authentication_source = ''pod'', pc_pod_namespace = ''ns'',
      pc_service_account_tokens = ''{}'', pc_service_account_name = ''sa'',
      pc_service_account_eks_role_arn = ''role'', pc_sts_region = ''eu-west-1'',
      pc_bucket_region = []\<rparr>"

text \<open>
  C35: The files that \<^verbatim>\<open>Provide\<close> writes are cleaned up. Take any run of it for a Pod mount, successful
  or not, and any later run of \<^verbatim>\<open>Cleanup\<close> for the same directory, Pod and volume that reports
  no error: that run has itself removed, or found missing, every file the first one wrote, except for
  the temporary file that a failed copy of one of the driver's own tokens can leave in that directory, which
  nothing removes (\<^verbatim>\<open>File_Replace\<close> has that copy step by step).
\<close>

theorem provided_files_cleaned_up:
  assumes "e \<in> set (since (ncalls s) (ncalls (snd (run_state (Provide w p) s))))"
    and "f \<in> written_files e"
    and "cc_mount_kind c = MountKindPod" "cc_write_path c = pc_write_path p"
    "cc_pod_id c = GetCredentialPodID p" "cc_volume_id c = pc_volume_id p"
    and "run_state (cred_Cleanup w c) t = (None, t')"
  shows "removed (since (ncalls t) (ncalls t')) f \<or> left_by_failed_replacement e f"
proof -
  let ?files = "set (credential_files w (cc_write_path c) (cc_pod_id c) (cc_volume_id c))"
  have "adds_only (credential_call w p) (ncalls s) (snd (run_state (Provide w p) s))"
    by (rule adds_only_run [OF Provide_calls])
  then have "credential_call w p e"
    using assms(1) by (rule adds_only_since)
  then have f: "left_by_failed_replacement e f \<or> f \<in> ?files"
    using credential_call_written [OF _ assms(2)] assms(4-6) by simp
  have "wp (cred_Cleanup w c) (\<lambda>r u. \<exists>new. ncalls u = new @ ncalls t \<and>
      (r = None \<longrightarrow> (\<forall>f \<in> ?files. removed new f))) t"
    by (rule wp_cred_Cleanup [OF assms(3)]) auto
  from wp_runD [OF this assms(7)] f show ?thesis by auto
qed

theorem provided_files_cleaned_up_witness:
  "let w = example_world (\<lambda>_. []);
       c = \<lparr>cc_write_path = ''/w'', cc_pod_id = ''m1'', cc_volume_id = ''v1'', cc_mount_kind = MountKindPod\<rparr>
   in removed (since (ncalls start_state) (ncalls (snd (run_state (cred_Cleanup w c) start_state))))
        ''/w/m1-v1.token''"
proof -
  let ?w = "example_world (\<lambda>_. [])"
  let ?c = "\<lparr>cc_write_path = ''/w'', cc_pod_id = ''m1'', cc_volume_id = ''v1'', cc_mount_kind = MountKindPod\<rparr>"
  have "case run_state (Provide ?w example_ctx) start_state of ((res, src), s') \<Rightarrow>
      (case ncalls s' of [NvWriteFile f c r] \<Rightarrow> f = ''/w/m1-v1.token'' | _ \<Rightarrow> False)"
    by code_simp
  then obtain c r where e: "NvWriteFile ''/w/m1-v1.token'' c r \<in> set (since (ncalls start_state)
        (ncalls (snd (run_state (Provide ?w example_ctx) start_state))))"
    by (auto simp: start_state_def since_def split: prod.splits list.splits node_event.splits)
  have f: "''/w/m1-v1.token'' \<in> written_files (NvWriteFile ''/w/m1-v1.token'' c r)" by simp
  have "case run_state (cred_Cleanup ?w ?c) start_state of (r, s') \<Rightarrow> Option.is_none r"
    by code_simp
  then have run: "run_state (cred_Cleanup ?w ?c) start_state =
      (None, snd (run_state (cred_Cleanup ?w ?c) start_state))"
    by (auto simp: Option.is_none_def split: prod.splits)
  have "removed (since (ncalls start_state) (ncalls (snd (run_state (cred_Cleanup ?w ?c) start_state))))
      ''/w/m1-v1.token'' \<or> left_by_failed_replacement (NvWriteFile ''/w/m1-v1.token'' c r) ''/w/m1-v1.token''"
    by (rule provided_files_cleaned_up [OF e f _ _ _ _ run]) (simp_all add: example_ctx_def GetCredentialPodID_def)
  then show ?thesis by (simp add: left_by_failed_replacement_def)
qed

section \<open>Refusals and precedence\<close>

text \<open>
  Credentials are never provided for an unspecified mount kind or an unknown source: the request
  is refused, no file is touched and no server is asked.
\<close>

theorem unknown_source_refused:
  assumes "pc_mount_kind p = MountKindUnspecified \<or>
    pc_authentication_source p \<notin> {AuthenticationSourceUnspecified, AuthenticationSourceDriver,
      AuthenticationSourcePod}"
  shows "\<exists>e. run_state (Provide w p) s = ((Inl e, AuthenticationSourceUnspecified), s)"
  using assms by (auto simp: Provide_def Let_def AuthenticationSourceUnspecified_def)

theorem unknown_source_refused_witness:
  "\<exists>e. run_state (Provide (example_world (\<lambda>_. [])) (example_ctx\<lparr>pc_authentication_source := ''iam''\<rparr>))
     start_state = ((Inl e, AuthenticationSourceUnspecified), start_state)"
  by (rule unknown_source_refused) (simp add: auth_source_consts)

text \<open>
  The region for STS is the first non-empty one of: the volume's own setting, the region of the
  mount options, the two variables of the driver's environment. Only when all four are missing is the
  instance metadata asked, once, and only if that gives none either is it an error.
\<close>

theorem sts_region_precedence:
  "run_state (stsRegion w p) s =
     (case find (\<lambda>r. r \<noteq> []) [pc_sts_region p, pc_bucket_region p, node_env w EnvRegion,
          node_env w EnvDefaultRegion] of
        Some r \<Rightarrow> (Inr r, s)
      | None \<Rightarrow>
          let r = region_from_imds w (ncalls s)
          in (if r \<noteq> [] then Inr r else Inl ErrUnknownRegion,
              s\<lparr>ncalls := NvRegionFromIMDS r # ncalls s\<rparr>))"
  by (simp add: stsRegion_def node_call_def Let_def)

section \<open>Environments\<close>

lemma map_of_env_Set [simp]: "map_of (env_Set k v env) = (map_of env)(k \<mapsto> v)"
  by (simp add: env_Set_def update_conv')

lemma map_of_env_Merge_simps [simp]:
  "map_of (env_Merge env []) = map_of env"
  "map_of (env_Merge env ((k, v) # kvs)) = map_of (env_Merge (env_Set k v env) kvs)"
  by (simp_all add: env_Merge_def)

lemma wp_createIRSA:
  assumes "IsPodMountpoint p"
  shows "wp (createIRSACredentialsEnvironment w p) (\<lambda>r s'.
    if pc_service_account_eks_role_arn p = [] then r = Inl ErrMissingRoleAnnotation
    else (\<exists>m. r = Inl (NStatus ''InvalidArgument'' m)) \<or>
      (\<exists>region. region \<noteq> [] \<and> r = Inr
        [(EnvRoleARN, pc_service_account_eks_role_arn p),
         (EnvWebIdentityTokenFile, sts_token_path w (pc_env_path p) (GetCredentialPodID p) (pc_volume_id p)),
         (EnvRegion, region),
         (EnvDefaultRegion, if node_env w EnvDefaultRegion = [] then region
            else node_env w EnvDefaultRegion)])) s"
  using assms
  by (auto simp: createIRSACredentialsEnvironment_def findPodServiceAccountRole_def stsRegion_def wp
    sts_token_path_def)

text \<open>The environment of a Pod mount with pod-level credentials.\<close>

definition pod_environment :: "world \<Rightarrow> provide_ctx \<Rightarrow> environment \<Rightarrow> bool" where
  "pod_environment w p env =
     (let role = pc_service_account_eks_role_arn p; uri = node_env w EnvPodIdentityAgentURI;
          pod = GetCredentialPodID p; vol = pc_volume_id p
      in if role \<noteq> [] then
          \<exists>region. region \<noteq> [] \<and> map_of env =
            [EnvEC2MetadataDisabled \<mapsto> ''true'', EnvRoleARN \<mapsto> role,
             EnvWebIdentityTokenFile \<mapsto> sts_token_path w (pc_env_path p) pod vol,
             EnvRegion \<mapsto> region,
             EnvDefaultRegion \<mapsto> (if node_env w EnvDefaultRegion = [] then region
               else node_env w EnvDefaultRegion)]
        else
          uri \<noteq> [] \<and> map_of env =
            [EnvEC2MetadataDisabled \<mapsto> ''true'', EnvContainerCredentialsFullURI \<mapsto> uri,
             EnvContainerAuthorizationTokenFile \<mapsto> eks_token_path w (pc_env_path p) pod vol])"

lemma wp_provide_pod_token:
  assumes "IsPodMountpoint p"
  shows "wp (provide_pod_token w p sts eks) (\<lambda>r s'. \<forall>env. r = Inr env \<longrightarrow> pod_environment w p env) s"
  unfolding provide_pod_token_def Let_def wp_bind
proof (rule wp_mono [OF wp_createIRSA [OF assms]], goal_cases)
  case (1 r s')
  have base: "pod_base_env p = [(EnvEC2MetadataDisabled, ''true'')]"
    using assms by (simp add: pod_base_env_def IsPodMountpoint_def ctx_IsSystemDMountpoint_def)
  show ?case
  proof (cases "pc_service_account_eks_role_arn p = []")
    case True
    with 1 base show ?thesis
      by (auto simp: wp createEKSPodIdentityCredentialsEnvironment_def Let_def pod_environment_def
        eks_token_path_def split: option.splits)
  next
    case False
    with 1 base show ?thesis
      by (auto simp: wp pod_environment_def Let_def split: option.splits)
  qed
qed

text \<open>
  C36: What a Mountpoint Pod with pod-level credentials gets. If the service account is annotated with
  an IAM role, exactly the role, the path of the token written for this Pod and volume, the STS region
  and the default region; otherwise exactly the address of the EKS Pod Identity agent and the path of
  that token. In both cases the instance's own credentials are switched off, and nothing of the
  driver's identity is passed on.
\<close>

theorem pod_credentials_environment:
  assumes "run_state (Provide w p) s = ((Inr env, src), s')"
    and "pc_authentication_source p = AuthenticationSourcePod" "pc_mount_kind p = MountKindPod"
  shows "src = AuthenticationSourcePod \<and>
    pod_environment w p env"
proof -
  have pod: "IsPodMountpoint p" using assms(3) by (simp add: IsPodMountpoint_def)
  have "wp (provideFromPod w p) (\<lambda>r s'. \<forall>env. r = Inr env \<longrightarrow> pod_environment w p env) s"
    unfolding provideFromPod_def Let_def
    by (auto simp: wp wp_provide_pod_token [OF pod] split: option.split)
  then have "wp (Provide w p) (\<lambda>r s'. \<forall>env. fst r = Inr env \<longrightarrow>
      snd r = AuthenticationSourcePod \<and> pod_environment w p env) s"
    using assms(2,3) by (simp add: Provide_def wp) (erule wp_mono, simp add: wp)
  from wp_runD [OF this assms(1)] show ?thesis by simp
qed

theorem pod_credentials_environment_witness:
  "\<exists>env. fst (run_state (Provide (example_world (\<lambda>_. [])) example_ctx) start_state) =
      (Inr env, AuthenticationSourcePod) \<and>
    map_of env EnvRoleARN = Some ''role'' \<and> map_of env EnvProfile = None"
proof -
  let ?w = "example_world (\<lambda>_. [])"
  have "case run_state (Provide ?w example_ctx) start_state of ((res, src), s') \<Rightarrow> \<not> isl res"
    by code_simp
  then obtain env src s' where run: "run_state (Provide ?w example_ctx) start_state = ((Inr env, src), s')"
    by (auto split: prod.splits) (metis sum.collapse(2))
  have "src = AuthenticationSourcePod \<and> pod_environment ?w example_ctx env"
    by (rule pod_credentials_environment [OF run]) (simp_all add: example_ctx_def AuthenticationSourcePod_def)
  then have "src = AuthenticationSourcePod \<and>
      map_of env EnvRoleARN = Some ''role'' \<and> map_of env EnvProfile = None"
    by (auto simp: pod_environment_def example_ctx_def env_consts Let_def)
  with run show ?thesis by auto
qed

text \<open>
  The variables of the three driver-level sources; each contributes exactly if the driver is
  configured for it.
\<close>

definition profile_part :: "world \<Rightarrow> provide_ctx \<Rightarrow> strmap" where
  "profile_part w p =
     (let dir = pc_env_path p; pod = GetCredentialPodID p; vol = pc_volume_id p in
      if node_env w EnvAccessKeyID \<noteq> [] \<and> node_env w EnvSecretAccessKey \<noteq> [] then
        [EnvProfile \<mapsto> driverLevelLongTermCredentialsProfilePrefix w pod vol @ awsProfileNameSuffix,
         EnvConfigFile \<mapsto> profile_path w dir pod vol awsProfileConfigFilenameSuffix,
         EnvSharedCredentialsFile \<mapsto> profile_path w dir pod vol awsProfileCredentialsFilenameSuffix]
      else Map.empty)"

definition irsa_part :: "world \<Rightarrow> provide_ctx \<Rightarrow> strmap" where
  "irsa_part w p =
     (if node_env w EnvWebIdentityTokenFile \<noteq> [] \<and> node_env w EnvRoleARN \<noteq> [] then
        [EnvRoleARN \<mapsto> node_env w EnvRoleARN,
         EnvWebIdentityTokenFile \<mapsto> path_join [pc_env_path p, webIdentityServiceAccountTokenName]]
      else Map.empty)"

definition container_part :: "world \<Rightarrow> provide_ctx \<Rightarrow> strmap" where
  "container_part w p =
     (if node_env w EnvContainerAuthorizationTokenFile \<noteq> [] \<and>
         node_env w EnvContainerCredentialsFullURI \<noteq> [] then
        [EnvContainerAuthorizationTokenFile \<mapsto>
           path_join [pc_env_path p, eksPodIdentityServiceAccountTokenName],
         EnvContainerCredentialsFullURI \<mapsto> node_env w EnvContainerCredentialsFullURI]
      else Map.empty)"

abbreviation adds_part :: "environment \<Rightarrow> strmap \<Rightarrow> node_error + environment \<Rightarrow> node_state \<Rightarrow> bool" where
  "adds_part env part r s' \<equiv> (\<forall>env'. r = Inr env' \<longrightarrow> map_of env' = map_of env ++ part)"

lemma wp_long_term_stage:
  assumes "IsPodMountpoint p"
  shows "wp (driver_long_term_stage w p env) (adds_part env (profile_part w p)) s"
  using assms
  by (auto simp: driver_long_term_stage_def provideLongTermCredentialsFromDriver_def aws_Create_def
    wp Let_def profile_part_def IsPodMountpoint_def ctx_IsSystemDMountpoint_def prefixed_def profile_path_def
    split: option.split)

lemma wp_irsa_stage: "wp (driver_irsa_stage w p env) (adds_part env (irsa_part w p)) s"
  by (auto simp: driver_irsa_stage_def provideStsWebIdentityCredentialsFromDriver_def wp irsa_part_def
    split: option.split)

lemma wp_container_stage:
  assumes "IsPodMountpoint p"
  shows "wp (driver_container_stage w p env) (adds_part env (container_part w p)) s"
  using assms
  by (auto simp: driver_container_stage_def provideContainerCredentialsFromDriver_def wp Let_def
    container_part_def split: option.split)

lemma wp_provideFromDriver:
  assumes "IsPodMountpoint p"
  shows "wp (provideFromDriver w p)
    (adds_part [] (profile_part w p ++ irsa_part w p ++ container_part w p)) s"
  unfolding provideFromDriver_def wp_bind
proof (rule wp_mono [OF wp_long_term_stage [OF assms]], goal_cases)
  case (1 r s1)
  show ?case
  proof (cases r)
    case (Inr env1)
    with 1 have one: "map_of env1 = profile_part w p" by simp
    show ?thesis
      unfolding Inr sum.case wp_bind
    proof (rule wp_mono [OF wp_irsa_stage], goal_cases)
      case (1 r2 s2)
      show ?case
      proof (cases r2)
        case (Inr env2)
        with 1 one have "map_of env2 = profile_part w p ++ irsa_part w p" by simp
        then show ?thesis
          unfolding Inr sum.case
          by (intro wp_mono [OF wp_container_stage [OF assms]]) simp
      qed (simp add: wp)
    qed
  qed (simp add: wp)
qed

text \<open>
  What a Mountpoint Pod with driver-level credentials gets. Each of the three sources contributes
  its variables exactly if the driver is configured for it: the profile written from long-term keys,
  the role with the copied web identity token, the container credentials with the copied token. Nothing
  else is set; in particular the keys themselves are never in the environment.
\<close>

theorem driver_credentials_environment:
  assumes "run_state (Provide w p) s = ((Inr env, src), s')"
    and "pc_authentication_source p \<in> {AuthenticationSourceUnspecified, AuthenticationSourceDriver}"
    and "pc_mount_kind p = MountKindPod"
  shows "src = AuthenticationSourceDriver \<and>
    map_of env = profile_part w p ++ irsa_part w p ++ container_part w p \<and>
    map_of env EnvSecretAccessKey = None \<and> map_of env EnvSessionToken = None"
proof -
  have pod: "IsPodMountpoint p" using assms(3) by (simp add: IsPodMountpoint_def)
  have "wp (Provide w p) (\<lambda>r s'. \<forall>env. fst r = Inr env \<longrightarrow> snd r = AuthenticationSourceDriver \<and>
      map_of env = profile_part w p ++ irsa_part w p ++ container_part w p) s"
    using assms(2,3) wp_provideFromDriver [OF pod, of w s]
    by (auto simp: Provide_def wp auth_source_consts elim!: wp_mono)
  from wp_runD [OF this assms(1)]
  have env: "src = AuthenticationSourceDriver"
    "map_of env = profile_part w p ++ irsa_part w p ++ container_part w p" by simp_all
  let ?names = "[EnvProfile, EnvConfigFile, EnvSharedCredentialsFile, EnvRoleARN, EnvWebIdentityTokenFile,
      EnvContainerAuthorizationTokenFile, EnvContainerCredentialsFullURI]"
  have "dom (map_of env) \<subseteq> set ?names"
    unfolding env(2) by (auto simp: profile_part_def irsa_part_def container_part_def Let_def split: if_splits)
  moreover have "EnvSecretAccessKey \<notin> set ?names" "EnvSessionToken \<notin> set ?names"
    by (simp_all add: env_consts)
  ultimately have "map_of env EnvSecretAccessKey = None" "map_of env EnvSessionToken = None"
    by (auto simp: dom_def)
  with env show ?thesis by simp
qed

theorem driver_credentials_environment_witness:
  "\<exists>env. fst (run_state (Provide
        (example_world (\<lambda>k. if k = EnvWebIdentityTokenFile \<or> k = EnvRoleARN then ''x'' else []))
        (example_ctx\<lparr>pc_authentication_source := []\<rparr>)) start_state) =
      (Inr env, AuthenticationSourceDriver) \<and> map_of env EnvRoleARN = Some ''x''"
proof -
  let ?w = "example_world (\<lambda>k. if k = EnvWebIdentityTokenFile \<or> k = EnvRoleARN then ''x'' else [])"
  let ?p = "example_ctx\<lparr>pc_authentication_source := []\<rparr>"
  have "case run_state (Provide ?w ?p) start_state of ((res, src), s') \<Rightarrow> \<not> isl res"
    by code_simp
  then obtain env src s' where run: "run_state (Provide ?w ?p) start_state = ((Inr env, src), s')"
    by (auto split: prod.splits) (metis sum.collapse(2))
  have "src = AuthenticationSourceDriver \<and>
    map_of env = profile_part ?w ?p ++ irsa_part ?w ?p ++ container_part ?w ?p \<and>
    map_of env EnvSecretAccessKey = None \<and> map_of env EnvSessionToken = None"
    by (rule driver_credentials_environment [OF run]) (simp_all add: example_ctx_def auth_source_consts)
  moreover have "EnvContainerAuthorizationTokenFile \<noteq> EnvWebIdentityTokenFile"
      "EnvContainerAuthorizationTokenFile \<noteq> EnvRoleARN" "EnvRoleARN \<noteq> EnvWebIdentityTokenFile"
    by (simp_all add: EnvContainerAuthorizationTokenFile_def EnvWebIdentityTokenFile_def EnvRoleARN_def)
  ultimately have "src = AuthenticationSourceDriver \<and> map_of env EnvRoleARN = Some ''x''"
    by (simp add: irsa_part_def container_part_def)
  with run show ?thesis by auto
qed

section \<open>File names\<close>

text \<open>\<^verbatim>\<open>EscapeQualifiedName\<close> is documented to replace every slash by a tilde.\<close>

definition escapes_slashes :: "world \<Rightarrow> bool" where
  "escapes_slashes w \<longleftrightarrow> (\<forall>s. escape_name w s = map (\<lambda>c. if c = CHR ''/'' then CHR ''~'' else c) s)"

lemma escape_inj:
  "CHR ''~'' \<notin> set a \<Longrightarrow> CHR ''~'' \<notin> set b \<Longrightarrow>
     map (\<lambda>c. if c = CHR ''/'' then CHR ''~'' else c) a = map (\<lambda>c. if c = CHR ''/'' then CHR ''~'' else c) b
     \<longleftrightarrow> a = b"
proof (induction a arbitrary: b)
  case (Cons x a)
  then show ?case by (cases b) (auto split: if_splits)
qed auto

text \<open>
  The identifier of a mount, which names its credential files, contains no slash and tells apart
  any two pairs of Pod and volume whose Pod identifiers are equally long, as UIDs are, and which
  contain no tilde.
\<close>

theorem volume_identifier_unique:
  assumes "escapes_slashes w" "length pod = length pod'"
    and "CHR ''~'' \<notin> set pod \<union> set pod' \<union> set vol \<union> set vol'"
  shows "CHR ''/'' \<notin> set (escapedVolumeIdentifier w pod vol) \<and>
    (escapedVolumeIdentifier w pod vol = escapedVolumeIdentifier w pod' vol' \<longleftrightarrow>
       pod = pod' \<and> vol = vol')"
proof -
  have "escape_name w pod = escape_name w pod' \<longleftrightarrow> pod = pod'"
    "escape_name w vol = escape_name w vol' \<longleftrightarrow> vol = vol'"
    using assms by (simp_all add: escapes_slashes_def escape_inj)
  moreover have "length (escape_name w pod) = length (escape_name w pod')"
    "CHR ''/'' \<notin> set (escape_name w pod)" "CHR ''/'' \<notin> set (escape_name w vol)"
    using assms by (auto simp: escapes_slashes_def split: if_splits)
  ultimately show ?thesis by (auto simp: escapedVolumeIdentifier_def)
qed

theorem volume_identifier_unique_witness:
  "escapedVolumeIdentifier (example_world (\<lambda>_. [])) ''p1'' ''a/b'' \<noteq>
   escapedVolumeIdentifier (example_world (\<lambda>_. [])) ''p1'' ''a-b''"
proof -
  have "escapes_slashes (example_world (\<lambda>_. []))" by (simp add: escapes_slashes_def)
  from volume_identifier_unique [OF this, of "''p1''" "''p1''" "''a/b''" "''a-b''"] show ?thesis by simp
qed

text \<open>
  It is not unique for every volume, though the comment says so: the documented escaping maps a
  slash and a tilde to the same character, so two volumes of one Pod whose names differ only in that
  share the names of all their credential files.
\<close>

theorem volume_identifier_collision:
  assumes "escapes_slashes w"
  shows "escapedVolumeIdentifier w pod ''a/b'' = escapedVolumeIdentifier w pod ''a~b'' \<and>
    sts_token_path w dir pod ''a/b'' = sts_token_path w dir pod ''a~b''"
  using assms
  by (simp add: escapes_slashes_def escapedVolumeIdentifier_def sts_token_path_def
    podLevelSTSWebIdentityServiceAccountTokenName_def)

theorem volume_identifier_collision_witness:
  "sts_token_path (example_world (\<lambda>_. [])) ''/c'' ''p'' ''a/b'' =
   sts_token_path (example_world (\<lambda>_. [])) ''/c'' ''p'' ''a~b''"
proof -
  have "escapes_slashes (example_world (\<lambda>_. []))" by (simp add: escapes_slashes_def)
  from volume_identifier_collision [OF this, of "''p''" "''/c''"] show ?thesis by simp
qed

end
