(* ===== verification/Mount_Utils.thy ===== *)
theory Mount_Utils
  imports Node_World
begin

text \<open>
  \<^verbatim>\<open>pkg/mountpoint/mounter\<close>: mounting a FUSE file system, bind mounts, and the test
  whether a path is a healthy Mountpoint mount. The system calls and the functions of
  \<^verbatim>\<open>k8s.io/mount-utils\<close> are calls of the world.
\<close>

unbundle bit_operations_syntax

definition fsName :: string where "fsName = ''mountpoint-s3''"

record mount_options =
  read_only :: bool
  allow_other :: bool

text \<open>The verb \<^verbatim>\<open>%o\<close> for numbers that are not negative.\<close>

function octal_of :: "int \<Rightarrow> string" where
  "octal_of n = (if n < 8 then [char_of (48 + n)] else octal_of (n div 8) @ [char_of (48 + n mod 8)])"
  by pat_completeness auto
termination by (relation "measure nat") auto

declare octal_of.simps [simp del]

definition MS_RDONLY :: "64 word" where "MS_RDONLY = 0x1"
definition MS_NOSUID :: "64 word" where "MS_NOSUID = 0x2"
definition MS_NODEV :: "64 word" where "MS_NODEV = 0x4"
definition MS_NOATIME :: "64 word" where "MS_NOATIME = 0x400"
definition S_IFMT :: "32 word" where "S_IFMT = 0xF000"

definition mount_flags :: "mount_options \<Rightarrow> 64 word" where
  "mount_flags opts =
     (let flags = MS_NODEV OR MS_NOSUID OR MS_NOATIME
      in if read_only opts then flags OR MS_RDONLY else flags)"

definition mount_option_string :: "world \<Rightarrow> int \<Rightarrow> 32 word \<Rightarrow> mount_options \<Rightarrow> string" where
  "mount_option_string w fd mode opts =
     join_with '',''
       ([''fd='' @ format_int fd,
         ''rootmode='' @ octal_of (uint (mode AND S_IFMT)),
         ''user_id='' @ format_int (effective_uid w),
         ''group_id='' @ format_int (effective_gid w),
         ''default_permissions''] @
        (if allow_other opts then [''allow_other''] else []))"

text \<open>
  \<^verbatim>\<open>mount\<close> on Linux. The deferred function closes the descriptor unless the mount
  succeeded.
\<close>

definition linux_mount :: "world \<Rightarrow> string \<Rightarrow> mount_options \<Rightarrow> (node_error + int) node" where
  "linux_mount w target opts = do {
     res \<leftarrow> os_open_fuse w;
     case res of
       Inl e \<Rightarrow> State_Monad.return (Inl (NWrapped ''failed to open /dev/fuse'' e))
     | Inr fd \<Rightarrow> do {
         res \<leftarrow> os_file_mode w target;
         case res of
           Inl e \<Rightarrow> do {
             _ \<leftarrow> close_fd w fd;
             State_Monad.return (Inl (NWrapped ''failed to stat mount point'' e)) }
         | Inr mode \<Rightarrow> do {
             err \<leftarrow> os_mount w fd target (mount_flags opts) (mount_option_string w fd mode opts);
             case err of
               Some e \<Rightarrow> do {
                 _ \<leftarrow> close_fd w fd;
                 State_Monad.return (Inl (NWrapped ''failed to mount'' e)) }
             | None \<Rightarrow> State_Monad.return (Inr fd) } } }"

definition fuse_mount :: "world \<Rightarrow> string \<Rightarrow> mount_options \<Rightarrow> (node_error + int) node" where
  "fuse_mount w target opts =
     (if target = [] then State_Monad.return (Inl ErrMissingTarget) else linux_mount w target opts)"

text \<open>The cause of a failed bind mount is formatted with \<^verbatim>\<open>%v\<close>, so only a text is left.\<close>

definition linux_bind_mount :: "world \<Rightarrow> string \<Rightarrow> string \<Rightarrow> node_error option node" where
  "linux_bind_mount w source target = do {
     err \<leftarrow> os_bind_mount w source target;
     State_Monad.return (map_option (\<lambda>_. NMessage ''failed to bind mount'') err) }"

definition BindMount :: "world \<Rightarrow> string \<Rightarrow> string \<Rightarrow> node_error option node" where
  "BindMount w source target =
     (if target = [] \<or> source = [] then State_Monad.return (Some ErrMissingTarget)
      else linux_bind_mount w source target)"

definition statx :: "world \<Rightarrow> string \<Rightarrow> node_error option node" where
  "statx w path = do {
     err \<leftarrow> os_statx w path;
     if err = Some (OsErr (OtherOsError ''ENOSYS'')) then os_stat w path
     else State_Monad.return err }"

text \<open>
  \<^verbatim>\<open>CheckMountpoint\<close>. In Go the boolean is returned besides the error; it is false whenever
  there is one.
\<close>

definition CheckMountpoint :: "world \<Rightarrow> string \<Rightarrow> (node_error + bool) node" where
  "CheckMountpoint w target = do {
     err \<leftarrow> statx w target;
     case err of
       Some e \<Rightarrow> State_Monad.return (Inl e)
     | None \<Rightarrow> do {
         res \<leftarrow> os_is_mount_point w target;
         case res of
           Inl e \<Rightarrow> State_Monad.return (Inl e)
         | Inr isMountPoint \<Rightarrow>
             if \<not> isMountPoint then State_Monad.return (Inr False)
             else do {
               res \<leftarrow> os_list_mounts w;
               State_Monad.return (case res of
                   Inl e \<Rightarrow> Inl (NWrapped ''failed to list mounts'' e)
                 | Inr mountPoints \<Rightarrow>
                     Inr (list_ex (\<lambda>(device, path). path = target \<and> device = fsName) mountPoints)) } } }"

abbreviation FindReferencesToMountpoint :: "world \<Rightarrow> string \<Rightarrow> (node_error + string list) node" where
  "FindReferencesToMountpoint w target \<equiv> os_mount_refs w target"

text \<open>A path is only read by these calls.\<close>

fun probe :: "node_event \<Rightarrow> bool" where
  "probe (NvStatx p r) = True"
| "probe (NvStat p r) = True"
| "probe (NvIsMountPoint p r) = True"
| "probe (NvListMounts r) = True"
| "probe (NvMountRefs p r) = True"
| "probe (NvReadFile p r) = True"
| "probe e = False"

lemma CheckMountpoint_probes:
  "(\<And>e. probe e \<Longrightarrow> P e) \<Longrightarrow> preserves (adds_only P h) (CheckMountpoint w target)"
  unfolding CheckMountpoint_def statx_def
  by (intro pres preserves_adds_call) simp_all

end
