(* ===== verification/Watcher.thy ===== *)
theory Watcher
  imports Node_World
begin

text \<open>
  \<^verbatim>\<open>pkg/podmounter/mppod/watcher/watcher.go\<close>: waiting for a Mountpoint Pod. The informer and
  its lister are third-party code; the world says which create and update events the handler is given
  before the lister is read and afterwards, until the context expires. The two flags the handler
  stores are atomic variables, so a run is a sequence of stores.
\<close>

definition isPodReady :: "pod \<Rightarrow> bool" where
  "isPodReady p \<longleftrightarrow> phase p = PodRunning"

definition isPodUnschedulable :: "pod \<Rightarrow> bool" where
  "isPodUnschedulable p \<longleftrightarrow>
     phase p = PodPending \<and>
     list_ex (\<lambda>cond. condition_type cond = ''PodScheduled'' \<and> condition_status cond = ''False'' \<and>
       condition_reason cond = ''Unschedulable'') (conditions p)"

record watch_flags =
  pod_found :: bool
  pod_unschedulable :: bool
  pod_chan :: "pod option" \<comment> \<open>the first Pod sent; the channel holds one\<close>

definition handle_pod_event :: "string \<Rightarrow> pod \<Rightarrow> watch_flags \<Rightarrow> watch_flags" where
  "handle_pod_event name p f =
     (if pod_name p = name then
        f\<lparr>pod_found := True, pod_unschedulable := isPodUnschedulable p,
          pod_chan := (if isPodReady p \<and> pod_chan f = None then Some p else pod_chan f)\<rparr>
      else f)"

definition timeout_error :: "watch_flags \<Rightarrow> node_error" where
  "timeout_error f =
     (if pod_found f then (if pod_unschedulable f then ErrPodUnschedulable else ErrPodNotReady)
      else ErrPodNotFound)"

definition watcher_Get :: "world \<Rightarrow> string \<Rightarrow> (node_error + pod) node" where
  "watcher_Get w name = lister_get w name"

text \<open>If a Pod was sent and the deadline passed as well, \<^verbatim>\<open>select\<close> takes either case.\<close>

definition watcher_select :: "world \<Rightarrow> string \<Rightarrow> watch_flags \<Rightarrow> (node_error + pod) node" where
  "watcher_select w name f = do {
     later \<leftarrow> handler_events w name;
     expired \<leftarrow> node_read (deadline_wins w);
     let f = fold (handle_pod_event name) later f in
     State_Monad.return (case pod_chan f of
         Some p \<Rightarrow> if expired then Inl (timeout_error f) else Inr p
       | None \<Rightarrow> Inl (timeout_error f)) }"

definition watcher_Wait :: "world \<Rightarrow> string \<Rightarrow> (node_error + pod) node" where
  "watcher_Wait w name = do {
     err \<leftarrow> add_handler w;
     case err of
       Some e \<Rightarrow> State_Monad.return (Inl (NWrapped ''failed to add event handler'' e))
     | None \<Rightarrow> do {
         res \<leftarrow> lister_get w name;
         earlier \<leftarrow> handler_events w name;
         let f = fold (handle_pod_event name) earlier
           \<lparr>pod_found = False, pod_unschedulable = False, pod_chan = None\<rparr> in
         case res of
           Inr p \<Rightarrow>
             let f = f\<lparr>pod_found := True, pod_unschedulable := isPodUnschedulable p\<rparr> in
             if isPodReady p then State_Monad.return (Inr p) else watcher_select w name f
         | Inl e \<Rightarrow>
             if e \<noteq> NApi NotFound then State_Monad.return (Inl (NWrapped ''failed to get pod'' e))
             else watcher_select w name f } }"

section \<open>The Pod that is returned\<close>

text \<open>What \<^verbatim>\<open>Wait\<close> observed in its run.\<close>

fun observed_pods :: "string \<Rightarrow> node_event \<Rightarrow> pod list" where
  "observed_pods name (NvGetPod n (Inr p)) = (if n = name then [p] else [])"
| "observed_pods name (NvWatchEvents n ps) = filter (\<lambda>p. pod_name p = name) ps"
| "observed_pods name e = []"

lemma pod_chan_fold:
  "pod_chan (fold (handle_pod_event name) ps f) =
     (case pod_chan f of Some p \<Rightarrow> Some p
      | None \<Rightarrow> find (\<lambda>p. pod_name p = name \<and> isPodReady p) ps)"
  by (induction ps arbitrary: f) (auto simp: handle_pod_event_def split: option.splits)

lemma runs_watcher_select:
  assumes "\<And>p. pod_chan f = Some p \<Longrightarrow> pod_name p = name \<and> isPodReady p"
  shows "runs (watcher_select w name f) (\<lambda>r new. (\<forall>e \<in> set new. \<exists>ps. e = NvWatchEvents name ps) \<and>
    (\<forall>p. r = Inr p \<longrightarrow> isPodReady p \<and>
       (pod_chan f = Some p \<or> (\<exists>e \<in> set new. p \<in> set (observed_pods name e)))))"
  unfolding watcher_select_def Let_def
  by (intro runs) (auto simp: pod_chan_fold dest: assms find_SomeD split: option.splits if_splits)

fun watch_call :: "node_event \<Rightarrow> bool" where
  "watch_call (NvAddHandler r) = True"
| "watch_call (NvGetPod n r) = True"
| "watch_call (NvWatchEvents n ps) = True"
| "watch_call e = False"

lemma runs_watcher_Wait:
  "runs (watcher_Wait w name) (\<lambda>r new. (\<forall>e \<in> set new. watch_call e) \<and>
    (\<forall>p. r = Inr p \<longrightarrow> isPodReady p \<and> (\<exists>e \<in> set new. p \<in> set (observed_pods name e))))"
  unfolding watcher_Wait_def Let_def
  by (intro runs; (rule runs_mono [OF runs_watcher_select])?;
      fastforce simp: pod_chan_fold dest: find_SomeD)

end
