(* ===== verification/User_Agent.thy ===== *)
theory User_Agent
  imports Creator Runes Paths
begin

text \<open>
  \<^verbatim>\<open>pkg/driver/node/mounter/user_agent.go\<close> and \<^verbatim>\<open>pkg/cluster\<close>. The
  driver's version is set when the driver is built and is a parameter.
\<close>

section \<open>The cluster\<close>

text \<open>
  \<^verbatim>\<open>Variant.String\<close> and \<^verbatim>\<open>DetectVariant\<close>. The discovery client is third-party
  code: its creation and its listing of API groups may fail, and its answer is an argument.
\<close>

definition variant_String :: "variant \<Rightarrow> string" where
  "variant_String v = (case v of OpenShift \<Rightarrow> ''openshift'' | _ \<Rightarrow> ''kubernetes'')"

definition DetectVariant :: "'e + ('e + string list) \<Rightarrow> variant" where
  "DetectVariant discovery =
     (case discovery of
        Inl e \<Rightarrow> DefaultKubernetes
      | Inr (Inl e) \<Rightarrow> DefaultKubernetes
      | Inr (Inr groups) \<Rightarrow>
          if list_ex (\<lambda>name. name = ''config.openshift.io'') groups then OpenShift
          else DefaultKubernetes)"

section \<open>The user agent\<close>

definition userAgentCsiDriverPrefix :: string where "userAgentCsiDriverPrefix = ''s3-csi-driver/''"
definition userAgentK8sPrefix :: string where "userAgentK8sPrefix = ''k8s/''"
definition userAgentCredentialSourcePrefix :: string where
  "userAgentCredentialSourcePrefix = ''credential-source#''"
definition userAgentOpenShiftPrefix :: string where "userAgentOpenShiftPrefix = ''md/openshift''"
definition userAgentInstallPrefix :: string where "userAgentInstallPrefix = ''md/install#''"

text \<open>
  \<^verbatim>\<open>unicode.IsSpace\<close>, and \<^verbatim>\<open>unicode.ToLower\<close> on the runes whose lower case is an
  ASCII letter: the capital letters, the dotted capital I and the Kelvin sign. Any other rune stays
  different from every letter of the names it is compared with.
\<close>

definition unicode_space :: "nat \<Rightarrow> bool" where
  "unicode_space r \<longleftrightarrow> between 9 13 r \<or> between 0x2000 0x200A r \<or>
     r \<in> set [32, 0x85, 0xA0, 0x1680, 0x2028, 0x2029, 0x202F, 0x205F, 0x3000]"

definition lower_rune :: "nat \<Rightarrow> nat" where
  "lower_rune r =
     (if between 65 90 r then r + 32 else if r = 0x130 then 105 else if r = 0x212A then 107 else r)"

definition trim_space :: "nat list \<Rightarrow> nat list" where
  "trim_space rs = rev (dropWhile unicode_space (rev (dropWhile unicode_space rs)))"

definition InstallationMethod :: "getenv \<Rightarrow> string" where
  "InstallationMethod getenv =
     (let method = map lower_rune (trim_space (runes (map of_char (getenv ''INSTALLATION_TYPE''))))
      in case find (\<lambda>known. method = map of_char known) [''eks-addon'', ''helm'', ''kustomize''] of
           Some known \<Rightarrow> known
         | None \<Rightarrow> ''unknown'')"

definition UserAgent :: "getenv \<Rightarrow> string \<Rightarrow> string \<Rightarrow> string \<Rightarrow> variant \<Rightarrow> string" where
  "UserAgent getenv driverVersion authenticationSource kubernetesVersion v =
     userAgentCsiDriverPrefix @ driverVersion @
     '' '' @ userAgentCredentialSourcePrefix @ authenticationSource @
     (if kubernetesVersion \<noteq> [] then '' '' @ userAgentK8sPrefix @ kubernetesVersion else []) @
     (if v = OpenShift then '' '' @ userAgentOpenShiftPrefix else []) @
     '' '' @ userAgentInstallPrefix @ InstallationMethod getenv"

lemma InstallationMethod_known:
  "InstallationMethod getenv \<in> {''eks-addon'', ''helm'', ''kustomize'', ''unknown''}"
  by (simp add: InstallationMethod_def Let_def)

end
