(* ===== verification/Pod_Mounter.thy ===== *)
theory Pod_Mounter
  imports Credentials Mount_Utils Watcher User_Agent
begin

text \<open>
  \<^verbatim>\<open>pkg/driver/node/mounter/pod_mounter.go\<close>: mounting a volume for a workload. The
  overridable system calls of the tests are absent, as in production. Deferred calls run in the
  reverse order of their registration. In error messages the interpolated help texts are left out.
\<close>

record pod_mounter =
  pm_kubelet_path :: string
  pm_kubernetes_version :: string
  pm_variant :: variant
  pm_node_id :: string
  pm_driver_version :: string
  pm_arg_walk :: walk        \<comment> \<open>order in which a set of arguments is walked\<close>
  pm_env_range :: "string list \<Rightarrow> string list"

section \<open>Helpers\<close>

definition pm_IsMountPoint :: "world \<Rightarrow> string \<Rightarrow> (node_error + bool) node" where
  "pm_IsMountPoint w target = CheckMountpoint w target"

definition SupportLegacySystemdMounts :: "getenv \<Rightarrow> bool" where
  "SupportLegacySystemdMounts getenv \<longleftrightarrow> getenv ''SUPPORT_LEGACY_SYSTEMD_MOUNTS'' = ''true''"

definition IsSystemDMountpoint :: "world \<Rightarrow> string \<Rightarrow> bool node" where
  "IsSystemDMountpoint w target =
     (if \<not> SupportLegacySystemdMounts (node_env w) then State_Monad.return False
      else do {
        res \<leftarrow> FindReferencesToMountpoint w target;
        State_Monad.return (case res of Inl e \<Rightarrow> False | Inr references \<Rightarrow> references = []) })"

definition hostPluginDirWithDefault :: "getenv \<Rightarrow> string" where
  "hostPluginDirWithDefault getenv =
     (let hostPluginDir = getenv ''HOST_PLUGIN_DIR''
      in if hostPluginDir = [] then ''/var/lib/kubelet/plugins/s3.csi.aws.com/'' else hostPluginDir)"

definition unmountTarget :: "world \<Rightarrow> string \<Rightarrow> node_error option node" where
  "unmountTarget w target = os_unmount w target"

definition volumeNameFromTargetPath :: "string \<Rightarrow> node_error + string" where
  "volumeNameFromTargetPath target =
     (case parse_target target of Inl e \<Rightarrow> Inl (ErrTarget e) | Inr tp \<Rightarrow> Inr (tp_volume_id tp))"

definition pm_podPath :: "pod_mounter \<Rightarrow> string \<Rightarrow> string" where
  "pm_podPath pm podUID = path_join [pm_kubelet_path pm, ''pods'', podUID]"

definition credentialsDir :: "string \<Rightarrow> string" where
  "credentialsDir podPath = PathOnHost podPath [KnownPathCredentials]"

definition ensureCredentialsDirExists :: "world \<Rightarrow> string \<Rightarrow> (node_error + string) node" where
  "ensureCredentialsDirExists w podPath =
     (let credentialsBasepath = credentialsDir podPath in do {
        err \<leftarrow> os_mkdir w credentialsBasepath;
        State_Monad.return (case err of
            None \<Rightarrow> Inr credentialsBasepath
          | Some e \<Rightarrow> if nerror_is e (OsErr ErrExist) then Inr credentialsBasepath else Inl e) })"

definition verifyOrSetupMountTarget :: "world \<Rightarrow> string \<Rightarrow> node_error \<Rightarrow> node_error option node" where
  "verifyOrSetupMountTarget w target err =
     (if is_not_exist err then do {
        res \<leftarrow> os_mkdir_all w target;
        State_Monad.return (map_option (NWrapped ''Failed to create target directory'') res) }
      else if corrupted_mount w err then do {
        res \<leftarrow> unmountTarget w target;
        State_Monad.return (map_option (NWrapped ''Failed to unmount target path'') res) }
      else State_Monad.return (Some err))"

definition provideCredentials ::
    "world \<Rightarrow> string \<Rightarrow> string \<Rightarrow> string \<Rightarrow> provide_ctx \<Rightarrow> ((node_error + environment) \<times> string) node" where
  "provideCredentials w podPath mpPodUID serviceAccountEKSRoleARN credentialCtx = do {
     res \<leftarrow> ensureCredentialsDirExists w podPath;
     case res of
       Inl e \<Rightarrow> State_Monad.return (Inl (NWrapped ''Failed to create credentials directory'' e), [])
     | Inr podCredentialsPath \<Rightarrow>
         Provide w
           (SetMountpointPodID mpPodUID
             (SetServiceAccountEKSRoleARN serviceAccountEKSRoleARN
               (SetWriteAndEnvPath podCredentialsPath (PathInsideMountpointPod [KnownPathCredentials])
                 (SetAsPodMountpoint credentialCtx)))) }"

definition waitForMountpointPod :: "world \<Rightarrow> pod_mounter \<Rightarrow> string \<Rightarrow> (node_error + pod \<times> string) node" where
  "waitForMountpointPod w pm podName = do {
     res \<leftarrow> watcher_Wait w podName;
     State_Monad.return (map_sum id (\<lambda>p. (p, pm_podPath pm (pod_uid p))) res) }"

definition mountSyscall :: "world \<Rightarrow> pod_mounter \<Rightarrow> string \<Rightarrow> args \<Rightarrow> (node_error + int) node" where
  "mountSyscall w pm target as =
     (let has = args_Has (pm_arg_walk pm) as
      in fuse_mount w target
        \<lparr>read_only = has ArgReadOnly, allow_other = has ArgAllowOther \<or> has ArgAllowRoot\<rparr>)"

section \<open>Waiting for the mount\<close>

text \<open>
  Two goroutines poll, one for the error file, one for the mount, and the first result sent on the
  channel counts. A turn of the schedule belongs to the first (\<open>True\<close>) or the second; a goroutine
  that has its result sends it in its next turn. When the schedule is over the context is done: the
  first goroutine gives up silently, the second, which checks once before it looks at the context,
  sends the context's error.
\<close>

record race =
  failure_read :: "node_error option"           \<comment> \<open>what the first goroutine is about to send\<close>
  mount_result :: "node_error option option"    \<comment> \<open>what the second is about to send\<close>
  mount_checked :: bool

definition poll_error_file :: "world \<Rightarrow> string \<Rightarrow> race \<Rightarrow> race node" where
  "poll_error_file w podMountErrorPath r = do {
     res \<leftarrow> os_read_file w podMountErrorPath;
     State_Monad.return (case res of
         Inl e \<Rightarrow> r
       | Inr text \<Rightarrow> r\<lparr>failure_read := Some (NMessage (''Mountpoint Pod failed: '' @ text))\<rparr>) }"

definition poll_mount :: "world \<Rightarrow> string \<Rightarrow> race \<Rightarrow> race node" where
  "poll_mount w target r = do {
     res \<leftarrow> pm_IsMountPoint w target;
     State_Monad.return (case res of
         Inl e \<Rightarrow> r\<lparr>mount_checked := True,
           mount_result := Some (Some (NWrapped ''Failed to check if Mountpoint Pod mounted'' e))\<rparr>
       | Inr mounted \<Rightarrow> r\<lparr>mount_checked := True,
           mount_result := (if mounted then Some None else None)\<rparr>) }"

definition context_done_result :: "race \<Rightarrow> node_error option" where
  "context_done_result r =
     (case failure_read r of
        Some e \<Rightarrow> Some e
      | None \<Rightarrow>
          (case mount_result r of
             Some res \<Rightarrow> res
           | None \<Rightarrow> Some (NWrapped ''Failed to check if Mountpoint Pod mounted'' ErrDeadlineExceeded)))"

fun race_loop :: "world \<Rightarrow> string \<Rightarrow> string \<Rightarrow> bool list \<Rightarrow> race \<Rightarrow> node_error option node" where
  "race_loop w target errPath [] r =
     (if mount_checked r then State_Monad.return (context_done_result r)
      else do {
        r \<leftarrow> poll_mount w target r;
        State_Monad.return (context_done_result r) })"
| "race_loop w target errPath (True # turns) r =
     (case failure_read r of
        Some e \<Rightarrow> State_Monad.return (Some e)
      | None \<Rightarrow> do {
          r \<leftarrow> poll_error_file w errPath r;
          race_loop w target errPath turns r })"
| "race_loop w target errPath (False # turns) r =
     (case mount_result r of
        Some res \<Rightarrow> State_Monad.return res
      | None \<Rightarrow> do {
          r \<leftarrow> poll_mount w target r;
          race_loop w target errPath turns r })"

definition waitForMount :: "world \<Rightarrow> string \<Rightarrow> string \<Rightarrow> node_error option node" where
  "waitForMount w target podMountErrorPath = do {
     turns \<leftarrow> node_read (schedule w);
     race_loop w target podMountErrorPath turns
       \<lparr>failure_read = None, mount_result = None, mount_checked = False\<rparr> }"

section \<open>Mounting at the source\<close>

definition mount_environment ::
    "world \<Rightarrow> environment \<Rightarrow> environment \<Rightarrow> string \<times> bool \<Rightarrow> environment" where
  "mount_environment w userEnv credEnv attempts =
     (let env = env_Merge (env_Merge (env_Merge [] userEnv) (Default (node_env w))) credEnv;
          (maxAttempts, ok) = attempts
      in if ok then env_Set EnvMaxAttempts maxAttempts env else env)"

text \<open>Sending the options and waiting, between the deferred calls and the return.\<close>

definition send_and_wait ::
    "world \<Rightarrow> pod_mounter \<Rightarrow> string \<Rightarrow> string \<Rightarrow> string \<Rightarrow> send_options \<Rightarrow> node_error option node" where
  "send_and_wait w pm source sockPath errorPath opts = do {
     _ \<leftarrow> os_remove w errorPath;
     err \<leftarrow> send_mount_options w sockPath opts;
     case err of
       Some e \<Rightarrow> State_Monad.return (Some (NWrapped ''Failed to send mount options to Mountpoint Pod'' e))
     | None \<Rightarrow> do {
         err \<leftarrow> waitForMount w source errorPath;
         State_Monad.return (map_option (NWrapped ''Failed to wait for Mountpoint Pod to be ready'') err) } }"

definition mountS3AtSource ::
    "world \<Rightarrow> pod_mounter \<Rightarrow> string \<Rightarrow> pod \<Rightarrow> string \<Rightarrow> string \<Rightarrow> environment \<Rightarrow> environment \<Rightarrow> string \<Rightarrow>
       args \<Rightarrow> node_error option node" where
  "mountS3AtSource w pm source mpPod podPath bucketName credEnv userEnv authenticationSource as =
     (let walk = pm_arg_walk pm;
          (as, maxAttempts, ok) = args_Remove walk as ArgAWSMaxAttempts;
          env = mount_environment w userEnv credEnv (maxAttempts, ok);
          as = args_Set walk as ArgUserAgentPrefix
            (UserAgent (node_env w) (pm_driver_version pm) authenticationSource
              (pm_kubernetes_version pm) (pm_variant pm));
          podMountSockPath = PathOnHost podPath [KnownPathMountSock];
          podMountErrorPath = PathOnHost podPath [KnownPathMountError]
      in do {
        res \<leftarrow> mountSyscall w pm source as;
        case res of
          Inl e \<Rightarrow> State_Monad.return (Some (NWrapped ''Failed to mount'' e))
        | Inr fuseDeviceFD \<Rightarrow>
            let as = (if args_Has walk as ArgReadOnly then fst (args_Remove walk as ArgReadOnly) else as)
            in do {
              err \<leftarrow> send_and_wait w pm source podMountSockPath podMountErrorPath
                \<lparr>opt_fd = fuseDeviceFD, opt_bucket = bucketName, opt_args = args_SortedList walk as,
                  opt_env = env_List (pm_env_range pm) env\<rparr>;
              _ \<leftarrow> close_fd w fuseDeviceFD;
              if err \<noteq> None then do {
                _ \<leftarrow> unmountTarget w source;
                State_Monad.return err }
              else State_Monad.return None } })"

section \<open>The attachment\<close>

definition attachment_filters_for ::
    "pod_mounter \<Rightarrow> string \<Rightarrow> provide_ctx \<Rightarrow> string \<Rightarrow> field_filters" where
  "attachment_filters_for pm volumeName p fsGroup =
     [(FieldNodeName, pm_node_id pm),
      (FieldPersistentVolumeName, volumeName),
      (FieldVolumeID, pc_volume_id p),
      (FieldWorkloadFSGroup, fsGroup),
      (FieldAuthenticationSource, pc_authentication_source p)] @
     (if pc_authentication_source p = AuthenticationSourcePod then
        [(FieldWorkloadNamespace, pc_pod_namespace p),
         (FieldWorkloadServiceAccountName, pc_service_account_name p)]
      else [])"

text \<open>The three nested loops over attachments, their Mountpoint Pods and the Pods' workloads.\<close>

definition find_assignment ::
    "(string list \<Rightarrow> string list) \<Rightarrow> string \<Rightarrow> s3pa \<Rightarrow> (s3pa \<times> string) option" where
  "find_assignment ord podID a =
     map_option (\<lambda>mpPodName. (a, mpPodName))
       (find (\<lambda>mpPodName. list_ex (\<lambda>att. workload_pod_uid att = podID)
           (alookup (sp_attachments a) mpPodName))
         (go_range ord (map fst (sp_attachments a))))"

fun find_in_list ::
    "(string list \<Rightarrow> string list) \<Rightarrow> string \<Rightarrow> s3pa list \<Rightarrow> (s3pa \<times> string) option" where
  "find_in_list ord podID [] = None"
| "find_in_list ord podID (a # items) =
     (case find_assignment ord podID a of
        Some res \<Rightarrow> Some res
      | None \<Rightarrow> find_in_list ord podID items)"

text \<open>The outer loop runs as often as the context allows.\<close>

fun attachment_loop ::
    "world \<Rightarrow> field_filters \<Rightarrow> string \<Rightarrow> nat \<Rightarrow> (node_error + s3pa \<times> string) node" where
  "attachment_loop w filters podID 0 = State_Monad.return (Inl ErrDeadlineExceeded)"
| "attachment_loop w filters podID (Suc n) = do {
     res \<leftarrow> cache_list w filters;
     case res of
       Inl e \<Rightarrow> State_Monad.return (Inl e)
     | Inr items \<Rightarrow> do {
         ord \<leftarrow> node_read (node_range w);
         case find_in_list ord podID items of
           Some found \<Rightarrow> State_Monad.return (Inr found)
         | None \<Rightarrow> attachment_loop w filters podID n } }"

definition getS3PodAttachmentWithRetry ::
    "world \<Rightarrow> pod_mounter \<Rightarrow> string \<Rightarrow> provide_ctx \<Rightarrow> string \<Rightarrow> (node_error + s3pa \<times> string) node" where
  "getS3PodAttachmentWithRetry w pm volumeName credentialCtx fsGroup = do {
     n \<leftarrow> node_read (polls w);
     attachment_loop w (attachment_filters_for pm volumeName credentialCtx fsGroup)
       (pc_workload_pod_id credentialCtx) n }"

section \<open>Mount and Unmount\<close>

text \<open>\<^verbatim>\<open>lockMountpointPod\<close> with the deferred unlock around the rest of a function.\<close>

definition with_pod_lock :: "string \<Rightarrow> 'a node \<Rightarrow> 'a node" where
  "with_pod_lock mpPodName body = do {
     _ \<leftarrow> lock_event mpPodName;
     res \<leftarrow> body;
     _ \<leftarrow> unlock_event mpPodName;
     State_Monad.return res }"

definition check_or_setup :: "world \<Rightarrow> string \<Rightarrow> (node_error + bool) node" where
  "check_or_setup w target = do {
     res \<leftarrow> pm_IsMountPoint w target;
     case res of
       Inr b \<Rightarrow> State_Monad.return (Inr b)
     | Inl e \<Rightarrow> do {
         err \<leftarrow> verifyOrSetupMountTarget w target e;
         State_Monad.return (case err of
             None \<Rightarrow> Inr False
           | Some e \<Rightarrow> Inl (NWrapped ''Failed to verify path can be used as a mount point'' e)) } }"

definition mount_locked ::
    "world \<Rightarrow> pod_mounter \<Rightarrow> string \<Rightarrow> string \<Rightarrow> bool \<Rightarrow> provide_ctx \<Rightarrow> args \<Rightarrow> environment \<Rightarrow> s3pa \<Rightarrow> string \<Rightarrow>
       pod \<Rightarrow> string \<Rightarrow> node_error option node" where
  "mount_locked w pm bucketName target isTargetMountPoint credentialCtx as userEnv attachment mpPodName
     mpPod podPath =
     (let source = path_join [SourceMountDir (pm_kubelet_path pm), mpPodName] in do {
        res \<leftarrow> check_or_setup w source;
        case res of
          Inl e \<Rightarrow> State_Monad.return (Some e)
        | Inr isSourceMountPoint \<Rightarrow> do {
            (res, authenticationSource) \<leftarrow> provideCredentials w podPath (pod_uid mpPod)
              (sp_workload_role_arn attachment) credentialCtx;
            case res of
              Inl e \<Rightarrow> State_Monad.return (Some (NWrapped ''Failed to provide credentials'' e))
            | Inr credEnv \<Rightarrow> do {
                err \<leftarrow> (if \<not> isSourceMountPoint then
                    mountS3AtSource w pm source mpPod podPath bucketName credEnv userEnv
                      authenticationSource as
                  else State_Monad.return None);
                case err of
                  Some e \<Rightarrow> State_Monad.return (Some (NWrapped ''Failed to mount at source'' e))
                | None \<Rightarrow>
                    if isTargetMountPoint then State_Monad.return None
                    else do {
                      err \<leftarrow> BindMount w source target;
                      State_Monad.return (map_option (NWrapped ''Failed to bind mount'') err) } } } })"

definition refresh_systemd :: "world \<Rightarrow> provide_ctx \<Rightarrow> node_error option node" where
  "refresh_systemd w credentialCtx =
     (let credentialsPath = hostPluginDirWithDefault (node_env w) in do {
        (res, _) \<leftarrow> Provide w
          (SetWriteAndEnvPath credentialsPath credentialsPath (SetAsSystemDMountpoint credentialCtx));
        State_Monad.return (case res of
            Inl e \<Rightarrow> Some (NWrapped ''Failed to provide SystemD credentials'' e)
          | Inr _ \<Rightarrow> None) })"

definition pm_Mount ::
    "world \<Rightarrow> pod_mounter \<Rightarrow> string \<Rightarrow> string \<Rightarrow> provide_ctx \<Rightarrow> args \<Rightarrow> string \<Rightarrow> environment \<Rightarrow>
       node_error option node" where
  "pm_Mount w pm bucketName target credentialCtx as fsGroup userEnv =
     (case volumeNameFromTargetPath target of
        Inl e \<Rightarrow> State_Monad.return (Some (NWrapped ''Failed to extract volume name'' e))
      | Inr volumeName \<Rightarrow> do {
          res \<leftarrow> check_or_setup w target;
          case res of
            Inl e \<Rightarrow> State_Monad.return (Some e)
          | Inr isTargetMountPoint \<Rightarrow> do {
              systemd \<leftarrow> (if isTargetMountPoint then IsSystemDMountpoint w target
                else State_Monad.return False);
              if systemd then refresh_systemd w credentialCtx
              else do {
                res \<leftarrow> getS3PodAttachmentWithRetry w pm volumeName credentialCtx fsGroup;
                case res of
                  Inl e \<Rightarrow> State_Monad.return
                    (Some (NWrapped ''Failed to find corresponding MountpointS3PodAttachment'' e))
                | Inr (attachment, mpPodName) \<Rightarrow> do {
                    res \<leftarrow> waitForMountpointPod w pm mpPodName;
                    case res of
                      Inl e \<Rightarrow> State_Monad.return (Some (NWrapped ''Failed to wait for Mountpoint Pod'' e))
                    | Inr (mpPod, podPath) \<Rightarrow>
                        with_pod_lock mpPodName
                          (mount_locked w pm bucketName target isTargetMountPoint credentialCtx as userEnv
                            attachment mpPodName mpPod podPath) } } } })"

text \<open>Errors of the credential clean-up of a systemd mount are logged only.\<close>

definition pm_Unmount :: "world \<Rightarrow> string \<Rightarrow> cleanup_ctx \<Rightarrow> node_error option node" where
  "pm_Unmount w target c = do {
     isSystemDMountpoint \<leftarrow> IsSystemDMountpoint w target;
     err \<leftarrow> unmountTarget w target;
     case err of
       Some e \<Rightarrow> State_Monad.return (Some (NWrapped ''Failed to unmount'' e))
     | None \<Rightarrow>
         if isSystemDMountpoint then do {
           _ \<leftarrow> cred_Cleanup w (c\<lparr>cc_mount_kind := MountKindSystemd,
             cc_write_path := hostPluginDirWithDefault (node_env w)\<rparr>);
           State_Monad.return None }
         else State_Monad.return None }"

end
