(* ===== verification/Cache_Size.thy ===== *)
theory Cache_Size
  imports Csi_Prelude "HOL-Library.Log_Nat"
begin

text \<open>
  The arithmetic of \<^verbatim>\<open>NodePublishVolume\<close> on the size of the local cache: 64-bit integers read
  from and printed to strings, the division of Go, which truncates, and a product of 64-bit floating
  point numbers, which is modelled exactly as a rounding of integers to 53 significant bits.
\<close>

section \<open>Integers\<close>

text \<open>\<^verbatim>\<open>strconv.ParseInt(s, 10, 64)\<close>; the underscore is a digit separator in base 0 only.\<close>

fun parse_digits :: "int \<Rightarrow> string \<Rightarrow> int option" where
  "parse_digits v [] = Some v"
| "parse_digits v (c # s) =
     (let d = of_char c :: int
      in if 48 \<le> d \<and> d \<le> 57 then parse_digits (10 * v + (d - 48)) s else None)"

definition parse_sign :: "string \<Rightarrow> bool \<times> string" where
  "parse_sign s =
     (case s of
        [] \<Rightarrow> (False, [])
      | c # t \<Rightarrow> if c = CHR ''-'' then (True, t) else if c = CHR ''+'' then (False, t) else (False, s))"

definition parse_int64 :: "string \<Rightarrow> int option" where
  "parse_int64 s =
     (let (neg, ds) = parse_sign s
      in if ds = [] then None
         else case parse_digits 0 ds of
             None \<Rightarrow> None
           | Some u \<Rightarrow>
               (let v = (if neg then - u else u)
                in if - (2 ^ 63) \<le> v \<and> v < 2 ^ 63 then Some v else None))"

definition go_quot :: "int \<Rightarrow> int \<Rightarrow> int" where
  "go_quot a b = (if a < 0 then - ((- a) div b) else a div b)" \<comment> \<open>for positive \<open>b\<close>\<close>

section \<open>Floating point\<close>

text \<open>
  The nearest number with at most 53 significant bits, ties to even. It is the significand of the
  nearest \<^verbatim>\<open>float64\<close>, as exponents are far from their limits here.
\<close>

definition round53 :: "int \<Rightarrow> int" where
  "round53 x =
     (let a = \<bar>x\<bar>; e = nat (bitlen a - 53); q = a div 2 ^ e; r = a mod 2 ^ e;
          q = (if 2 * r > 2 ^ e \<or> 2 * r = 2 ^ e \<and> odd q then q + 1 else q)
      in sgn x * q * 2 ^ e)"

text \<open>\<^verbatim>\<open>0.95\<close> as a \<^verbatim>\<open>float64\<close> is this number divided by \<open>2 ^ 53\<close>.\<close>

definition safety_factor :: int where "safety_factor = 8556839292003942"

definition safe_cache_size :: "int \<Rightarrow> int" where
  "safe_cache_size limit = go_quot (round53 (round53 limit * safety_factor)) (2 ^ 53 * (1024 * 1024))"

section \<open>Numbers that are printed are read back\<close>

lemma parse_digits_append:
  "parse_digits v (s @ t) = (case parse_digits v s of None \<Rightarrow> None | Some u \<Rightarrow> parse_digits u t)"
  by (induction v s rule: parse_digits.induct) (auto simp: Let_def)

lemma of_char_digit: "d < 10 \<Longrightarrow> (of_char (char_of (48 + d) :: char) :: int) = 48 + int d"
  for d :: nat
proof -
  assume d: "d < 10"
  have "(of_char (char_of (48 + d) :: char) :: int) = int (of_char (char_of (48 + d) :: char))"
    by (rule of_nat_of_char [symmetric])
  also have "\<dots> = int ((48 + d) mod 256)" by (simp only: of_char_of)
  finally show ?thesis using d by simp
qed

lemma parse_digits_of_nat: "parse_digits 0 (digits_of_nat n) = Some (int n)"
proof (induction n rule: digits_of_nat.induct)
  case (1 n)
  show ?case
  proof (cases "n < 10")
    case True
    then show ?thesis
      by (subst digits_of_nat.simps) (simp add: of_char_digit Let_def)
  next
    case False
    have "10 * (int n div 10) + int n mod 10 = int n" by simp
    with False 1 show ?thesis
      by (subst digits_of_nat.simps) (simp add: of_char_digit Let_def parse_digits_append zdiv_int zmod_int)
  qed
qed

lemma digits_of_nat_head: "digits_of_nat n \<noteq> [] \<and> hd (digits_of_nat n) \<notin> {CHR ''-'', CHR ''+''}"
proof (induction n rule: digits_of_nat.induct)
  case (1 n)
  have no_sign: "char_of (48 + d) \<noteq> (CHR ''-'' :: char) \<and> char_of (48 + d) \<noteq> (CHR ''+'' :: char)"
    if "d < 10" for d :: nat
  proof -
    have "(of_char (char_of (48 + d) :: char) :: int) = 48 + int d" using of_char_digit [OF that] .
    then show ?thesis by (intro conjI notI) simp_all
  qed
  show ?case
    by (subst (1 2) digits_of_nat.simps) (use 1 no_sign in \<open>auto simp: hd_append\<close>)
qed

lemma parse_format_int:
  assumes "- (2 ^ 63) \<le> n" "n < 2 ^ 63"
  shows "parse_int64 (format_int n) = Some n"
proof -
  have "parse_sign (format_int n) = (n < 0, digits_of_nat (nat \<bar>n\<bar>))"
    using digits_of_nat_head [of "nat n"]
    by (auto simp: parse_sign_def format_int_def split: list.split)
  then show ?thesis
    using assms digits_of_nat_head [of "nat \<bar>n\<bar>"]
    by (simp add: parse_int64_def parse_digits_of_nat abs_if)
qed

section \<open>The rounded product\<close>

lemma round53_exact: "0 \<le> x \<Longrightarrow> x < 2 ^ 53 \<Longrightarrow> round53 x = x"
proof -
  assume x: "0 \<le> x" "x < 2 ^ 53"
  then have "bitlen x \<le> 53" by (simp add: bitlen_le_iff_power)
  with x show ?thesis by (cases "x = 0") (simp_all add: round53_def Let_def)
qed

lemma round53_error:
  assumes "0 \<le> x"
  shows "\<bar>round53 x - x\<bar> * 2 ^ 53 \<le> x"
proof (cases "x < 2 ^ 53")
  case True
  with assms show ?thesis by (simp add: round53_exact)
next
  case False
  define e where "e = nat (bitlen x - 53)"
  define q where "q = x div 2 ^ e"
  define r where "r = x mod 2 ^ e"
  have x: "x = q * 2 ^ e + r" "0 \<le> r" "r < 2 ^ e"
    unfolding q_def r_def by (metis div_mult_mod_eq, simp_all)
  have "2 ^ nat (bitlen x - 1) \<le> x" using bitlen_bounds [of x] False by simp
  moreover have "53 < bitlen x"
    using bitlen_le_iff_power [of x 53] False by simp
  then have "nat (bitlen x - 1) = 52 + e" by (simp add: e_def)
  ultimately have e: "2 ^ (52 + e) \<le> x" by simp
  have "0 < x" using False by simp
  then have "round53 x = (if 2 * r > 2 ^ e \<or> 2 * r = 2 ^ e \<and> odd q then q + 1 else q) * 2 ^ e"
    by (simp add: round53_def Let_def e_def q_def r_def)
  then have "2 * \<bar>round53 x - x\<bar> \<le> 2 ^ e"
    using x by (auto simp: algebra_simps split: if_splits)
  then have "\<bar>round53 x - x\<bar> * 2 ^ 53 \<le> 2 ^ e * 2 ^ 52" by simp
  with e show ?thesis by (simp add: power_add mult.commute)
qed

lemma safe_cache_size_bounds:
  assumes "0 \<le> limit" "limit < 2 ^ 48"
  shows "safe_cache_size limit * (20 * 1048576) \<le> 19 * limit"
    and "19 * limit \<le> (safe_cache_size limit + 1) * (20 * 1048576)"
    and "0 \<le> safe_cache_size limit"
proof -
  obtain x where x_def: "x = limit * safety_factor" by blast
  define p where "p = round53 x"
  have x: "0 \<le> x" "20 * x = limit * (19 * 2 ^ 53 - 8)"
    using assms by (simp_all add: x_def safety_factor_def)
  have error: "\<bar>p - x\<bar> * 2 ^ 53 \<le> x" using round53_error [OF x(1)] by (simp add: p_def)
  have "x * 20 \<le> limit * 19 * 2 ^ 53" using x(2) assms(1) by simp
  with error have "\<bar>p - x\<bar> * 20 \<le> 19 * limit" by simp
  then have "(p - x) * 20 \<le> 19 * limit" "(x - p) * 20 \<le> 19 * limit" by (simp_all add: abs_if split: if_splits)
  then have above: "20 * p \<le> 19 * limit * 2 ^ 53 + 11 * limit"
    and below: "19 * limit * 2 ^ 53 - 27 * limit \<le> 20 * p"
    using x(2) by (simp_all add: algebra_simps)
  have "0 \<le> p" using below assms(1) by simp
  have s: "safe_cache_size limit = p div 2 ^ 73"
    using assms \<open>0 \<le> p\<close> by (simp add: safe_cache_size_def go_quot_def round53_exact p_def x_def)
  have "p div 2 ^ 73 * 2 ^ 73 \<le> p" "p < (p div 2 ^ 73 + 1) * 2 ^ 73" by simp_all
  then show "safe_cache_size limit * (20 * 1048576) \<le> 19 * limit"
    "19 * limit \<le> (safe_cache_size limit + 1) * (20 * 1048576)"
    unfolding s using above below assms by simp_all
  show "0 \<le> safe_cache_size limit" using s \<open>0 \<le> p\<close> by (simp add: pos_imp_zdiv_nonneg_iff)
qed

end
