(* ===== verification/Node_Server.thy ===== *)
theory Node_Server
  imports Pod_Mounter Cache_Size
begin

text \<open>
  \<^verbatim>\<open>pkg/driver/node/node.go\<close>: the CSI node service. A request is a record of the fields the
  code reads; getters of protobuf messages give the zero value for a missing message. The result of a
  call is \<open>None\<close> for the empty response, or the gRPC status. The mounter is the Pod mounter, and the
  parser of Kubernetes quantities, which is third-party code, is an argument. Messages of statuses
  leave out the interpolated values.
\<close>

section \<open>Requests\<close>

datatype access_mode = UnknownMode | MultiNodeMultiWriter | MultiNodeReaderOnly | OtherMode int

record mount_capability =
  cap_flags :: "string list"
  cap_mount_group :: string

record volume_capability =
  cap_access_mode :: "access_mode option"
  cap_mount :: "mount_capability option"

record publish_request =
  pr_volume_id :: string
  pr_publish_context :: "(string \<times> string) list"
  pr_staging_target_path :: string
  pr_target_path :: string
  pr_volume_capability :: "volume_capability option"
  pr_readonly :: bool
  pr_secrets :: "(string \<times> string) list"
  pr_volume_context :: "(string \<times> string) list"

record unpublish_request =
  ur_volume_id :: string
  ur_target_path :: string

record node_server =
  ns_node_id :: string
  ns_mounter :: pod_mounter

datatype node_capability = VolumeMountGroup

definition nodeCaps :: "node_capability list" where "nodeCaps = [VolumeMountGroup]"

definition volumeCaps :: "access_mode list" where
  "volumeCaps = [MultiNodeMultiWriter, MultiNodeReaderOnly]"

definition filePerm770 :: string where "filePerm770 = ''770''"
definition filePerm660 :: string where "filePerm660 = ''660''"

definition unimplemented :: node_error where "unimplemented = NStatus ''Unimplemented'' []"
definition invalid :: "string \<Rightarrow> node_error" where "invalid msg = NStatus ''InvalidArgument'' msg"

definition get_mode :: "volume_capability \<Rightarrow> access_mode" where
  "get_mode cap = (case cap_access_mode cap of None \<Rightarrow> UnknownMode | Some m \<Rightarrow> m)"

definition isValidVolumeCapabilities :: "volume_capability list \<Rightarrow> bool" where
  "isValidVolumeCapabilities caps = list_all (\<lambda>cap. list_ex (\<lambda>m. m = get_mode cap) volumeCaps) caps"

abbreviation volume_ctx :: "publish_request \<Rightarrow> string \<Rightarrow> string" where
  "volume_ctx req \<equiv> go_lookup (map_of (pr_volume_context req))"

section \<open>Contexts for the credential provider\<close>

definition podIDFromTargetPath :: "string \<Rightarrow> string \<times> bool" where
  "podIDFromTargetPath target =
     (case parse_target target of Inl e \<Rightarrow> ([], False) | Inr tp \<Rightarrow> (tp_pod_id tp, True))"

definition serviceAccountTokensFromRequest :: "publish_request \<Rightarrow> string" where
  "serviceAccountTokensFromRequest req =
     (case map_of (pr_secrets req) CSIServiceAccountTokens of
        Some tokens \<Rightarrow> tokens
      | None \<Rightarrow> volume_ctx req CSIServiceAccountTokens)"

definition credentialProvideContextFromPublishRequest ::
    "walk \<Rightarrow> publish_request \<Rightarrow> args \<Rightarrow> provide_ctx" where
  "credentialProvideContextFromPublishRequest walk req as =
     (let ctx = volume_ctx req;
          podID = (if ctx CSIPodUID = [] then fst (podIDFromTargetPath (pr_target_path req))
            else ctx CSIPodUID);
          authSource = (if ctx AuthenticationSourceKey \<noteq> AuthenticationSourceUnspecified
            then ctx AuthenticationSourceKey else AuthenticationSourceDriver);
          bucketRegion = fst (args_Value walk as ArgRegion)
      in \<lparr>pc_write_path = [], pc_env_path = [], pc_workload_pod_id = podID, pc_mountpoint_pod_id = [],
          pc_volume_id = pr_volume_id req, pc_mount_kind = MountKindUnspecified,
          pc_authentication_source = authSource, pc_pod_namespace = ctx CSIPodNamespace,
          pc_service_account_tokens = serviceAccountTokensFromRequest req,
          pc_service_account_name = ctx CSIServiceAccountName,
          pc_service_account_eks_role_arn = [], pc_sts_region = ctx STSRegion,
          pc_bucket_region = bucketRegion\<rparr>)"

definition credentialCleanupContextFromUnpublishRequest :: "unpublish_request \<Rightarrow> cleanup_ctx" where
  "credentialCleanupContextFromUnpublishRequest req =
     \<lparr>cc_write_path = [], cc_pod_id = fst (podIDFromTargetPath (ur_target_path req)),
      cc_volume_id = ur_volume_id req, cc_mount_kind = MountKindUnspecified\<rparr>"

text \<open>Only fields that are safe to log are copied; deleting from a nil map is allowed.\<close>

definition logSafeNodePublishVolumeRequest :: "publish_request \<Rightarrow> publish_request" where
  "logSafeNodePublishVolumeRequest req =
     \<lparr>pr_volume_id = pr_volume_id req, pr_publish_context = pr_publish_context req,
      pr_staging_target_path = pr_staging_target_path req, pr_target_path = pr_target_path req,
      pr_volume_capability = pr_volume_capability req, pr_readonly = pr_readonly req,
      pr_secrets = [],
      pr_volume_context = AList.delete CSIServiceAccountTokens (pr_volume_context req)\<rparr>"

section \<open>The arguments of a mount\<close>

definition requested_flags :: "publish_request \<Rightarrow> volume_capability \<Rightarrow> string list" where
  "requested_flags req cap =
     (if pr_readonly req \<or> get_mode cap = MultiNodeReaderOnly then [ArgReadOnly] else []) @
     (case cap_mount cap of None \<Rightarrow> [] | Some m \<Rightarrow> cap_flags m)"

definition apply_fs_group :: "walk \<Rightarrow> volume_capability \<Rightarrow> args \<Rightarrow> args \<times> string" where
  "apply_fs_group walk cap as =
     (case cap_mount cap of
        None \<Rightarrow> (as, [])
      | Some m \<Rightarrow>
          if cap_mount_group m \<noteq> [] then
            (let as = args_SetIfAbsent walk as ArgGid (cap_mount_group m);
                 as = args_SetIfAbsent walk as ArgAllowOther ArgNoValue;
                 as = args_SetIfAbsent walk as ArgDirMode filePerm770;
                 as = args_SetIfAbsent walk as ArgFileMode filePerm660
             in (as, cap_mount_group m))
          else (as, []))"

definition allow_root_unless_other :: "walk \<Rightarrow> args \<Rightarrow> args" where
  "allow_root_unless_other walk as =
     (if \<not> args_Has walk as ArgAllowOther then args_SetIfAbsent walk as ArgAllowRoot ArgNoValue else as)"

text \<open>The default storage medium is the empty string.\<close>

definition limit_cache :: "(string \<Rightarrow> string + quantity) \<Rightarrow> walk \<Rightarrow> publish_request \<Rightarrow> args \<Rightarrow>
    node_error + args" where
  "limit_cache parseq walk req as =
     (let ctx = volume_ctx req; emptyDirSizeLimit = ctx CacheEmptyDirSizeLimit;
          disk = (ctx CacheEmptyDirMedium = [])
      in if emptyDirSizeLimit \<noteq> [] \<and> ctx Cache = CacheTypeEmptyDir then
           (case parseq emptyDirSizeLimit of
              Inl e \<Rightarrow> Inl (invalid ''Invalid cacheEmptyDirSizeLimit'')
            | Inr quantity \<Rightarrow>
                let emptyDirSizeLimitMiB = go_quot (quantity_value quantity) (1024 * 1024);
                    safeMaxCacheSizeMiB = safe_cache_size (quantity_value quantity);
                    (maxCacheSize, ok) = args_Value walk as ArgMaxCacheSize;
                    checked =
                      (if ok then
                         (case parse_int64 maxCacheSize of
                            None \<Rightarrow> Inl (invalid ''Invalid --max-cache-size'')
                          | Some maxCacheSizeMiB \<Rightarrow>
                              if maxCacheSizeMiB > emptyDirSizeLimitMiB then
                                Inl (invalid ''--max-cache-size exceeds cacheEmptyDirSizeLimit'')
                              else if disk \<and> maxCacheSizeMiB > safeMaxCacheSizeMiB then
                                Inr (fst (args_Remove walk as ArgMaxCacheSize))
                              else Inr as)
                       else Inr as)
                in map_sum id (\<lambda>as. if disk
                    then args_SetIfAbsent walk as ArgMaxCacheSize (format_int safeMaxCacheSizeMiB)
                    else as) checked)
         else Inr as)"

section \<open>Publishing a volume\<close>

record publish_plan =
  pl_bucket :: string
  pl_target :: string
  pl_ctx :: provide_ctx
  pl_args :: args
  pl_fs_group :: string
  pl_user_env :: environment

text \<open>From the checked request to what is handed to the mounter; nothing is called before that.\<close>

definition plan_mount :: "(string \<Rightarrow> string + quantity) \<Rightarrow> walk \<Rightarrow> (string list \<Rightarrow> string list) \<Rightarrow>
    publish_request \<Rightarrow> string \<Rightarrow> string \<Rightarrow> volume_capability \<Rightarrow> node_error + publish_plan" where
  "plan_mount parseq walk ord req bucket targetContainer volCap =
     (let as = ParseArgs (requested_flags req volCap)
      in if args_Has walk as ArgFsTab then
           Inl (invalid ''Running mount-s3 with mount flag -o is not supported in CSI Driver.'')
         else if args_Has walk as ArgCABundle then
           Inl (invalid ''Running mount-s3 with --ca-bundle is not supported in CSI Driver.'')
         else
           (let (as, fsGroup) = apply_fs_group walk volCap as;
                as = allow_root_unless_other walk as
            in case limit_cache parseq walk req as of
                 Inl e \<Rightarrow> Inl e
               | Inr as \<Rightarrow>
                   (case ParseUserEnvFromVolumeContext ord (pr_volume_context req) of
                      Inl e \<Rightarrow> Inl (invalid ''Could not parse user environment'')
                    | Inr userEnv \<Rightarrow>
                        Inr \<lparr>pl_bucket = bucket, pl_target = targetContainer,
                          pl_ctx = credentialProvideContextFromPublishRequest walk req as,
                          pl_args = as, pl_fs_group = fsGroup, pl_user_env = userEnv\<rparr>)))"

definition check_publish :: "getenv \<Rightarrow> publish_request \<Rightarrow>
    node_error + string \<times> string \<times> volume_capability" where
  "check_publish getenv req =
     (if pr_volume_id req = [] then Inl (invalid ''Volume ID not provided'')
      else case map_of (pr_volume_context req) BucketName of
          None \<Rightarrow> Inl (invalid ''Bucket name not provided'')
        | Some bucket \<Rightarrow>
            if pr_target_path req = [] then Inl (invalid ''Target path not provided'')
            else case KubeletHostPathToContainerPath getenv (pr_target_path req) of
                Inl e \<Rightarrow> Inl (invalid ''Failed to translate target path'')
              | Inr targetContainer \<Rightarrow>
                  (case pr_volume_capability req of
                     None \<Rightarrow> Inl (invalid ''Volume capability not provided'')
                   | Some volCap \<Rightarrow>
                       if \<not> isValidVolumeCapabilities [volCap]
                       then Inl (invalid ''Volume capability not supported'')
                       else Inr (bucket, targetContainer, volCap)))"

definition mount_planned :: "world \<Rightarrow> pod_mounter \<Rightarrow> publish_plan \<Rightarrow> node_error option node" where
  "mount_planned w pm pl = do {
     err \<leftarrow> pm_Mount w pm (pl_bucket pl) (pl_target pl) (pl_ctx pl) (pl_args pl) (pl_fs_group pl)
       (pl_user_env pl);
     if err \<noteq> None then do {
       _ \<leftarrow> os_remove w (pl_target pl);
       State_Monad.return (Some (NStatus ''Internal'' ''Could not mount'')) }
     else State_Monad.return None }"

definition NodePublishVolume :: "(string \<Rightarrow> string + quantity) \<Rightarrow> world \<Rightarrow> node_server \<Rightarrow>
    publish_request \<Rightarrow> node_error option node" where
  "NodePublishVolume parseq w ns req =
     (case check_publish (node_env w) req of
        Inl e \<Rightarrow> State_Monad.return (Some e)
      | Inr (bucket, targetContainer, volCap) \<Rightarrow> do {
          ord \<leftarrow> node_read (node_range w);
          case plan_mount parseq (pm_arg_walk (ns_mounter ns)) ord req bucket targetContainer volCap of
            Inl e \<Rightarrow> State_Monad.return (Some e)
          | Inr pl \<Rightarrow> mount_planned w (ns_mounter ns) pl })"

section \<open>Unpublishing a volume\<close>

definition unmount_published :: "world \<Rightarrow> unpublish_request \<Rightarrow> string \<Rightarrow> node_error option node" where
  "unmount_published w req targetContainer = do {
     err \<leftarrow> pm_Unmount w targetContainer (credentialCleanupContextFromUnpublishRequest req);
     State_Monad.return (map_option (\<lambda>_. NStatus ''Internal'' ''Could not unmount'') err) }"

text \<open>\<^verbatim>\<open>os.IsNotExist\<close> does not look into wrapped errors.\<close>

definition NodeUnpublishVolume :: "world \<Rightarrow> unpublish_request \<Rightarrow> node_error option node" where
  "NodeUnpublishVolume w req =
     (if ur_volume_id req = [] then State_Monad.return (Some (invalid ''Volume ID not provided''))
      else if ur_target_path req = [] then
        State_Monad.return (Some (invalid ''Target path not provided''))
      else case KubeletHostPathToContainerPath (node_env w) (ur_target_path req) of
          Inl e \<Rightarrow> State_Monad.return (Some (invalid ''Failed to translate target path''))
        | Inr targetContainer \<Rightarrow> do {
            res \<leftarrow> pm_IsMountPoint w targetContainer;
            case res of
              Inl e \<Rightarrow>
                if e = OsErr ErrNotExist then State_Monad.return None
                else if corrupted_mount w e then unmount_published w req targetContainer
                else State_Monad.return (Some (NStatus ''Internal'' ''Could not unmount''))
            | Inr mounted \<Rightarrow>
                if \<not> mounted then State_Monad.return None
                else unmount_published w req targetContainer })"

section \<open>The other calls\<close>

definition NodeStageVolume :: "node_error option" where "NodeStageVolume = Some unimplemented"
definition NodeUnstageVolume :: "node_error option" where "NodeUnstageVolume = Some unimplemented"
definition NodeGetVolumeStats :: "node_error option" where "NodeGetVolumeStats = Some unimplemented"
definition NodeExpandVolume :: "node_error option" where "NodeExpandVolume = Some unimplemented"

definition NodeGetCapabilities :: "node_capability list" where
  "NodeGetCapabilities = map (\<lambda>cap. cap) nodeCaps"

definition NodeGetInfo :: "node_server \<Rightarrow> string" where "NodeGetInfo ns = ns_node_id ns"

end
