(* ===== verification/Publish_Args.thy ===== *)
theory Publish_Args
  imports Node_Server
begin

text \<open>
  The arguments a volume is mounted with: what the node server adds to the mount options of the volume,
  and the limit it keeps the size of the local cache under.
\<close>

section \<open>Looking up an argument after each step\<close>

lemma publish_keys [simp]:
  "normalizeKey ArgGid = ArgGid" "normalizeKey ArgAllowOther = ArgAllowOther"
  "normalizeKey ArgAllowRoot = ArgAllowRoot" "normalizeKey ArgDirMode = ArgDirMode"
  "normalizeKey ArgFileMode = ArgFileMode" "normalizeKey ArgMaxCacheSize = ArgMaxCacheSize"
  by (simp_all add: normalizeKey_def has_prefix_def ArgGid_def ArgAllowOther_def ArgAllowRoot_def
      ArgDirMode_def ArgFileMode_def ArgMaxCacheSize_def)

lemma publish_keys_differ [simp]:
  "ArgGid \<noteq> ArgAllowOther" "ArgGid \<noteq> ArgAllowRoot" "ArgGid \<noteq> ArgDirMode" "ArgGid \<noteq> ArgFileMode"
  "ArgGid \<noteq> ArgMaxCacheSize" "ArgAllowOther \<noteq> ArgAllowRoot" "ArgAllowOther \<noteq> ArgDirMode"
  "ArgAllowOther \<noteq> ArgFileMode" "ArgAllowOther \<noteq> ArgMaxCacheSize" "ArgAllowRoot \<noteq> ArgDirMode"
  "ArgAllowRoot \<noteq> ArgFileMode" "ArgAllowRoot \<noteq> ArgMaxCacheSize" "ArgDirMode \<noteq> ArgFileMode"
  "ArgDirMode \<noteq> ArgMaxCacheSize" "ArgFileMode \<noteq> ArgMaxCacheSize"
  by (simp_all add: ArgGid_def ArgAllowOther_def ArgAllowRoot_def ArgDirMode_def ArgFileMode_def
      ArgMaxCacheSize_def)

lemmas look_absent = args_store.look_put_absent args_store.invar_put_absent

lemma args_Has_look: "args_Has walk as k \<longleftrightarrow> args_look walk as k \<noteq> None"
  using args_look_None [of walk as k] by simp

lemma args_look_normal: "args_look walk as (normalizeKey k) = args_look walk as k"
  by (rule args_store.look_norm) (simp add: normalizeKey_idem)

lemma args_Value_look:
  "args_Value walk as k = (v, ok) \<Longrightarrow> ok = (args_look walk as k \<noteq> None) \<and>
     (ok \<longrightarrow> args_look walk as k = Some v)"
  by (auto simp: args_look_def split: bool.splits)

definition mount_group :: "volume_capability \<Rightarrow> string" where
  "mount_group cap = (case cap_mount cap of None \<Rightarrow> [] | Some m \<Rightarrow> cap_mount_group m)"

text \<open>What is added for a volume with a group, by key.\<close>

definition group_default :: "string \<Rightarrow> string \<Rightarrow> string option" where
  "group_default g n =
     (if g = [] then None else if n = ArgGid then Some g else if n = ArgAllowOther then Some []
      else if n = ArgDirMode then Some ''770'' else if n = ArgFileMode then Some ''660'' else None)"

lemma apply_fs_group_look:
  assumes "unique_keys as" "apply_fs_group walk cap as = (as', g)"
  shows "g = mount_group cap \<and> unique_keys as' \<and>
    args_look walk as' k = (case args_look walk as k of
        Some v \<Rightarrow> Some v | None \<Rightarrow> group_default (mount_group cap) (normalizeKey k))"
  using assms
  by (auto simp: apply_fs_group_def mount_group_def group_default_def look_absent Let_def ArgNoValue_def
      filePerm770_def filePerm660_def split: option.splits if_splits)

lemma allow_root_look:
  assumes "unique_keys as"
  shows "unique_keys (allow_root_unless_other walk as)"
    and "args_look walk (allow_root_unless_other walk as) k = (case args_look walk as k of
        Some v \<Rightarrow> Some v
      | None \<Rightarrow> if normalizeKey k = ArgAllowRoot \<and> args_look walk as ArgAllowOther = None
          then Some [] else None)"
  using assms
  by (auto simp: allow_root_unless_other_def look_absent args_Has_look ArgNoValue_def split: option.split)

section \<open>The size of the cache\<close>

definition limits_cache :: "publish_request \<Rightarrow> bool" where
  "limits_cache req \<longleftrightarrow>
     volume_ctx req CacheEmptyDirSizeLimit \<noteq> [] \<and> volume_ctx req Cache = CacheTypeEmptyDir"

abbreviation on_disk :: "publish_request \<Rightarrow> bool" where
  "on_disk req \<equiv> volume_ctx req CacheEmptyDirMedium = []"

lemma limit_cache_look:
  assumes "unique_keys as" "limit_cache parseq walk req as = Inr as'" "normalizeKey k \<noteq> ArgMaxCacheSize"
  shows "unique_keys as' \<and> args_look walk as' k = args_look walk as k"
  using assms
  by (auto simp: limit_cache_def Let_def map_sum_def unique_keys_Remove args_look_Remove look_absent
      split: if_splits sum.splits prod.splits option.splits)

lemma limit_cache_off: "\<not> limits_cache req \<Longrightarrow> limit_cache parseq walk req as = Inr as"
  by (auto simp: limit_cache_def limits_cache_def)

text \<open>The value that is left, for a limit of \<open>n\<close> bytes.\<close>

lemma limit_cache_value:
  assumes as: "unique_keys as" and res: "limit_cache parseq walk req as = Inr as'" and on: "limits_cache req"
    and q: "parseq (volume_ctx req CacheEmptyDirSizeLimit) = Inr q"
  shows "args_look walk as ArgMaxCacheSize = Some u \<Longrightarrow>
      \<exists>n. parse_int64 u = Some n \<and> n \<le> go_quot (quantity_value q) (1024 * 1024)"
    and "args_look walk as' ArgMaxCacheSize =
      (let safe = safe_cache_size (quantity_value q); given = args_look walk as ArgMaxCacheSize
       in if on_disk req \<and> (given = None \<or> (\<exists>v n. given = Some v \<and> parse_int64 v = Some n \<and> safe < n))
          then Some (format_int safe) else given)"
proof -
  obtain v ok where v: "args_Value walk as ArgMaxCacheSize = (v, ok)" by force
  note given = args_Value_look [OF v]
  note body = res [unfolded limit_cache_def Let_def v q, simplified]
  show "\<exists>n. parse_int64 u = Some n \<and> n \<le> go_quot (quantity_value q) (1024 * 1024)"
    if "args_look walk as ArgMaxCacheSize = Some u"
    using body on given that q
    by (auto simp: limits_cache_def map_sum_def split: if_splits option.splits sum.splits)
  show "args_look walk as' ArgMaxCacheSize =
    (let safe = safe_cache_size (quantity_value q); given = args_look walk as ArgMaxCacheSize
     in if on_disk req \<and> (given = None \<or> (\<exists>v n. given = Some v \<and> parse_int64 v = Some n \<and> safe < n))
        then Some (format_int safe) else given)"
    using body on given as q
    by (auto simp: limits_cache_def map_sum_def Let_def look_absent args_look_Remove unique_keys_Remove
        split: if_splits option.splits sum.splits)
qed

text \<open>
  A size of \<open>n\<close> MiB respects the limit of a volume: at most the limit, and at most 95% of it if the
  cache is on the disk of the node.
\<close>

definition respects_limit :: "publish_request \<Rightarrow> int \<Rightarrow> string \<Rightarrow> bool" where
  "respects_limit req limit v \<longleftrightarrow>
     (\<exists>n. parse_int64 v = Some n \<and> n * 1048576 \<le> limit \<and>
        (on_disk req \<longrightarrow> n * 1048576 * 20 \<le> 19 * limit))"

lemma limit_cache_respects:
  assumes as: "unique_keys as" and res: "limit_cache parseq walk req as = Inr as'" and on: "limits_cache req"
    and q: "parseq (volume_ctx req CacheEmptyDirSizeLimit) = Inr q"
    and small: "0 \<le> quantity_value q" "quantity_value q < 2 ^ 48"
  shows "(on_disk req \<longrightarrow> args_look walk as' ArgMaxCacheSize \<noteq> None) \<and>
    (\<forall>v. args_look walk as' ArgMaxCacheSize = Some v \<longrightarrow> respects_limit req (quantity_value q) v)"
proof -
  let ?L = "quantity_value q" and ?given = "args_look walk as ArgMaxCacheSize"
  let ?safe = "safe_cache_size ?L"
  note safe = safe_cache_size_bounds [OF small]
  have fits: "n * 1048576 * 20 \<le> 19 * ?L" if "n \<le> ?safe" for n
    using that safe(1) by simp
  have under: "n * 1048576 \<le> ?L" if "n \<le> ?safe" for n
    using fits [OF that] small by simp
  have "?safe * 1048576 \<le> ?L" by (rule under) simp
  then have "parse_int64 (format_int ?safe) = Some ?safe"
    using safe(3) small by (intro parse_format_int) simp_all
  then have s: "respects_limit req ?L (format_int ?safe)"
    unfolding respects_limit_def using under [of ?safe] fits [of ?safe] by blast
  have given: "\<exists>n. parse_int64 v = Some n \<and> n * 1048576 \<le> ?L" if "?given = Some v" for v
  proof -
    from limit_cache_value(1) [OF as res on q that] obtain n
      where n: "parse_int64 v = Some n" "n \<le> go_quot ?L (1024 * 1024)" by blast
    then have "n \<le> ?L div 1048576" using small by (simp add: go_quot_def)
    then have "n * 1048576 \<le> ?L" by linarith
    then show ?thesis using n(1) by blast
  qed
  have look: "args_look walk as' ArgMaxCacheSize =
      (if on_disk req \<and> (?given = None \<or> (\<exists>v n. ?given = Some v \<and> parse_int64 v = Some n \<and> ?safe < n))
       then Some (format_int ?safe) else ?given)"
    using limit_cache_value(2) [OF as res on q] unfolding Let_def .
  have fine: "respects_limit req ?L v"
    if v: "?given = Some v" and "on_disk req \<Longrightarrow> \<not> (\<exists>n. parse_int64 v = Some n \<and> ?safe < n)" for v
  proof -
    obtain n where n: "parse_int64 v = Some n" "n * 1048576 \<le> ?L" using given [OF v] by blast
    moreover have "n \<le> ?safe" if "on_disk req" using n(1) that v \<open>on_disk req \<Longrightarrow> _\<close> by auto
    ultimately show ?thesis unfolding respects_limit_def using fits by blast
  qed
  show ?thesis
  proof (cases "on_disk req \<and> (?given = None \<or> (\<exists>v n. ?given = Some v \<and> parse_int64 v = Some n \<and> ?safe < n))")
    case True
    then show ?thesis unfolding look using s by simp
  next
    case False
    then show ?thesis unfolding look using fine by auto
  qed
qed

end
