(* ===== verification/Pod_Unmounter.thy ===== *)
theory Pod_Unmounter
  imports Pod_Mounter
begin

text \<open>
  \<^verbatim>\<open>pkg/driver/node/mounter/pod_unmounter.go\<close>: unmounting the sources of Mountpoint Pods that
  are marked for it, and of Pods that are gone.
\<close>

record pod_unmounter =
  pu_node_id :: string
  pu_kubelet_path :: string

definition mountpointPodSourcePath :: "pod_unmounter \<Rightarrow> string \<Rightarrow> string" where
  "mountpointPodSourcePath u mpPodName = path_join [SourceMountDir (pu_kubelet_path u), mpPodName]"

definition pu_podPath :: "pod_unmounter \<Rightarrow> string \<Rightarrow> string" where
  "pu_podPath u podUID = path_join [pu_kubelet_path u, ''pods'', podUID]"

section \<open>Waiting\<close>

definition waitUntilMountpointIsUnused :: "world \<Rightarrow> string \<Rightarrow> node_error option node" where
  "waitUntilMountpointIsUnused w source = do {
     err \<leftarrow> poll w (do {
       res \<leftarrow> FindReferencesToMountpoint w source;
       State_Monad.return (map_sum id (\<lambda>references. references = []) res) });
     State_Monad.return
       (case err of
          Some e \<Rightarrow> if nerror_is e ErrDeadlineExceeded then Some ErrMountpointStillInUse else Some e
        | None \<Rightarrow> None) }"

definition waitUntilMountpointIsUnmounted :: "world \<Rightarrow> string \<Rightarrow> node_error option node" where
  "waitUntilMountpointIsUnmounted w source =
     poll w (do {
       res \<leftarrow> CheckMountpoint w source;
       State_Monad.return (map_sum id (\<lambda>isMountpoint. \<not> isMountpoint) res) })"

section \<open>Unmounting a source\<close>

definition unmount_source :: "world \<Rightarrow> string \<Rightarrow> bool \<Rightarrow> bool \<Rightarrow> (bool \<times> node_error option) node" where
  "unmount_source w source isMountpoint isCorruptedMountpoint = do {
     err \<leftarrow> (if isMountpoint then waitUntilMountpointIsUnused w source else State_Monad.return None);
     case err of
       Some e \<Rightarrow> State_Monad.return
         (isMountpoint, Some (NWrapped ''failed to wait until orphan Mountpoint is unused'' e))
     | None \<Rightarrow> do {
         err \<leftarrow> (if isMountpoint \<or> isCorruptedMountpoint then os_unmount w source
           else State_Monad.return None);
         case err of
           Some e \<Rightarrow> State_Monad.return
             (isMountpoint, Some (NWrapped ''failed to unmount orphan Mountpoint'' e))
         | None \<Rightarrow> do {
             err \<leftarrow> waitUntilMountpointIsUnmounted w source;
             case err of
               Some e \<Rightarrow> State_Monad.return
                 (isMountpoint, Some (NWrapped ''failed to wait until orphan Mountpoint is unmounted'' e))
             | None \<Rightarrow> do {
                 err \<leftarrow> os_remove w source;
                 State_Monad.return (isMountpoint,
                   map_option (NWrapped ''failed to remove source directory of orphan Mountpoint'') err) } } } }"

definition unmountAndRemoveMountpointSource :: "world \<Rightarrow> string \<Rightarrow> (bool \<times> node_error option) node" where
  "unmountAndRemoveMountpointSource w source = do {
     res \<leftarrow> CheckMountpoint w source;
     case res of
       Inr isMountpoint \<Rightarrow> unmount_source w source isMountpoint False
     | Inl e \<Rightarrow>
         if is_not_exist e then State_Monad.return (False, None)
         else if \<not> corrupted_mount w e then
           State_Monad.return (False, Some (NWrapped ''failed to check orphan Mountpoint'' e))
         else unmount_source w source False True }"

section \<open>A Mountpoint Pod marked for unmounting\<close>

text \<open>Closing the file is of no consequence.\<close>

definition writeExitFile :: "world \<Rightarrow> string \<Rightarrow> node_error option node" where
  "writeExitFile w podPath = os_create w (PathOnHost podPath [KnownPathMountExit])"

definition pod_volume_id :: "pod \<Rightarrow> string" where
  "pod_volume_id mpPod =
     (case pod_annotations mpPod of
        None \<Rightarrow> go_lookup_nil (pod_labels mpPod) DeprecatedLabelVolumeId
      | Some annotations \<Rightarrow>
          (case annotations AnnotationVolumeId of
             Some volumeID \<Rightarrow> volumeID
           | None \<Rightarrow> go_lookup_nil (pod_labels mpPod) DeprecatedLabelVolumeId))"

definition cleanup_ctx_for :: "pod_unmounter \<Rightarrow> pod \<Rightarrow> cleanup_ctx" where
  "cleanup_ctx_for u mpPod =
     \<lparr>cc_write_path = PathOnHost (pu_podPath u (pod_uid mpPod)) [KnownPathCredentials],
       cc_pod_id = pod_uid mpPod, cc_volume_id = pod_volume_id mpPod, cc_mount_kind = MountKindPod\<rparr>"

definition cleanupCredentials :: "world \<Rightarrow> pod_unmounter \<Rightarrow> pod \<Rightarrow> node_error option node" where
  "cleanupCredentials w u mpPod = cred_Cleanup w (cleanup_ctx_for u mpPod)"

text \<open>Errors are logged.\<close>

definition cleanUnmount :: "world \<Rightarrow> pod_unmounter \<Rightarrow> pod \<Rightarrow> unit node" where
  "cleanUnmount w u mpPod =
     (let source = mountpointPodSourcePath u (pod_name mpPod);
          podPath = pu_podPath u (pod_uid mpPod)
      in do {
        err \<leftarrow> writeExitFile w podPath;
        if err \<noteq> None then State_Monad.return ()
        else do {
          (wasMountpoint, err) \<leftarrow> unmountAndRemoveMountpointSource w source;
          if err \<noteq> None then State_Monad.return ()
          else do {
            _ \<leftarrow> cleanupCredentials w u mpPod;
            State_Monad.return () } } })"

definition marked_for_unmount :: "pod \<Rightarrow> bool" where
  "marked_for_unmount mpPod \<longleftrightarrow> go_lookup_nil (pod_annotations mpPod) AnnotationNeedsUnmount = ''true''"

definition unmountMountpointPodIfNeeded :: "world \<Rightarrow> pod_unmounter \<Rightarrow> pod \<Rightarrow> unit node" where
  "unmountMountpointPodIfNeeded w u mpPod =
     (if \<not> marked_for_unmount mpPod then State_Monad.return ()
      else with_pod_lock (pod_name mpPod) (cleanUnmount w u mpPod))"

definition HandleMountpointPodUpdate :: "world \<Rightarrow> pod_unmounter \<Rightarrow> pod \<Rightarrow> pod \<Rightarrow> unit node" where
  "HandleMountpointPodUpdate w u old mpPod =
     (if node_name mpPod \<noteq> pu_node_id u then State_Monad.return ()
      else unmountMountpointPodIfNeeded w u mpPod)"

section \<open>Periodic clean-up\<close>

fun dangling_loop ::
    "world \<Rightarrow> pod_unmounter \<Rightarrow> string \<Rightarrow> (string \<times> bool) list \<Rightarrow> node_error option node" where
  "dangling_loop w u sourceMountDir [] = State_Monad.return None"
| "dangling_loop w u sourceMountDir ((mpPodName, isDir) # entries) =
     (if \<not> isDir then dangling_loop w u sourceMountDir entries
      else do {
        res \<leftarrow> watcher_Get w mpPodName;
        case res of
          Inl e \<Rightarrow>
            if e = NApi NotFound then do {
              _ \<leftarrow> unmountAndRemoveMountpointSource w (path_join [sourceMountDir, mpPodName]);
              dangling_loop w u sourceMountDir entries }
            else State_Monad.return
              (Some (NWrapped ''failed to check existence of Mountpoint Pod'' e))
        | Inr mpPod \<Rightarrow> do {
            _ \<leftarrow> unmountMountpointPodIfNeeded w u mpPod;
            dangling_loop w u sourceMountDir entries } })"

definition CleanupDanglingMounts :: "world \<Rightarrow> pod_unmounter \<Rightarrow> node_error option node" where
  "CleanupDanglingMounts w u =
     (let sourceMountDir = SourceMountDir (pu_kubelet_path u) in do {
        res \<leftarrow> os_read_dir w sourceMountDir;
        case res of
          Inl e \<Rightarrow> State_Monad.return
            (if is_not_exist e then None
             else Some (NWrapped ''failed to read source mount directory'' e))
        | Inr entries \<Rightarrow> dangling_loop w u sourceMountDir entries })"

text \<open>The loop of \<^verbatim>\<open>StartPeriodicCleanup\<close>, with the number of ticks before it is stopped.\<close>

fun StartPeriodicCleanup :: "world \<Rightarrow> pod_unmounter \<Rightarrow> nat \<Rightarrow> unit node" where
  "StartPeriodicCleanup w u 0 = State_Monad.return ()"
| "StartPeriodicCleanup w u (Suc ticks) = do {
     _ \<leftarrow> CleanupDanglingMounts w u;
     StartPeriodicCleanup w u ticks }"

section \<open>What a look at the source tells\<close>

text \<open>The latest call of a history that shows the state of a path.\<close>

fun latest_shows_free :: "string \<Rightarrow> nhistory \<Rightarrow> bool" where
  "latest_shows_free p (NvIsMountPoint q (Inr b) # h) = (q = p \<and> \<not> b)"
| "latest_shows_free p (NvListMounts (Inr ms) # h) = ((fsName, p) \<notin> set ms)"
| "latest_shows_free p h = False"

fun latest_error :: "string \<Rightarrow> nhistory \<Rightarrow> node_error option" where
  "latest_error p (NvStatx q (Some e) # h) = (if q = p then Some e else None)"
| "latest_error p (NvStat q (Some e) # h) = (if q = p then Some e else None)"
| "latest_error p (NvIsMountPoint q (Inl e) # h) = (if q = p then Some e else None)"
| "latest_error p (NvListMounts (Inl e) # h) = Some (NWrapped ''failed to list mounts'' e)"
| "latest_error p h = None"

fun latest_shows_unused :: "string \<Rightarrow> nhistory \<Rightarrow> bool" where
  "latest_shows_unused p (NvMountRefs q (Inr refs) # h) = (q = p \<and> refs = [])"
| "latest_shows_unused p h = False"

lemma runs_check_latest:
  "runs (CheckMountpoint w target) (\<lambda>r new. (\<forall>e \<in> set new. probe e) \<and>
     (r = Inr False \<longrightarrow> (\<forall>h. latest_shows_free target (new @ h))) \<and>
     (\<forall>e. r = Inl e \<longrightarrow> (\<forall>h. latest_error target (new @ h) = Some e)))"
proof -
  have statx: "runs (statx w target) (\<lambda>r new. (\<forall>e \<in> set new. probe e) \<and>
      (\<forall>e. r = Some e \<longrightarrow> (\<forall>h. latest_error target (new @ h) = Some e)))"
    unfolding statx_def by (intro runs) auto
  show ?thesis
    unfolding CheckMountpoint_def
    by (rule runs_bind [OF statx], intro runs) (auto simp: list_ex_iff split: sum.splits)
qed

lemma runs_poll_until:
  assumes "runs cond (\<lambda>r new. (\<forall>e \<in> set new. P e) \<and> (r = Inr True \<longrightarrow> (\<forall>h. F (new @ h))))"
  shows "runs (poll_until n cond) (\<lambda>r new. (\<forall>e \<in> set new. P e) \<and> (r = None \<longrightarrow> (\<forall>h. F (new @ h))))"
proof (induction n)
  case (Suc n)
  show ?case
    unfolding poll_until.simps
    by (rule runs_bind [OF assms], intro runs; (rule runs_mono [OF Suc])?; auto)
qed (auto intro!: runs)

lemma runs_poll:
  assumes "runs cond (\<lambda>r new. (\<forall>e \<in> set new. P e) \<and> (r = Inr True \<longrightarrow> (\<forall>h. F (new @ h))))"
  shows "runs (poll w cond) (\<lambda>r new. (\<forall>e \<in> set new. P e) \<and> (r = None \<longrightarrow> (\<forall>h. F (new @ h))))"
  unfolding poll_def by (intro runs runs_poll_until assms)

lemma runs_unused:
  "runs (waitUntilMountpointIsUnused w source) (\<lambda>r new. (\<forall>e \<in> set new. probe e) \<and>
     (r = None \<longrightarrow> (\<forall>h. latest_shows_unused source (new @ h))))"
  unfolding waitUntilMountpointIsUnused_def
proof (rule runs_bind [OF runs_poll])
  show "runs (FindReferencesToMountpoint w source \<bind>
      (\<lambda>res. State_Monad.return (map_sum id (\<lambda>references. references = []) res)))
    (\<lambda>r new. (\<forall>e \<in> set new. probe e) \<and> (r = Inr True \<longrightarrow> (\<forall>h. latest_shows_unused source (new @ h))))"
    by (intro runs) (auto split: sum.splits simp: map_sum_def)
qed (intro runs, auto split: option.splits if_splits)

lemma runs_unmounted:
  "runs (waitUntilMountpointIsUnmounted w source) (\<lambda>r new. (\<forall>e \<in> set new. probe e) \<and>
     (r = None \<longrightarrow> (\<forall>h. latest_shows_free source (new @ h))))"
  unfolding waitUntilMountpointIsUnmounted_def
proof (rule runs_poll, rule runs_bind [OF runs_check_latest], intro runs, goal_cases)
  case (1 r new)
  then show ?case by (cases r) auto
qed

end
