(* ===== verification/Pod_Mounter_Safety.thy ===== *)
theory Pod_Mounter_Safety
  imports Pod_Mounter_Properties
begin

text \<open>
  Mounting as a whole: a workload's volume is bound only to the Mountpoint Pod its attachment names,
  every privileged step for a Mountpoint Pod is made while its lock is held, and the lock is given back.
\<close>

section \<open>What a locked mount does\<close>

definition source_path :: "pod_mounter \<Rightarrow> string \<Rightarrow> string" where
  "source_path pm mpPodName = path_join [SourceMountDir (pm_kubelet_path pm), mpPodName]"

text \<open>The calls allowed for one Mountpoint Pod, given its source, socket and the target.\<close>

fun step_for :: "string \<Rightarrow> string \<Rightarrow> string \<Rightarrow> node_event \<Rightarrow> bool" where
  "step_for source sock target (NvMount fd p fl opt r) = (p = source)"
| "step_for source sock target (NvSend p opts r) = (p = sock)"
| "step_for source sock target (NvUnmount p r) = (p = source)"
| "step_for source sock target (NvBindMount p q r) = (p = source \<and> q = target)"
| "step_for source sock target (NvLock n) = False"
| "step_for source sock target (NvUnlock n) = False"
| "step_for source sock target e = True"

fun is_bind :: "node_event \<Rightarrow> bool" where
  "is_bind (NvBindMount p q r) = True"
| "is_bind e = False"

lemma probe_step [simp]: "probe e \<Longrightarrow> step_for source sock target e \<and> \<not> is_bind e \<and> \<not> lock_call e"
  by (cases e) auto

lemma mount_step_step [simp]:
  "mount_step source e \<Longrightarrow> step_for source sock target e \<and> \<not> is_bind e \<and> \<not> lock_call e"
  by (cases e) auto

lemma credential_step [simp]: "credential_call w p e \<Longrightarrow> step_for source sock target e \<and> \<not> is_bind e \<and> \<not> lock_call e"
  by (cases e) (auto simp: credential_call_def Let_def)

lemma hand_over_step:
  "hand_over sock errp opts e \<Longrightarrow> step_for source sock target e \<and> \<not> is_bind e \<and> \<not> lock_call e"
  by (auto simp: hand_over_def)

abbreviation quiet_for :: "string \<Rightarrow> string \<Rightarrow> string \<Rightarrow> nhistory \<Rightarrow> bool" where
  "quiet_for source sock target new \<equiv> \<forall>e \<in> set new. step_for source sock target e \<and> \<not> is_bind e"

lemma runs_Provide: "runs (Provide w p) (\<lambda>_ new. \<forall>e \<in> set new. credential_call w p e)"
  by (rule adds_only_runs [OF Provide_calls])

lemma runs_provideCredentials:
  "runs (provideCredentials w podPath uid arn ctx) (\<lambda>_ new. quiet_for source sock target new)"
  unfolding provideCredentials_def ensureCredentialsDirExists_def Let_def
proof (rule runs_bind [where S = "\<lambda>_ new. quiet_for source sock target new"], intro runs, goal_cases)
  case (2 res new)
  then show ?case
    by (intro runs, simp) (rule runs_mono [OF runs_Provide], auto)
qed simp

text \<open>Preparing a path: look at it, create it, or unmount it.\<close>

definition setup_call :: "string \<Rightarrow> node_event \<Rightarrow> bool" where
  "setup_call t e \<longleftrightarrow> probe e \<or> (\<exists>r. e = NvMkdirAll t r) \<or> (\<exists>r. e = NvUnmount t r)"

lemma runs_check_or_setup:
  "runs (check_or_setup w t) (\<lambda>r new. (\<forall>e \<in> set new. setup_call t e) \<and>
     (r = Inr True \<longrightarrow> seen_mounted t new))"
  unfolding check_or_setup_def pm_IsMountPoint_def
proof (rule runs_bind [OF runs_CheckMountpoint], intro runs, goal_cases)
  case (1 r new e)
  have "runs (verifyOrSetupMountTarget w t e) (\<lambda>_ new. \<forall>e \<in> set new. setup_call t e)"
    unfolding verifyOrSetupMountTarget_def unmountTarget_def
    by (intro runs) (auto simp: setup_call_def)
  then show ?case
    by (rule runs_bind, intro runs) (use 1 in \<open>auto simp: setup_call_def split: option.split\<close>)
qed (auto simp: setup_call_def seen_mounted_def)

lemma setup_call_quiet: "setup_call source e \<Longrightarrow> step_for source sock target e \<and> \<not> is_bind e"
  by (auto simp: setup_call_def)

lemma hand_over_quiet:
  "\<forall>e \<in> set mid. hand_over sock errp opts e \<Longrightarrow> quiet_for source sock target mid"
  using hand_over_step by blast

lemma mounted_run_quiet:
  assumes "mounted_run source sock errp res new"
  shows "quiet_for source sock target new"
proof -
  obtain fd fl opt mode c u mid opts where
    new: "new = (if res = None then [] else [NvUnmount source u]) @ [NvCloseFd fd c] @ mid @
      [NvMount fd source fl opt None, NvFileMode source mode, NvOpenFuse (Inr fd)]"
    and "\<forall>e \<in> set mid. hand_over sock errp opts e"
    using assms unfolding mounted_run_def by blast
  then have "quiet_for source sock target mid" by (intro hand_over_quiet)
  then show ?thesis by (auto simp: new)
qed

lemma runs_mountS3:
  "runs (mountS3AtSource w pm source mpPod podPath b ce ue au as) (\<lambda>res new.
     quiet_for source (PathOnHost podPath [KnownPathMountSock]) target new \<and>
     (res = None \<longrightarrow> seen_mounted source new))"
proof (rule runs_mono [OF runs_mountS3AtSource], elim disjE conjE, goal_cases)
  case (2 res new)
  then show ?case
    using mounted_run_quiet [OF 2] by (auto simp: mounted_run_def)
qed auto

lemma runs_BindMount:
  "runs (BindMount w source target) (\<lambda>_ new. new = [] \<or> (\<exists>r. new = [NvBindMount source target r]))"
  unfolding BindMount_def linux_bind_mount_def by (intro runs) auto

lemma quiet_nguarded:
  "quiet_for source sock target new \<Longrightarrow> nguarded (\<lambda>h e. is_bind e \<longrightarrow> P h) new"
  by (auto intro: nguarded_all)

text \<open>Everything is for this Pod, and the bind mount, if any, comes last, on a source seen mounted.\<close>

lemma runs_mount_locked:
  assumes "source = source_path pm mpPodName" "sock = PathOnHost podPath [KnownPathMountSock]"
  shows "runs (mount_locked w pm b target isT ctx as ue att mpPodName mpPod podPath)
    (\<lambda>res new. (\<forall>e \<in> set new. step_for source sock target e) \<and>
       nguarded (\<lambda>h e. is_bind e \<longrightarrow> seen_mounted source h) new)"
proof -
  have check: "runs (check_or_setup w source) (\<lambda>r new. quiet_for source sock target new \<and>
      (r = Inr True \<longrightarrow> seen_mounted source new))"
    by (rule runs_mono [OF runs_check_or_setup]) (use setup_call_quiet in blast)
  show ?thesis
  unfolding mount_locked_def Let_def source_path_def [symmetric] assms(1) [symmetric]
proof (rule runs_bind [OF check], intro runs, goal_cases)
  case (1 r new)
  then show ?case by (auto intro: quiet_nguarded)
next
  case (2 r new mounted)
  show ?case
  proof (rule runs_bind [OF runs_provideCredentials [where source = source and sock = sock and target = target]],
      intro runs, goal_cases)
    case (1 cred creds res src e)
    with 2 show ?case by (auto intro: quiet_nguarded simp: nguarded_append)
  next
    case (2 cred creds res src credEnv)
    let ?S = "\<lambda>err later. quiet_for source sock target later \<and>
      (err = None \<longrightarrow> mounted \<or> seen_mounted source later)"
    have mount: "runs (if \<not> mounted then mountS3AtSource w pm source mpPod podPath b credEnv ue src as
        else State_Monad.return None) ?S"
      by (intro runs, rule runs_mono [OF runs_mountS3]) (auto simp: assms(2))
    have all: "(\<forall>e \<in> set (m @ creds @ new). step_for source sock target e) \<and>
        nguarded (\<lambda>h e. is_bind e \<longrightarrow> seen_mounted source h) (m @ creds @ new)"
      if q: "quiet_for source sock target m" for m
    proof -
      have "quiet_for source sock target (m @ creds @ new)"
        using q 2 \<open>quiet_for source sock target new \<and> (r = Inr True \<longrightarrow> seen_mounted source new)\<close> by auto
      then show ?thesis using quiet_nguarded by blast
    qed
    have seen: "seen_mounted source (m @ creds @ new)" if "mounted \<or> seen_mounted source m" for m
      using that \<open>quiet_for source sock target new \<and> (r = Inr True \<longrightarrow> seen_mounted source new)\<close>
        \<open>r = Inr mounted\<close> by auto
    show ?case
    proof (rule runs_bind [OF mount], intro runs, goal_cases)
      case (1 err m)
      then show ?case using all [of m] by auto
    next
      case (2 err m)
      then have "runs (BindMount w source target) (\<lambda>_ bind.
          (\<forall>e \<in> set (bind @ m @ creds @ new). step_for source sock target e) \<and>
          nguarded (\<lambda>h e. is_bind e \<longrightarrow> seen_mounted source h) (bind @ m @ creds @ new))"
        by (intro runs_mono [OF runs_BindMount]) (use all [of m] seen [of m] in auto)
      then show ?case
        by (rule runs_bind, intro runs) simp
    next
      case (3 err m e)
      then show ?case using all [of m] by auto
    qed
  qed
qed
qed

section \<open>Finding the Mountpoint Pod\<close>

definition assigned_to :: "s3pa \<Rightarrow> string \<Rightarrow> string \<Rightarrow> bool" where
  "assigned_to a mpPodName podID \<longleftrightarrow>
     (\<exists>att \<in> set (alookup (sp_attachments a) mpPodName). workload_pod_uid att = podID)"

lemma find_in_list_Some:
  "find_in_list ord podID items = Some (a, n) \<Longrightarrow> a \<in> set items \<and> assigned_to a n podID"
  by (induction items)
    (auto simp: find_assignment_def assigned_to_def list_ex_iff dest!: find_SomeD split: option.splits)

lemma runs_attachment_loop:
  "runs (attachment_loop w filters podID n) (\<lambda>r new. (\<forall>e \<in> set new. \<exists>x. e = NvListAttachments filters x) \<and>
     (\<forall>a mp. r = Inr (a, mp) \<longrightarrow>
        (\<exists>items. NvListAttachments filters (Inr items) \<in> set new \<and> a \<in> set items \<and> assigned_to a mp podID)))"
proof (induction n)
  case (Suc n)
  show ?case
    unfolding attachment_loop.simps
    by (intro runs, simp, rule runs_mono [OF Suc]) (auto dest!: find_in_list_Some)
qed (auto intro!: runs)

lemma runs_getAttachment:
  "runs (getS3PodAttachmentWithRetry w pm v p fsGroup) (\<lambda>r new.
     (\<forall>e \<in> set new. \<exists>x. e = NvListAttachments (attachment_filters_for pm v p fsGroup) x) \<and>
     (\<forall>a mp. r = Inr (a, mp) \<longrightarrow>
        (\<exists>items. NvListAttachments (attachment_filters_for pm v p fsGroup) (Inr items) \<in> set new \<and>
           a \<in> set items \<and> assigned_to a mp (pc_workload_pod_id p))))"
  unfolding getS3PodAttachmentWithRetry_def
  by (intro runs, rule runs_attachment_loop)

section \<open>The whole operation\<close>

text \<open>
  Before the call \<open>h\<close> was the history of this mount: it holds the Pod's lock, a listing of the
  attachments of this volume assigned the workload to the Pod, and the Pod was observed running.
\<close>

definition serving ::
    "pod_mounter \<Rightarrow> string \<Rightarrow> provide_ctx \<Rightarrow> string \<Rightarrow> string \<Rightarrow> pod \<Rightarrow> nhistory \<Rightarrow> bool" where
  "serving pm target ctx fsGroup n p h \<longleftrightarrow>
     holds n h \<and> isPodReady p \<and> (\<exists>e \<in> set h. p \<in> set (observed_pods n e)) \<and>
     (\<exists>v items a. volumeNameFromTargetPath target = Inr v \<and> a \<in> set items \<and>
        NvListAttachments (attachment_filters_for pm v ctx fsGroup) (Inr items) \<in> set h \<and>
        assigned_to a n (pc_workload_pod_id ctx))"

definition mount_guard ::
    "pod_mounter \<Rightarrow> string \<Rightarrow> provide_ctx \<Rightarrow> string \<Rightarrow> nhistory \<Rightarrow> node_event \<Rightarrow> bool" where
  "mount_guard pm target ctx fsGroup h e =
     (let serves = serving pm target ctx fsGroup in
      case e of
        NvMount fd src fl opt r \<Rightarrow> \<exists>n p. src = source_path pm n \<and> serves n p h
      | NvSend sock opts r \<Rightarrow>
          \<exists>n p. sock = PathOnHost (pm_podPath pm (pod_uid p)) [KnownPathMountSock] \<and> serves n p h
      | NvBindMount src tgt r \<Rightarrow> tgt = target \<and>
          (\<exists>n p. src = source_path pm n \<and> serves n p h \<and> seen_mounted src h)
      | NvUnmount q r \<Rightarrow> q = target \<or> (\<exists>n p. q = source_path pm n \<and> serves n p h)
      | NvLock n \<Rightarrow> (\<forall>m. \<not> holds m h)
      | NvUnlock n \<Rightarrow> holds n h
      | _ \<Rightarrow> True)"

lemma guard_setup: "setup_call target e \<Longrightarrow> mount_guard pm target ctx g h e"
  by (cases e) (auto simp: setup_call_def mount_guard_def)

lemma guard_step:
  assumes "step_for (source_path pm n) (PathOnHost (pm_podPath pm (pod_uid p)) [KnownPathMountSock]) target e"
    and "serving pm target ctx g n p h" "is_bind e \<longrightarrow> seen_mounted (source_path pm n) h"
  shows "mount_guard pm target ctx g h e"
  using assms by (cases e) (auto simp: mount_guard_def)

lemma serving_append:
  assumes "serving pm target ctx g n p h" "\<forall>e \<in> set new. \<not> lock_call e"
  shows "serving pm target ctx g n p (new @ h)"
  using assms holds_append [of new n h] unfolding serving_def set_append by blast

text \<open>Waiting and looking up make no privileged call.\<close>

lemma guard_harmless:
  "watch_call e \<Longrightarrow> mount_guard pm target ctx g h e \<and> \<not> lock_call e"
  "mount_guard pm target ctx g h (NvListAttachments f x)"
  "probe e \<Longrightarrow> mount_guard pm target ctx g h e"
  "credential_call w p e \<Longrightarrow> mount_guard pm target ctx g h e \<and> \<not> lock_call e"
  by (cases e; auto simp: mount_guard_def credential_call_def Let_def)+

lemma step_for_no_lock: "step_for source sock target e \<Longrightarrow> \<not> lock_call e"
  by (cases e) auto

lemma locked_guarded:
  assumes "\<forall>e \<in> set new. step_for (source_path pm n)
      (PathOnHost (pm_podPath pm (pod_uid p)) [KnownPathMountSock]) target e"
    and "nguarded (\<lambda>h e. is_bind e \<longrightarrow> seen_mounted (source_path pm n) h) new"
    and "serving pm target ctx g n p h0"
  shows "nguarded (\<lambda>h. mount_guard pm target ctx g (h @ h0)) new"
proof (rule nguarded_mono [OF assms(2)])
  fix h e
  assume h: "set h \<subseteq> set new" and e: "e \<in> set new" and bind: "is_bind e \<longrightarrow> seen_mounted (source_path pm n) h"
  have "\<not> lock_call x" if "x \<in> set h" for x
    using that h assms(1) step_for_no_lock by blast
  then have "serving pm target ctx g n p (h @ h0)"
    by (intro serving_append assms(3)) blast
  then show "mount_guard pm target ctx g (h @ h0) e"
    by (rule guard_step [rotated]) (use e bind assms(1) in auto)
qed

lemma not_holds: "\<forall>e \<in> set new. \<not> lock_call e \<Longrightarrow> \<not> holds n new"
  using holds_append [of new n "[]"] by simp

text \<open>The calls before the lock is taken satisfy the guard whatever the history.\<close>

definition harmless :: "pod_mounter \<Rightarrow> string \<Rightarrow> provide_ctx \<Rightarrow> string \<Rightarrow> node_event \<Rightarrow> bool" where
  "harmless pm target ctx g e \<longleftrightarrow> (\<forall>h. mount_guard pm target ctx g h e) \<and> \<not> lock_call e"

lemma harmless_run:
  "\<forall>e \<in> set new. harmless pm target ctx g e \<Longrightarrow>
     nguarded (mount_guard pm target ctx g) new \<and> (\<forall>n. \<not> holds n new)"
  by (auto simp: harmless_def not_holds intro: nguarded_all)

lemma harmless_calls:
  "probe e \<Longrightarrow> harmless pm target ctx g e"
  "setup_call target e \<Longrightarrow> harmless pm target ctx g e"
  "watch_call e \<Longrightarrow> harmless pm target ctx g e"
  "credential_call w p e \<Longrightarrow> harmless pm target ctx g e"
  "harmless pm target ctx g (NvListAttachments f x)"
  using guard_harmless guard_setup setup_call_quiet step_for_no_lock
  by (auto simp: harmless_def) (metis probe_step)+

lemma runs_locked_mount:
  assumes before: "\<forall>e \<in> set new. harmless pm target ctx g e"
    and ready: "isPodReady p" "\<exists>e \<in> set new. p \<in> set (observed_pods n e)"
    and listed: "\<exists>v items a. volumeNameFromTargetPath target = Inr v \<and> a \<in> set items \<and>
        NvListAttachments (attachment_filters_for pm v ctx g) (Inr items) \<in> set new \<and>
        assigned_to a n (pc_workload_pod_id ctx)"
  shows "runs (with_pod_lock n (mount_locked w pm b target isT ctx as ue att n p (pm_podPath pm (pod_uid p))))
    (\<lambda>res later. nguarded (mount_guard pm target ctx g) (later @ new) \<and> (\<forall>n. \<not> holds n (later @ new)))"
proof -
  let ?G = "mount_guard pm target ctx g" and ?h0 = "NvLock n # new"
  have serving: "serving pm target ctx g n p ?h0"
    using ready listed by (auto simp: serving_def)
  have "nguarded ?G new \<and> (\<forall>n. \<not> holds n new)" by (rule harmless_run [OF before])
  then have new: "nguarded ?G ?h0" "\<And>m. holds m ?h0 \<longleftrightarrow> m = n"
    by (auto simp: mount_guard_def)
  show ?thesis
    unfolding with_pod_lock_def
  proof (intro runs, rule runs_bind [OF runs_mount_locked [OF refl refl]], intro runs, goal_cases)
    case (1 u res mid unlock)
    then have "nguarded (\<lambda>h. ?G (h @ ?h0)) mid"
      by (intro locked_guarded [OF _ _ serving]) auto
    with new have "nguarded ?G (mid @ ?h0)" by (simp add: nguarded_append)
    moreover have "holds m (mid @ ?h0) \<longleftrightarrow> m = n" for m
      using 1 step_for_no_lock new(2) holds_append [of mid m ?h0] by blast
    ultimately show ?case by (auto simp: mount_guard_def)
  qed
qed

lemma runs_IsSystemD: "runs (IsSystemDMountpoint w target) (\<lambda>_ new. \<forall>e \<in> set new. probe e)"
  unfolding IsSystemDMountpoint_def by (intro runs) simp_all

lemma runs_refresh: "runs (refresh_systemd w ctx) (\<lambda>_ new. \<forall>e \<in> set new. harmless pm target ctx' g e)"
  unfolding refresh_systemd_def Let_def
  by (rule runs_bind [OF runs_Provide], intro runs) (auto intro: harmless_calls)

text \<open>From the look-up of the attachment on.\<close>

definition assigned_mount ::
    "world \<Rightarrow> pod_mounter \<Rightarrow> string \<Rightarrow> string \<Rightarrow> string \<Rightarrow> bool \<Rightarrow> provide_ctx \<Rightarrow> args \<Rightarrow> string \<Rightarrow> environment \<Rightarrow>
       node_error option node" where
  "assigned_mount w pm b target v isT ctx as g ue = do {
     res \<leftarrow> getS3PodAttachmentWithRetry w pm v ctx g;
     case res of
       Inl e \<Rightarrow> State_Monad.return
         (Some (NWrapped ''Failed to find corresponding MountpointS3PodAttachment'' e))
     | Inr (attachment, mpPodName) \<Rightarrow> do {
         res \<leftarrow> waitForMountpointPod w pm mpPodName;
         case res of
           Inl e \<Rightarrow> State_Monad.return (Some (NWrapped ''Failed to wait for Mountpoint Pod'' e))
         | Inr (mpPod, podPath) \<Rightarrow>
             with_pod_lock mpPodName
               (mount_locked w pm b target isT ctx as ue attachment mpPodName mpPod podPath) } }"

lemma runs_waitForMountpointPod:
  "runs (waitForMountpointPod w pm n) (\<lambda>r new. (\<forall>e \<in> set new. watch_call e) \<and>
     (\<forall>p path. r = Inr (p, path) \<longrightarrow> path = pm_podPath pm (pod_uid p) \<and> isPodReady p \<and>
        (\<exists>e \<in> set new. p \<in> set (observed_pods n e))))"
  unfolding waitForMountpointPod_def
proof (rule runs_bind [OF runs_watcher_Wait], intro runs, goal_cases)
  case (1 r new)
  then show ?case by (cases r) auto
qed

lemma runs_assigned_mount:
  assumes "volumeNameFromTargetPath target = Inr v" "\<forall>e \<in> set new. harmless pm target ctx g e"
  shows "runs (assigned_mount w pm b target v isT ctx as g ue) (\<lambda>res later.
    nguarded (mount_guard pm target ctx g) (later @ new) \<and> (\<forall>n. \<not> holds n (later @ new)))"
  unfolding assigned_mount_def
proof (rule runs_bind [OF runs_getAttachment], intro runs, goal_cases)
  case (1 r l e)
  have "\<forall>e \<in> set (l @ new). harmless pm target ctx g e"
    using 1 assms(2) harmless_calls(5) by fastforce
  from harmless_run [OF this] show ?case by simp
next
  case (2 r l x a n)
  have before: "\<forall>e \<in> set (l @ new). harmless pm target ctx g e"
    using 2 assms(2) harmless_calls(5) by fastforce
  show ?case
  proof (rule runs_bind [OF runs_waitForMountpointPod], intro runs, goal_cases)
    case (1 r2 l2 e)
    then have "\<forall>e \<in> set (l2 @ l @ new). harmless pm target ctx g e"
      using before harmless_calls(3) by auto
    from harmless_run [OF this] show ?case by simp
  next
    case (2 r2 l2 y p path)
    then have "\<forall>e \<in> set (l2 @ l @ new). harmless pm target ctx g e"
      using before harmless_calls(3) by auto
    moreover have "\<exists>e \<in> set (l2 @ l @ new). p \<in> set (observed_pods n e)" "isPodReady p"
        "path = pm_podPath pm (pod_uid p)"
      using 2 by auto
    moreover have "\<exists>v items a. volumeNameFromTargetPath target = Inr v \<and> a \<in> set items \<and>
        NvListAttachments (attachment_filters_for pm v ctx g) (Inr items) \<in> set (l2 @ l @ new) \<and>
        assigned_to a n (pc_workload_pod_id ctx)"
      using assms(1) \<open>r = Inr x\<close> \<open>x = (a, n)\<close>
        \<open>(\<forall>e \<in> set l. _ e) \<and> (\<forall>a mp. r = Inr (a, mp) \<longrightarrow> _ a mp)\<close> by fastforce
    ultimately show ?case
      using runs_locked_mount [of "l2 @ l @ new" pm target ctx g p n w b isT as ue a] by simp
  qed
qed

lemma runs_refresh_after:
  assumes "\<forall>e \<in> set new. harmless pm target ctx g e"
  shows "runs (refresh_systemd w ctx) (\<lambda>res later.
    nguarded (mount_guard pm target ctx g) (later @ new) \<and> (\<forall>n. \<not> holds n (later @ new)))"
proof (rule runs_mono [OF runs_refresh])
  fix r :: "node_error option" and later
  assume "\<forall>e \<in> set later. harmless pm target ctx g e"
  with assms have "\<forall>e \<in> set (later @ new). harmless pm target ctx g e" by auto
  then show "nguarded (mount_guard pm target ctx g) (later @ new) \<and> (\<forall>n. \<not> holds n (later @ new))"
    by (rule harmless_run)
qed

lemma runs_mount_guarded:
  "runs (pm_Mount w pm b target ctx as g ue) (\<lambda>res new.
     nguarded (mount_guard pm target ctx g) new \<and> (\<forall>n. \<not> holds n new))"
  unfolding pm_Mount_def assigned_mount_def [symmetric]
proof (intro runs, simp, rule runs_bind [OF runs_check_or_setup], intro runs, goal_cases)
  case (1 v r0 new0 e)
  then show ?case using harmless_run [of new0 pm target ctx g] harmless_calls by auto
next
  case (2 v r0 new0 isT)
  have sys: "runs (if isT then IsSystemDMountpoint w target else State_Monad.return False)
      (\<lambda>_ new. \<forall>e \<in> set new. probe e)"
    by (intro runs runs_IsSystemD) simp
  show ?case
  proof (rule runs_bind [OF sys], intro runs, goal_cases)
    case (1 systemd l)
    have "\<forall>e \<in> set (l @ new0). harmless pm target ctx g e"
      using 1 \<open>(\<forall>e \<in> set new0. setup_call target e) \<and> _\<close> harmless_calls by auto
    then show ?case using runs_refresh_after [of "l @ new0" pm target ctx g w] by simp
  next
    case (2 systemd l)
    have "\<forall>e \<in> set (l @ new0). harmless pm target ctx g e"
      using 2 \<open>(\<forall>e \<in> set new0. setup_call target e) \<and> _\<close> harmless_calls by auto
    then show ?case
      using runs_assigned_mount [OF \<open>volumeNameFromTargetPath target = Inr v\<close>, of "l @ new0" pm ctx g w b isT as ue]
      by simp
  qed
qed

text \<open>
  C19: A workload's volume is served by the Mountpoint Pod the controller assigned to the workload, and by
  no other. In every run of a mount, the source that is bound to the target, the sources that are
  mounted or unmounted, and the socket that gets the options belong to a Mountpoint Pod that was
  observed running, that a listing of the volume's attachments had assigned to this workload, and whose
  lock is held at that moment; the source is bound only after it was seen mounted; apart from that only
  the target itself is ever unmounted; no other lock is taken meanwhile, and the lock is released at the end.
\<close>

theorem mount_serves_assigned_pod:
  "runs (pm_Mount w pm b target ctx as g ue) (\<lambda>res new.
     nguarded (mount_guard pm target ctx g) new \<and> (\<forall>n. \<not> holds n new))"
  by (rule runs_mount_guarded)

end
