(* ===== verification/Pod_Unmounter_Safety.thy ===== *)
theory Pod_Unmounter_Safety
  imports Pod_Unmounter Pod_Mounter_Safety
begin

text \<open>
  Unmounting is safe: a source is unmounted only when nothing refers to it any more or when it is
  broken, removed only when it was just seen not to be mounted, and the credentials are removed last;
  for a Mountpoint Pod that exists all of it happens under its lock and only if it is marked.
\<close>

section \<open>Releasing a source\<close>

definition may_unmount :: "world \<Rightarrow> string \<Rightarrow> nhistory \<Rightarrow> bool" where
  "may_unmount w source h \<longleftrightarrow>
     latest_shows_unused source h \<or> (\<exists>e. latest_error source h = Some e \<and> corrupted_mount w e)"

definition release_guard :: "world \<Rightarrow> string \<Rightarrow> nhistory \<Rightarrow> node_event \<Rightarrow> bool" where
  "release_guard w source h e =
     (case e of
        NvUnmount p r \<Rightarrow> p = source \<and> may_unmount w source h
      | NvRemove p r \<Rightarrow> p = source \<and> latest_shows_free source h
      | _ \<Rightarrow> probe e)"

definition source_gone :: "string \<Rightarrow> nhistory \<Rightarrow> bool" where
  "source_gone source h \<longleftrightarrow> NvRemove source None \<in> set h \<or>
     (\<exists>h1 h2 e. h = h1 @ h2 \<and> latest_error source h2 = Some e \<and> is_not_exist e)"

lemma source_gone_append: "source_gone source h \<Longrightarrow> source_gone source (new @ h)"
  unfolding source_gone_def by (metis Un_iff append.assoc set_append)

lemma release_probe: "probe e \<Longrightarrow> release_guard w source h e"
  by (cases e) (auto simp: release_guard_def)

lemma guarded_probes: "\<forall>e \<in> set new. probe e \<Longrightarrow> nguarded (\<lambda>h. release_guard w source (h @ h0)) new"
  by (auto intro: nguarded_all release_probe)

text \<open>The two steps as calls added to a given history.\<close>

definition releases :: "world \<Rightarrow> string \<Rightarrow> nhistory \<Rightarrow> bool" where
  "releases w source new \<longleftrightarrow> (\<forall>h0. nguarded (\<lambda>h. release_guard w source (h @ h0)) new)"

lemma releases_append: "releases w source a \<Longrightarrow> releases w source b \<Longrightarrow> releases w source (a @ b)"
  by (auto simp: releases_def nguarded_append)

lemma releases_probes: "\<forall>e \<in> set new. probe e \<Longrightarrow> releases w source new"
  by (simp add: releases_def guarded_probes)

lemma runs_unmount_source:
  assumes "c \<longrightarrow> (\<forall>h. \<exists>e. latest_error source (new @ h) = Some e \<and> corrupted_mount w e)" "m \<longrightarrow> \<not> c"
    and "releases w source new"
  shows "runs (unmount_source w source m c) (\<lambda>r later. releases w source (later @ new) \<and>
    (snd r = None \<longrightarrow> (\<forall>h. source_gone source (later @ new @ h))))"
proof -
  have wait: "runs (if m then waitUntilMountpointIsUnused w source else State_Monad.return None)
      (\<lambda>err l. (\<forall>e \<in> set l. probe e) \<and>
        (err = None \<longrightarrow> (if m then \<forall>h. latest_shows_unused source (l @ h) else l = [])))"
    by (intro runs; (rule runs_mono [OF runs_unused])?; auto)
  show ?thesis
    unfolding unmount_source_def
  proof (rule runs_bind [OF wait], intro runs, goal_cases)
    case (1 err l)
    then have may: "(m \<or> c) \<longrightarrow> (\<forall>h. may_unmount w source (l @ new @ h))"
      and l: "releases w source (l @ new)"
      using assms by (auto simp: may_unmount_def releases_append releases_probes)
    have unmount: "runs (if m \<or> c then os_unmount w source else State_Monad.return None)
        (\<lambda>_ u. releases w source (u @ l @ new))"
      using l may by (intro runs) (auto simp: releases_def release_guard_def)
    show ?case
    proof (rule runs_bind [OF unmount], intro runs, goal_cases)
      case (1 err u)
      show ?case
      proof (rule runs_bind [OF runs_unmounted], intro runs, goal_cases)
        case (1 err v x)
        then have "releases w source (v @ u @ l @ new)" "\<forall>h. latest_shows_free source (v @ u @ l @ new @ h)"
          using releases_append [OF releases_probes] \<open>releases w source (u @ l @ new)\<close> by simp_all
        then show ?case
          by (auto simp: releases_def release_guard_def source_gone_def)
      next
        case (2 err v e)
        then show ?case
          using releases_append [OF releases_probes] \<open>releases w source (u @ l @ new)\<close> by auto
      qed
    next
      case (2 err u e)
      then show ?case by simp
    qed
  next
    case (2 err l e)
    then show ?case using assms by (auto intro: releases_append releases_probes)
  qed
qed

lemma runs_release:
  "runs (unmountAndRemoveMountpointSource w source) (\<lambda>r new. releases w source new \<and>
     (snd r = None \<longrightarrow> (\<forall>h. source_gone source (new @ h))))"
  unfolding unmountAndRemoveMountpointSource_def
proof (rule runs_bind [OF runs_check_latest], intro runs, goal_cases)
  case (1 r new e)
  then show ?case by (fastforce simp: source_gone_def releases_probes)
next
  case (2 r new e)
  then show ?case by (simp add: releases_probes)
next
  case (3 r new e)
  then show ?case
    by (intro runs_mono [OF runs_unmount_source [where new = new]]) (auto simp: releases_probes)
next
  case (4 r new b)
  then show ?case
    by (intro runs_mono [OF runs_unmount_source [where new = new]]) (auto simp: releases_probes)
qed

section \<open>Unmounting a marked Mountpoint Pod\<close>

definition exit_path :: "pod_unmounter \<Rightarrow> pod \<Rightarrow> string" where
  "exit_path u p = PathOnHost (pu_podPath u (pod_uid p)) [KnownPathMountExit]"

definition files_of :: "world \<Rightarrow> pod_unmounter \<Rightarrow> pod \<Rightarrow> string list" where
  "files_of w u p =
     credential_files w (PathOnHost (pu_podPath u (pod_uid p)) [KnownPathCredentials]) (pod_uid p)
       (pod_volume_id p)"

text \<open>
  The calls allowed for a Mountpoint Pod: looking, and, if it is marked and its lock is held, writing
  the exit file; after that unmounting and removing its source; and after that its credentials.
\<close>

definition pod_guard :: "world \<Rightarrow> pod_unmounter \<Rightarrow> pod \<Rightarrow> nhistory \<Rightarrow> node_event \<Rightarrow> bool" where
  "pod_guard w u p h e \<longleftrightarrow>
     (let source = mountpointPodSourcePath u (pod_name p); exited = NvCreate (exit_path u p) None \<in> set h in
      marked_for_unmount p \<and>
      (probe e \<or> e = NvLock (pod_name p) \<and> (\<forall>n. \<not> holds n h) \<or>
       e = NvUnlock (pod_name p) \<and> holds (pod_name p) h \<or>
       holds (pod_name p) h \<and>
         (case e of
            NvCreate q r \<Rightarrow> q = exit_path u p
          | NvUnmount q r \<Rightarrow> exited \<and> q = source \<and> may_unmount w source h
          | NvRemove q r \<Rightarrow> exited \<and>
              (q = source \<and> latest_shows_free source h \<or> q \<in> set (files_of w u p) \<and> source_gone source h)
          | _ \<Rightarrow> False)))"

lemma runs_cred_Cleanup:
  "runs (cred_Cleanup w c) (\<lambda>_ new. \<forall>e \<in> set new. \<exists>f \<in> set (credential_files w (cc_write_path c)
     (cc_pod_id c) (cc_volume_id c)). \<exists>r. e = NvRemove f r)"
  unfolding cred_Cleanup_def cleanupFromPod_def cleanupFromDriver_def cleanupToken_def aws_Cleanup_def
  by (intro adds_only_runs pres preserves_adds_call)
    (simp_all add: credential_files_def sts_token_path_def eks_token_path_def profile_path_def
      prefixedPath_def settings_path_def prefixed_def)

lemma nguarded_mem: "nguarded G new \<Longrightarrow> e \<in> set new \<Longrightarrow> \<exists>h. G h e"
  by (induction new) auto

lemma release_no_lock: "releases w source new \<Longrightarrow> \<forall>e \<in> set new. \<not> lock_call e"
proof
  fix e
  assume "releases w source new" "e \<in> set new"
  then obtain h where "release_guard w source h e"
    using nguarded_mem unfolding releases_def by metis
  then show "\<not> lock_call e" by (cases e) (auto simp: release_guard_def)
qed

lemma release_pod_guard:
  assumes "releases w (mountpointPodSourcePath u (pod_name p)) new" "marked_for_unmount p"
    and "holds (pod_name p) h0" "NvCreate (exit_path u p) None \<in> set h0"
  shows "nguarded (\<lambda>h. pod_guard w u p (h @ h0)) new"
proof (rule nguarded_mono)
  show "nguarded (\<lambda>h. release_guard w (mountpointPodSourcePath u (pod_name p)) (h @ h0)) new"
    using assms(1) by (simp add: releases_def)
next
  fix h e
  assume "set h \<subseteq> set new" and e: "release_guard w (mountpointPodSourcePath u (pod_name p)) (h @ h0) e"
  then have "holds (pod_name p) (h @ h0)"
    using assms(3) release_no_lock [OF assms(1)] holds_append [of h] by blast
  with e assms show "pod_guard w u p (h @ h0) e"
    by (cases e) (auto simp: release_guard_def pod_guard_def Let_def)
qed

lemma runs_cleanupCredentials:
  assumes marked: "marked_for_unmount p" and locked: "holds (pod_name p) h1"
    and exited: "NvCreate (exit_path u p) None \<in> set h1"
    and gone: "source_gone (mountpointPodSourcePath u (pod_name p)) h1"
  shows "runs (cleanupCredentials w u p) (\<lambda>_ c. nguarded (\<lambda>h. pod_guard w u p (h @ h1)) c \<and>
    (\<forall>e \<in> set c. \<not> lock_call e))"
  unfolding cleanupCredentials_def
proof (rule runs_mono [OF runs_cred_Cleanup])
  fix r c
  assume "\<forall>e \<in> set c. \<exists>f \<in> set (credential_files w (cc_write_path (cleanup_ctx_for u p))
    (cc_pod_id (cleanup_ctx_for u p)) (cc_volume_id (cleanup_ctx_for u p))). \<exists>r. e = NvRemove f r"
  then have c: "\<forall>e \<in> set c. \<exists>f \<in> set (files_of w u p). \<exists>r. e = NvRemove f r"
    by (simp add: files_of_def cleanup_ctx_for_def)
  then have quiet: "\<forall>e \<in> set c. \<not> lock_call e" by auto
  have "pod_guard w u p (h @ h1) e" if "set h \<subseteq> set c" "e \<in> set c" for h e
  proof -
    have "holds (pod_name p) (h @ h1)" using holds_append [of h] that(1) quiet locked by blast
    then show ?thesis
      using that(2) c marked exited source_gone_append [OF gone, of h]
      by (auto simp: pod_guard_def Let_def dest!: bspec)
  qed
  then have "nguarded (\<lambda>h. pod_guard w u p (h @ h1)) c"
    by (rule nguarded_mono [OF nguarded_True])
  with quiet show "nguarded (\<lambda>h. pod_guard w u p (h @ h1)) c \<and> (\<forall>e \<in> set c. \<not> lock_call e)"
    by blast
qed

lemma runs_cleanUnmount:
  assumes marked: "marked_for_unmount p" and locked: "holds (pod_name p) h0"
  shows "runs (cleanUnmount w u p) (\<lambda>_ new. nguarded (\<lambda>h. pod_guard w u p (h @ h0)) new \<and>
    (\<forall>e \<in> set new. \<not> lock_call e))"
  unfolding cleanUnmount_def writeExitFile_def Let_def
proof (intro runs, goal_cases)
  case (1 err)
  then show ?case using assms by (simp add: pod_guard_def Let_def exit_path_def)
next
  case (2 err)
  let ?ev = "NvCreate (exit_path u p) None" and ?source = "mountpointPodSourcePath u (pod_name p)"
  have ev: "NvCreate (PathOnHost (pu_podPath u (pod_uid p)) [KnownPathMountExit]) err = ?ev"
    using 2 by (simp add: exit_path_def)
  have g0: "pod_guard w u p h0 ?ev" using assms by (simp add: pod_guard_def Let_def)
  have rel: "nguarded (\<lambda>h. pod_guard w u p (h @ h0)) (l @ [?ev]) \<and> (\<forall>e \<in> set (l @ [?ev]). \<not> lock_call e)"
    if "releases w ?source l" for l
    using release_pod_guard [OF that marked, of "?ev # h0"] locked g0 release_no_lock [OF that]
    by (simp add: nguarded_append)
  show ?case
    unfolding ev
  proof (rule runs_bind [OF runs_release], intro runs, goal_cases)
    case (1 x l was err)
    then show ?case using rel [of l] by auto
  next
    case (2 x l was err)
    then have r: "releases w ?source l" and gone: "source_gone ?source (l @ ?ev # h0)" by auto
    have "holds (pod_name p) (l @ ?ev # h0)"
      using release_no_lock [OF r] locked by (simp add: holds_append)
    from runs_cleanupCredentials [OF marked this _ gone] show ?case
      by (intro runs_bind [OF runs_cleanupCredentials [OF marked _ _ gone]] runs)
        (use rel [OF r] \<open>holds (pod_name p) (l @ ?ev # h0)\<close> in \<open>auto simp: nguarded_append\<close>)
  qed
qed

text \<open>With no lock held before.\<close>

lemma runs_unmountIfNeeded:
  assumes "\<forall>n. \<not> holds n h0"
  shows "runs (unmountMountpointPodIfNeeded w u p) (\<lambda>_ new.
    nguarded (\<lambda>h. pod_guard w u p (h @ h0)) new \<and> (\<forall>n. \<not> holds n (new @ h0)))"
  unfolding unmountMountpointPodIfNeeded_def with_pod_lock_def
proof (intro runs, goal_cases)
  case 1
  then show ?case using assms by simp
next
  case (2 a)
  then have marked: "marked_for_unmount p" by simp
  have "runs (cleanUnmount w u p) (\<lambda>_ new.
      nguarded (\<lambda>h. pod_guard w u p (h @ NvLock (pod_name p) # h0)) new \<and> (\<forall>e \<in> set new. \<not> lock_call e))"
    by (rule runs_cleanUnmount [OF marked]) simp
  then show ?case
  proof (rule runs_bind, intro runs, goal_cases)
    case (1 a new b)
    then have "holds n (new @ NvLock (pod_name p) # h0) \<longleftrightarrow> n = pod_name p" for n
      using assms 1 by (auto simp: holds_append)
    with 1 marked assms show ?case
      by (auto simp: nguarded_append pod_guard_def Let_def)
  qed
qed

lemma runs_update_guarded:
  "runs (HandleMountpointPodUpdate w u old p) (\<lambda>_ new.
     nguarded (pod_guard w u p) new \<and> (\<forall>n. \<not> holds n new) \<and>
     (new = [] \<or> node_name p = pu_node_id u \<and> marked_for_unmount p))"
proof (cases "node_name p \<noteq> pu_node_id u \<or> \<not> marked_for_unmount p")
  case True
  then show ?thesis
    by (auto simp: HandleMountpointPodUpdate_def unmountMountpointPodIfNeeded_def intro!: runs)
next
  case False
  then show ?thesis
    unfolding HandleMountpointPodUpdate_def
    by (intro runs runs_mono [OF runs_unmountIfNeeded [of "[]"]]) auto
qed

text \<open>
  C20: A Mountpoint Pod is unmounted cleanly or left alone. In every run of the handler of a Pod update
  nothing is done unless the Pod runs on this node and is marked; then, under the Pod's lock, first the
  exit file is written; only after that the Pod's own source is unmounted, directly after it was seen
  to have no references, so that no workload loses its volume, or to be broken; the source directory is
  removed directly after it was seen not to be mounted; the Pod's credentials are removed only once the
  source is gone; and the lock is released in the end.
\<close>

theorem marked_pod_unmounted_cleanly:
  "runs (HandleMountpointPodUpdate w u old p) (\<lambda>_ new.
     nguarded (pod_guard w u p) new \<and> (\<forall>n. \<not> holds n new) \<and>
     (new = [] \<or> node_name p = pu_node_id u \<and> marked_for_unmount p))"
  by (rule runs_update_guarded)

section \<open>The periodic clean-up\<close>

text \<open>
  The calls the clean-up of dangling mounts may make: it works on directories it read, and for each one
  either the latest lookup of a Pod was for that name and found none, or the Pod was found, and the calls
  for it are guarded.
\<close>

fun last_lookup :: "nhistory \<Rightarrow> (string \<times> (node_error + pod)) option" where
  "last_lookup [] = None"
| "last_lookup (NvGetPod n r # h) = Some (n, r)"
| "last_lookup (_ # h) = last_lookup h"

fun lookup_call :: "node_event \<Rightarrow> bool" where
  "lookup_call (NvGetPod n r) = True" | "lookup_call e = False"

lemma last_lookup_append: "\<forall>e \<in> set g. \<not> lookup_call e \<Longrightarrow> last_lookup (g @ h) = last_lookup h"
proof (induction g)
  case (Cons e g)
  then show ?case by (cases e) simp_all
qed simp

lemma quiet_part: "\<forall>e \<in> set new. \<not> lookup_call e \<Longrightarrow> set g \<subseteq> set new \<Longrightarrow> \<forall>e \<in> set g. \<not> lookup_call e"
  by blast

lemma last_lookup_before: "last_lookup h = Some x \<Longrightarrow> last_lookup (h @ h0) = Some x"
  by (induction h rule: last_lookup.induct) simp_all

lemma release_no_lookup: "releases w source new \<Longrightarrow> \<forall>e \<in> set new. \<not> lookup_call e"
proof
  fix e
  assume "releases w source new" "e \<in> set new"
  then obtain h where "release_guard w source h e"
    using nguarded_mem unfolding releases_def by metis
  then show "\<not> lookup_call e" by (cases e) (auto simp: release_guard_def)
qed

definition sweep_guard :: "world \<Rightarrow> pod_unmounter \<Rightarrow> nhistory \<Rightarrow> node_event \<Rightarrow> bool" where
  "sweep_guard w u h e \<longleftrightarrow>
     (let dir = SourceMountDir (pu_kubelet_path u) in
      (\<exists>r. e = NvReadDir dir r) \<or> (\<exists>n r. e = NvGetPod n r) \<or>
      (\<exists>n entries. NvReadDir dir (Inr entries) \<in> set h \<and> (n, True) \<in> set entries \<and>
         (last_lookup h = Some (n, Inl (NApi NotFound)) \<and>
            release_guard w (path_join [dir, n]) h e \<or>
          (\<exists>p. NvGetPod n (Inr p) \<in> set h \<and> pod_guard w u p h e))))"

lemma sweep_lookup [simp]:
  "sweep_guard w u h (NvGetPod n r)" "sweep_guard w u h (NvReadDir (SourceMountDir (pu_kubelet_path u)) x)"
  by (simp_all add: sweep_guard_def)

lemma sweep_orphan:
  "NvReadDir (SourceMountDir (pu_kubelet_path u)) (Inr all) \<in> set h \<Longrightarrow> (n, True) \<in> set all \<Longrightarrow>
     last_lookup h = Some (n, Inl (NApi NotFound)) \<Longrightarrow>
     release_guard w (path_join [SourceMountDir (pu_kubelet_path u), n]) h e \<Longrightarrow> sweep_guard w u h e"
  "NvReadDir (SourceMountDir (pu_kubelet_path u)) (Inr all) \<in> set h \<Longrightarrow> (n, True) \<in> set all \<Longrightarrow>
     NvGetPod n (Inr p) \<in> set h \<Longrightarrow> pod_guard w u p h e \<Longrightarrow> sweep_guard w u h e"
  unfolding sweep_guard_def Let_def by blast+

lemma runs_dangling_loop:
  assumes "nguarded (sweep_guard w u) h0" "\<forall>n. \<not> holds n h0"
    and "NvReadDir (SourceMountDir (pu_kubelet_path u)) (Inr all) \<in> set h0" "set entries \<subseteq> set all"
  shows "runs (dangling_loop w u (SourceMountDir (pu_kubelet_path u)) entries) (\<lambda>_ new.
    nguarded (sweep_guard w u) (new @ h0) \<and> (\<forall>n. \<not> holds n (new @ h0)))"
  using assms
proof (induction entries arbitrary: h0)
  case Nil
  then show ?case by (auto intro!: runs)
next
  case (Cons entry entries)
  obtain n d where entry: "entry = (n, d)" by force
  let ?dir = "SourceMountDir (pu_kubelet_path u)"
  show ?case
    unfolding entry dangling_loop.simps watcher_Get_def
  proof (intro runs, goal_cases)
    case 1
    show ?case by (rule Cons.IH) (use Cons.prems in simp_all)
  next
    case (2 res e)
    let ?h = "NvGetPod n (Inl (NApi NotFound)) # h0"
    have h: "nguarded (sweep_guard w u) ?h" "\<forall>n. \<not> holds n ?h"
      using Cons.prems by simp_all
    have found: "NvReadDir ?dir (Inr all) \<in> set h0" "(n, True) \<in> set all"
      using Cons.prems 2 entry by auto
    have step: "nguarded (sweep_guard w u) (new @ ?h) \<and> (\<forall>n. \<not> holds n (new @ ?h))"
      if r: "releases w (path_join [?dir, n]) new" for new
    proof -
      have "nguarded (\<lambda>g. release_guard w (path_join [?dir, n]) (g @ ?h)) new"
        using r by (simp add: releases_def)
      then have "nguarded (\<lambda>g. sweep_guard w u (g @ ?h)) new"
        by (rule nguarded_mono, intro sweep_orphan(1) [of u all _ n])
          (use found last_lookup_append [OF quiet_part [OF release_no_lookup [OF r]]] in auto)
      then show ?thesis
        using h release_no_lock [OF r] by (auto simp: nguarded_append holds_append)
    qed
    show ?case
    proof (rule runs_bind [OF runs_release], goal_cases)
      case (1 r new)
      then have new: "nguarded (sweep_guard w u) (new @ ?h)" "\<forall>n. \<not> holds n (new @ ?h)"
        using step by simp_all
      have "runs (dangling_loop w u ?dir entries) (\<lambda>_ later.
          nguarded (sweep_guard w u) (later @ new @ ?h) \<and> (\<forall>n. \<not> holds n (later @ new @ ?h)))"
        by (rule Cons.IH [OF new]) (use found(1) Cons.prems(4) in simp_all)
      then show ?case using 2 by simp
    qed
  next
    case (3 res e)
    then show ?case using Cons.prems by simp
  next
    case (4 res p)
    let ?h = "NvGetPod n (Inr p) # h0"
    have h: "nguarded (sweep_guard w u) ?h" "\<forall>n. \<not> holds n ?h"
      using Cons.prems by simp_all
    have found: "NvReadDir ?dir (Inr all) \<in> set h0" "(n, True) \<in> set all"
      using Cons.prems 4 entry by auto
    show ?case
    proof (rule runs_bind [OF runs_unmountIfNeeded [OF h(2)]], goal_cases)
      case (1 r new)
      have "nguarded (\<lambda>g. sweep_guard w u (g @ ?h)) new"
        by (rule nguarded_mono [of "\<lambda>g. pod_guard w u p (g @ ?h)"])
          (use 1 found in \<open>auto intro: sweep_orphan(2)\<close>)
      then have new: "nguarded (sweep_guard w u) (new @ ?h)" "\<forall>n. \<not> holds n (new @ ?h)"
        using 1 h(1) by (simp_all add: nguarded_append)
      have "runs (dangling_loop w u ?dir entries) (\<lambda>_ later.
          nguarded (sweep_guard w u) (later @ new @ ?h) \<and> (\<forall>n. \<not> holds n (later @ new @ ?h)))"
        by (rule Cons.IH [OF new]) (use found(1) Cons.prems(4) in simp_all)
      then show ?case using 4 by simp
    qed
  qed
qed

lemma runs_sweep_guarded:
  "runs (CleanupDanglingMounts w u) (\<lambda>_ new.
     nguarded (sweep_guard w u) new \<and> (\<forall>n. \<not> holds n new))"
  unfolding CleanupDanglingMounts_def
proof (intro runs, goal_cases)
  case (1 dir res e)
  then show ?case by simp
next
  case (2 dir res entries)
  let ?h = "[NvReadDir (SourceMountDir (pu_kubelet_path u)) (Inr entries)]"
  have "runs (dangling_loop w u (SourceMountDir (pu_kubelet_path u)) entries) (\<lambda>_ new.
      nguarded (sweep_guard w u) (new @ ?h) \<and> (\<forall>n. \<not> holds n (new @ ?h)))"
    by (rule runs_dangling_loop [where all = entries]) simp_all
  with 2 show ?case by simp
qed

text \<open>
  C30: The periodic clean-up never takes a mount away from a workload. In every run it unmounts or removes
  only directories it found among the sources, for which either no Mountpoint Pod exists any more, and
  then only after seeing no reference to the mount, or a Pod exists that is marked, and then with all
  the guards of a clean unmount and under the Pod's lock.
\<close>

theorem periodic_cleanup_guarded:
  "runs (CleanupDanglingMounts w u) (\<lambda>_ new.
     nguarded (sweep_guard w u) new \<and> (\<forall>n. \<not> holds n new))"
  by (rule runs_sweep_guarded)

end
