(* ===== verification/Node_Server_Safety.thy ===== *)
theory Node_Server_Safety
  imports Publish_Args Pod_Unmounter_Safety
begin

text \<open>
  What the CSI node service guarantees: requests it cannot serve are refused before anything is called,
  volumes are mounted with the arguments they are configured with, the local cache stays under its
  limit, and what unpublishing does and reports.
\<close>

section \<open>Arguments\<close>

text \<open>The value of an argument, from the mount options of the volume and the group of the workload.\<close>

definition configured_value :: "walk \<Rightarrow> args \<Rightarrow> string \<Rightarrow> string \<Rightarrow> string option" where
  "configured_value walk user g k =
     (case args_look walk user k of
        Some v \<Rightarrow> Some v
      | None \<Rightarrow>
          if g = [] then
            (if normalizeKey k = ArgAllowRoot \<and> args_look walk user ArgAllowOther = None then Some [] else None)
          else group_default g (normalizeKey k))"

lemma plan_args:
  assumes user: "unique_keys (ParseArgs (requested_flags req cap))"
    and plan: "plan_mount parseq walk ord req b t cap = Inr pl"
  obtains as where "unique_keys as" "limit_cache parseq walk req as = Inr (pl_args pl)"
    "\<And>k. args_look walk as k =
       configured_value walk (ParseArgs (requested_flags req cap)) (mount_group cap) k"
    "pl_fs_group pl = mount_group cap"
proof -
  let ?user = "ParseArgs (requested_flags req cap)"
  obtain as g where fs: "apply_fs_group walk cap ?user = (as, g)" by force
  note group = apply_fs_group_look [OF user fs]
  note root = allow_root_look [of as walk, OF conjunct1 [OF conjunct2 [OF group]]]
  have "limit_cache parseq walk req (allow_root_unless_other walk as) = Inr (pl_args pl) \<and> pl_fs_group pl = g"
    using plan fs by (auto simp: plan_mount_def Let_def split: if_splits sum.splits)
  moreover have "args_look walk (allow_root_unless_other walk as) k = configured_value walk ?user (mount_group cap) k" for k
    unfolding root(2) using group by (auto simp: configured_value_def group_default_def split: option.split)
  ultimately show thesis using that root(1) group by blast
qed

text \<open>
  C24: The arguments of a volume. What the volume or the workload asks for wins; a volume with a group
  gets the group, \<^verbatim>\<open>--allow-other\<close> and the permissions of a group unless they are given; one
  without gets \<^verbatim>\<open>--allow-root\<close> unless \<^verbatim>\<open>--allow-other\<close> is given; a read-only request
  always gets \<^verbatim>\<open>--read-only\<close>; and nothing else is added, apart from the size of the cache.
\<close>

theorem volume_arguments_as_configured:
  assumes "unique_keys (ParseArgs (requested_flags req cap))"
    and "plan_mount parseq walk ord req b t cap = Inr pl"
  shows "pl_fs_group pl = mount_group cap \<and> unique_keys (pl_args pl) \<and>
    (normalizeKey k \<noteq> ArgMaxCacheSize \<or> \<not> limits_cache req \<longrightarrow>
       args_look walk (pl_args pl) k =
         configured_value walk (ParseArgs (requested_flags req cap)) (mount_group cap) k) \<and>
    (pr_readonly req \<or> get_mode cap = MultiNodeReaderOnly \<longrightarrow> args_look walk (pl_args pl) ArgReadOnly \<noteq> None)"
proof -
  let ?user = "ParseArgs (requested_flags req cap)"
  obtain as where as: "unique_keys as" "limit_cache parseq walk req as = Inr (pl_args pl)"
    "\<And>k. args_look walk as k = configured_value walk ?user (mount_group cap) k"
    "pl_fs_group pl = mount_group cap"
    by (rule plan_args [OF assms]) blast
  have ro: "normalizeKey ArgReadOnly \<noteq> ArgMaxCacheSize" by code_simp
  have "unique_keys (pl_args pl)" "\<And>k. normalizeKey k \<noteq> ArgMaxCacheSize \<Longrightarrow>
      args_look walk (pl_args pl) k = args_look walk as k"
    using limit_cache_look [OF as(1,2)] ro by blast+
  moreover have "\<not> limits_cache req \<Longrightarrow> pl_args pl = as"
    using as(2) limit_cache_off [of req parseq walk as] by simp
  moreover have "args_look walk as ArgReadOnly \<noteq> None" if "pr_readonly req \<or> get_mode cap = MultiNodeReaderOnly"
  proof -
    have "parse_one ArgReadOnly = \<lparr>arg_key = ArgReadOnly, arg_value = []\<rparr>" by code_simp
    moreover have "ArgReadOnly \<notin> set disallowed_keys" by code_simp
    ultimately have "\<lparr>arg_key = ArgReadOnly, arg_value = []\<rparr> \<in> set ?user"
      using that by (auto simp: set_ParseArgs requested_flags_def image_iff)
    then have "args_Has walk ?user ArgReadOnly" by (force simp: args_Has_iff)
    then show ?thesis by (auto simp: as(3) configured_value_def args_Has_look)
  qed
  ultimately show ?thesis using as(3,4) ro by metis
qed

definition group_capability :: volume_capability where
  "group_capability = \<lparr>cap_access_mode = Some MultiNodeReaderOnly,
     cap_mount = Some \<lparr>cap_flags = [''uid=1000'', ''gid=7''], cap_mount_group = ''42''\<rparr>\<rparr>"

definition group_request :: publish_request where
  "group_request = \<lparr>pr_volume_id = ''vol'', pr_publish_context = [], pr_staging_target_path = [],
     pr_target_path = ''/var/lib/kubelet/pods/u1/volumes/kubernetes.io~csi/pv/mount'',
     pr_volume_capability = Some group_capability, pr_readonly = False, pr_secrets = [],
     pr_volume_context = [(''bucketName'', ''bucket'')]\<rparr>"

theorem volume_arguments_as_configured_witness:
  "\<exists>pl. plan_mount (\<lambda>s. Inl []) id id group_request ''bucket'' ''/t'' group_capability = Inr pl \<and>
     args_look id (pl_args pl) ''gid'' = Some ''7'' \<and> args_look id (pl_args pl) ''dir-mode'' = Some ''770'' \<and>
     args_look id (pl_args pl) ''allow-root'' = None \<and> args_look id (pl_args pl) ArgReadOnly \<noteq> None"
proof -
  let ?user = "ParseArgs (requested_flags group_request group_capability)"
  have u: "unique_keys ?user" by code_simp
  have "\<not> isl (plan_mount (\<lambda>s. Inl []) id id group_request ''bucket'' ''/t'' group_capability)"
    by code_simp
  then obtain pl where pl: "plan_mount (\<lambda>s. Inl []) id id group_request ''bucket'' ''/t'' group_capability = Inr pl"
    by (metis isl_def sum.exhaust)
  have off: "\<not> limits_cache group_request" by code_simp
  have vals: "configured_value id ?user (mount_group group_capability) ''gid'' = Some ''7''"
    "configured_value id ?user (mount_group group_capability) ''dir-mode'' = Some ''770''"
    "configured_value id ?user (mount_group group_capability) ''allow-root'' = None" by code_simp+
  have ro: "get_mode group_capability = MultiNodeReaderOnly" by code_simp
  show ?thesis
    using volume_arguments_as_configured [OF u pl, of "''gid''"]
      volume_arguments_as_configured [OF u pl, of "''dir-mode''"]
      volume_arguments_as_configured [OF u pl, of "''allow-root''"] pl off vals ro by auto
qed

section \<open>What Mountpoint is sent\<close>

text \<open>Options are sent only with arguments made from those the mount was called with.\<close>

definition sends_args :: "pod_mounter \<Rightarrow> args \<Rightarrow> node_event \<Rightarrow> bool" where
  "sends_args pm as e \<longleftrightarrow>
     (\<forall>sock opts r. e = NvSend sock opts r \<longrightarrow>
        (\<exists>sent agent. opt_args opts = args_SortedList (pm_arg_walk pm) sent \<and>
           sent_args_ok (pm_arg_walk pm) agent as sent))"

lemma sends_nothing:
  "probe e \<Longrightarrow> sends_args pm as e" "mount_step p e \<Longrightarrow> sends_args pm as e"
  "setup_call p e \<Longrightarrow> sends_args pm as e" "watch_call e \<Longrightarrow> sends_args pm as e"
  "credential_call w ctx e \<Longrightarrow> sends_args pm as e"
  by (auto simp: sends_args_def setup_call_def credential_call_def Let_def)

lemma adds_from_runs:
  "runs m R \<Longrightarrow> (\<And>r new e. R r new \<Longrightarrow> e \<in> set new \<Longrightarrow> P e) \<Longrightarrow> preserves (adds_only P h) m"
  by (rule runs_adds_only, erule runs_mono) blast

lemma mountS3_sends:
  assumes "unique_keys as"
  shows "preserves (adds_only (sends_args pm as) h)
    (mountS3AtSource w pm source mpPod podPath b ce ue au as)"
proof (rule adds_from_runs [OF runs_mountS3_options], elim exE)
  fix e new fd
  assume "\<forall>e \<in> set new. mount_step source e \<or> (\<exists>p r. e = NvUnmount p r) \<or>
      hand_over (PathOnHost podPath [KnownPathMountSock]) (PathOnHost podPath [KnownPathMountError])
        (sent_options w pm b ce ue au as fd) e" "e \<in> set new"
  then consider "mount_step source e \<or> probe e" | "\<forall>sock opts r. e = NvSend sock opts r \<longrightarrow>
      opts = sent_options w pm b ce ue au as fd"
    by (auto simp: hand_over_def)
  then show "sends_args pm as e"
  proof cases
    case 1
    then show ?thesis using sends_nothing by blast
  next
    case 2
    then show ?thesis unfolding sends_args_def using sent_options_args [OF assms] by metis
  qed
qed

lemma Mount_sends:
  assumes "unique_keys as"
  shows "preserves (adds_only (sends_args pm as) h) (pm_Mount w pm b target ctx as g ue)"
proof -
  have provide: "preserves (adds_only (sends_args pm as) h) (Provide w c)" for c h
    by (rule adds_from_runs [OF runs_Provide]) (use sends_nothing in blast)
  have prep: "preserves (adds_only (sends_args pm as) h) (check_or_setup w t)" for t h
    by (rule adds_from_runs [OF runs_check_or_setup]) (use sends_nothing in blast)
  have found: "preserves (adds_only (sends_args pm as) h) (getS3PodAttachmentWithRetry w pm v ctx g)" for v h
    by (rule adds_from_runs [OF runs_getAttachment]) (auto simp: sends_args_def)
  have waited: "preserves (adds_only (sends_args pm as) h) (waitForMountpointPod w pm n)" for n h
    by (rule adds_from_runs [OF runs_waitForMountpointPod]) (use sends_nothing in blast)
  have systemd: "preserves (adds_only (sends_args pm as) h) (IsSystemDMountpoint w t)" for t h
    by (rule adds_from_runs [OF runs_IsSystemD]) (use sends_nothing in blast)
  show ?thesis
    unfolding pm_Mount_def mount_locked_def with_pod_lock_def refresh_systemd_def provideCredentials_def
      ensureCredentialsDirExists_def BindMount_def linux_bind_mount_def Let_def
    by (intro pres provide prep found waited systemd mountS3_sends [OF assms] preserves_adds_call)
      (simp_all add: sends_args_def)
qed

section \<open>A volume reported as published\<close>

text \<open>The target was seen mounted, or a bind mount on it was made.\<close>

definition is_published :: "string \<Rightarrow> nhistory \<Rightarrow> bool" where
  "is_published target h \<longleftrightarrow> seen_mounted target h \<or> (\<exists>src. NvBindMount src target None \<in> set h)"

lemma is_published_append [simp]:
  "is_published t (a @ b) \<longleftrightarrow> is_published t a \<or> is_published t b"
  by (auto simp: is_published_def)

lemma is_published_Cons [simp]: "is_published t h \<Longrightarrow> is_published t (e # h)"
  by (auto simp: is_published_def)

lemma runs_trivial: "runs m R \<Longrightarrow> runs m (\<lambda>_ _. True)"
  by (erule runs_mono) simp

lemma BindMount_published: "runs (BindMount w src target) (\<lambda>res new. res = None \<longrightarrow> is_published target new)"
  unfolding BindMount_def linux_bind_mount_def by (intro runs) (auto simp: is_published_def)

lemma mount_locked_published:
  "runs (mount_locked w pm b target isT ctx as ue att n p path)
     (\<lambda>res new. res = None \<longrightarrow> isT \<or> is_published target new)"
  unfolding mount_locked_def Let_def
proof (rule runs_bind [OF runs_trivial [OF runs_check_or_setup]], intro runs, goal_cases)
  case (2 r new isS)
  have s: "runs (if \<not> isS then mountS3AtSource w pm src p path b ce ue au as else State_Monad.return None)
      (\<lambda>_ _. True)" for src ce au
    by (intro runs runs_trivial [OF runs_mountS3_options]) simp
  show ?case
    apply (rule runs_bind [OF runs_trivial [OF runs_provideCredentials [where source = "[]" and sock = "[]" and target = "[]"]]])
    apply (intro runs)
     apply simp
    apply (rule runs_bind [OF s], intro runs)
      apply simp_all
    apply (rule runs_bind [OF BindMount_published], intro runs, simp)
    done
qed simp

lemma Mount_published:
  "runs (pm_Mount w pm b target ctx as g ue) (\<lambda>res new. res = None \<longrightarrow> is_published target new)"
  unfolding pm_Mount_def
proof (intro runs, simp, rule runs_bind [OF runs_check_or_setup], intro runs, goal_cases)
  case (1 v r new e)
  then show ?case by simp
next
  case (2 v r new isT)
  then have seen: "isT \<Longrightarrow> is_published target new" by (simp add: is_published_def)
  have sys: "runs (if isT then IsSystemDMountpoint w target else State_Monad.return False)
      (\<lambda>b _. b \<longrightarrow> isT)"
    by (intro runs runs_mono [OF runs_IsSystemD]) simp_all
  show ?case
  proof (rule runs_bind [OF sys], intro runs, goal_cases)
    case (1 b l)
    with seen show ?case by (intro runs_mono [OF runs_refresh]) simp
  next
    case (2 b l)
    show ?case
      unfolding with_pod_lock_def
      apply (rule runs_bind [OF runs_trivial [OF runs_getAttachment]], intro runs)
       apply simp
      apply (rule runs_bind [OF runs_trivial [OF runs_waitForMountpointPod]], intro runs)
       apply simp
      apply (rule runs_bind [OF mount_locked_published], intro runs)
      using seen apply auto
      done
  qed
qed

section \<open>Publishing\<close>

text \<open>The requests that may reach the mounter.\<close>

definition valid_request :: "getenv \<Rightarrow> publish_request \<Rightarrow> bool" where
  "valid_request getenv req \<longleftrightarrow>
     pr_volume_id req \<noteq> [] \<and> BucketName \<in> fst ` set (pr_volume_context req) \<and>
     (\<exists>rest. pr_target_path req = HostKubeletPath getenv @ rest) \<and>
     (\<exists>cap. pr_volume_capability req = Some cap \<and>
        get_mode cap \<in> {MultiNodeMultiWriter, MultiNodeReaderOnly} \<and>
        (\<forall>m f. cap_mount cap = Some m \<and> f \<in> set (cap_flags m) \<longrightarrow>
           arg_key (parse_one f) \<notin> {ArgFsTab, ArgCABundle})) \<and>
     (\<forall>n. mountpointEnvPrefix @ n \<in> fst ` set (pr_volume_context req) \<longrightarrow> n \<in> set userEnvAllowlist)"

lemma check_publish_Inr:
  assumes "check_publish getenv req = Inr (b, t, cap)"
  shows "pr_volume_id req \<noteq> [] \<and> map_of (pr_volume_context req) BucketName = Some b \<and>
    (\<exists>rest. pr_target_path req = HostKubeletPath getenv @ rest) \<and>
    KubeletHostPathToContainerPath getenv (pr_target_path req) = Inr t \<and>
    pr_volume_capability req = Some cap \<and> get_mode cap \<in> {MultiNodeMultiWriter, MultiNodeReaderOnly}"
proof -
  have "has_prefix (pr_target_path req) (HostKubeletPath getenv)"
    if "KubeletHostPathToContainerPath getenv (pr_target_path req) = Inr t" for t
    using that by (auto simp: KubeletHostPathToContainerPath_def Let_def split: if_splits)
  then show ?thesis
    using assms by (auto simp: check_publish_def isValidVolumeCapabilities_def volumeCaps_def has_prefix_iff
        split: if_splits option.splits sum.splits)
qed

lemma check_publish_Inl: "check_publish getenv req = Inl e \<Longrightarrow> \<exists>m. e = invalid m"
  by (auto simp: check_publish_def split: if_splits option.splits sum.splits)

lemma limit_cache_Inl: "limit_cache parseq walk req as = Inl e \<Longrightarrow> \<exists>m. e = invalid m"
  by (auto simp: limit_cache_def Let_def map_sum_def split: if_splits option.splits sum.splits prod.splits)

lemma plan_mount_Inl: "plan_mount parseq walk ord req b t cap = Inl e \<Longrightarrow> \<exists>m. e = invalid m"
  by (auto simp: plan_mount_def Let_def dest: limit_cache_Inl split: if_splits sum.splits prod.splits)

lemma plan_mount_Inr:
  assumes "plan_mount parseq walk ord req b t cap = Inr pl"
  shows "pl_target pl = t"
    and "\<And>m f. cap_mount cap = Some m \<Longrightarrow> f \<in> set (cap_flags m) \<Longrightarrow>
      arg_key (parse_one f) \<notin> {ArgFsTab, ArgCABundle}"
    and "\<And>n. mountpointEnvPrefix @ n \<in> fst ` set (pr_volume_context req) \<Longrightarrow> n \<in> set userEnvAllowlist"
proof -
  let ?user = "ParseArgs (requested_flags req cap)"
  have has: "\<not> args_Has walk ?user ArgFsTab" "\<not> args_Has walk ?user ArgCABundle"
    and env: "\<exists>env. ParseUserEnvFromVolumeContext ord (pr_volume_context req) = Inr env"
    and t: "pl_target pl = t"
    using assms by (auto simp: plan_mount_def Let_def split: if_splits sum.splits prod.splits)
  show "pl_target pl = t" by (rule t)
  show "n \<in> set userEnvAllowlist" if "mountpointEnvPrefix @ n \<in> fst ` set (pr_volume_context req)" for n
  proof -
    obtain e where "parse_user_env_loop (pr_volume_context req)
        (go_range ord (map fst (pr_volume_context req))) [] = Inr e"
      using env by (auto simp: ParseUserEnvFromVolumeContext_def)
    from parse_loop_Inr [OF this] that show ?thesis by simp
  qed
  fix m f
  assume f: "cap_mount cap = Some m" "f \<in> set (cap_flags m)"
  have "normalizeKey ArgFsTab = ArgFsTab" "normalizeKey ArgCABundle = ArgCABundle"
    "ArgFsTab \<notin> set disallowed_keys" "ArgCABundle \<notin> set disallowed_keys" by code_simp+
  moreover have "parse_one f \<in> set ?user" if "arg_key (parse_one f) \<notin> set disallowed_keys"
    using f that by (auto simp: set_ParseArgs requested_flags_def)
  ultimately show "arg_key (parse_one f) \<notin> {ArgFsTab, ArgCABundle}"
    using has by (auto simp: args_Has_iff)
qed

definition publish_refused :: "node_error option \<Rightarrow> nhistory \<Rightarrow> bool" where
  "publish_refused res new \<longleftrightarrow> new = [] \<and> (\<exists>m. res = Some (NStatus ''InvalidArgument'' m))"

definition publish_attempted ::
    "getenv \<Rightarrow> publish_request \<Rightarrow> node_error option \<Rightarrow> nhistory \<Rightarrow> bool" where
  "publish_attempted getenv req res new \<longleftrightarrow>
     (\<exists>target. KubeletHostPathToContainerPath getenv (pr_target_path req) = Inr target \<and>
        (case res of
           None \<Rightarrow> is_published target new
         | Some e \<Rightarrow> \<exists>m r h. e = NStatus ''Internal'' m \<and> new = NvRemove target r # h))"

text \<open>
  C21: A volume is published or the request fails cleanly. A request is either refused as an invalid
  argument before anything was called, or it is valid: it names a volume, a bucket and a target in the
  kubelet's directory, asks for a supported access mode, and neither has a mount option that is not
  supported nor sets a variable that is not allowed. Then success is only reported if the target was
  seen mounted or a bind mount on it was made; a failure is reported as an internal error and the last
  call removes the target directory.
\<close>

theorem publish_refuses_or_mounts:
  "runs (NodePublishVolume parseq w ns req) (\<lambda>res new.
     publish_refused res new \<or>
     valid_request (node_env w) req \<and> publish_attempted (node_env w) req res new)"
  unfolding NodePublishVolume_def
proof (intro runs runs_bind_read, goal_cases)
  case (1 e)
  then show ?case using check_publish_Inl by (fastforce simp: publish_refused_def invalid_def)
next
  case (2 checked b rest t cap ord e)
  then show ?case using plan_mount_Inl by (fastforce simp: publish_refused_def invalid_def)
next
  case (3 checked b rest t cap ord pl)
  then have check: "check_publish (node_env w) req = Inr (b, t, cap)"
    and plan: "plan_mount parseq (pm_arg_walk (ns_mounter ns)) ord req b t cap = Inr pl" by simp_all
  have valid: "valid_request (node_env w) req"
    using check_publish_Inr [OF check] plan_mount_Inr [OF plan] weak_map_of_SomeI
    by (fastforce simp: valid_request_def dest: map_of_SomeD intro: rev_image_eqI)
  have target: "KubeletHostPathToContainerPath (node_env w) (pr_target_path req) = Inr (pl_target pl)"
    using check_publish_Inr [OF check] plan_mount_Inr(1) [OF plan] by simp
  show ?case
    unfolding mount_planned_def
    by (rule runs_bind [OF Mount_published], intro runs)
      (use valid target in \<open>auto simp: publish_attempted_def\<close>)
qed

section \<open>The local cache\<close>

text \<open>The size sent to Mountpoint with the options, for a limit in bytes.\<close>

definition cache_within ::
    "pod_mounter \<Rightarrow> publish_request \<Rightarrow> int \<Rightarrow> nhistory \<Rightarrow> bool" where
  "cache_within pm req limit new \<longleftrightarrow>
     (\<forall>sock opts r. NvSend sock opts r \<in> set new \<longrightarrow>
        (\<exists>sent. opt_args opts = args_SortedList (pm_arg_walk pm) sent \<and> unique_keys sent \<and>
           (on_disk req \<longrightarrow> args_look (pm_arg_walk pm) sent ArgMaxCacheSize \<noteq> None) \<and>
           (\<forall>v. args_look (pm_arg_walk pm) sent ArgMaxCacheSize = Some v \<longrightarrow> respects_limit req limit v)))"

lemma other_keys [simp]:
  "ArgMaxCacheSize \<noteq> ArgUserAgentPrefix" "ArgMaxCacheSize \<noteq> ArgAWSMaxAttempts" "ArgMaxCacheSize \<noteq> ArgReadOnly"
  by code_simp+

lemma sends_within:
  assumes "sends_args pm as e" "e = NvSend sock opts r"
    and "(on_disk req \<longrightarrow> args_look (pm_arg_walk pm) as ArgMaxCacheSize \<noteq> None) \<and>
      (\<forall>v. args_look (pm_arg_walk pm) as ArgMaxCacheSize = Some v \<longrightarrow> respects_limit req limit v)"
  shows "\<exists>sent. opt_args opts = args_SortedList (pm_arg_walk pm) sent \<and> unique_keys sent \<and>
    (on_disk req \<longrightarrow> args_look (pm_arg_walk pm) sent ArgMaxCacheSize \<noteq> None) \<and>
    (\<forall>v. args_look (pm_arg_walk pm) sent ArgMaxCacheSize = Some v \<longrightarrow> respects_limit req limit v)"
proof -
  obtain sent agent where sent: "opt_args opts = args_SortedList (pm_arg_walk pm) sent"
      "sent_args_ok (pm_arg_walk pm) agent as sent"
    using assms(1,2) unfolding sends_args_def by blast
  then have "args_look (pm_arg_walk pm) sent ArgMaxCacheSize = args_look (pm_arg_walk pm) as ArgMaxCacheSize"
    by (simp add: sent_args_ok_def)
  with sent assms(3) show ?thesis by (auto simp: sent_args_ok_def intro: exI [of _ sent])
qed

text \<open>
  C23: The local cache never outgrows its volume. If the cache of a volume is an emptyDir with a size limit
  (below 256 TiB), then whatever size the user asked for, every set of options sent to a Mountpoint Pod
  limits the cache to the size of the volume; if the volume is on the disk of the node, where Mountpoint
  cannot see the limit, a size is always sent and it is at most 95% of the limit. The computation with
  floating-point numbers is part of this. The hypothesis that no option is repeated is needed: of two
  sizes only one is checked.
\<close>

theorem cache_stays_within_limit:
  assumes unique: "\<And>cap. pr_volume_capability req = Some cap \<Longrightarrow> unique_keys (ParseArgs (requested_flags req cap))"
    and on: "limits_cache req" and q: "parseq (volume_ctx req CacheEmptyDirSizeLimit) = Inr q"
    and small: "0 \<le> quantity_value q" "quantity_value q < 2 ^ 48"
  shows "runs (NodePublishVolume parseq w ns req) (\<lambda>res new.
    cache_within (ns_mounter ns) req (quantity_value q) new)"
  unfolding NodePublishVolume_def
proof (intro runs runs_bind_read, goal_cases)
  case (3 checked b rest t cap ord pl)
  let ?pm = "ns_mounter ns"
  have cap: "pr_volume_capability req = Some cap"
    using 3 check_publish_Inr [of "node_env w" req b t cap] by simp
  from 3 have plan: "plan_mount parseq (pm_arg_walk ?pm) ord req b t cap = Inr pl" by simp
  obtain as where as: "unique_keys as" "limit_cache parseq (pm_arg_walk ?pm) req as = Inr (pl_args pl)"
    by (rule plan_args [OF unique [OF cap] plan]) blast
  note ok = limit_cache_respects [OF as on q small]
  have keys: "unique_keys (pl_args pl)"
    using limit_cache_look [OF as, of ArgReadOnly] by (metis normal_keys(3) other_keys(3))
  have "runs (mount_planned w ?pm pl) (\<lambda>_ new. \<forall>e \<in> set new. sends_args ?pm (pl_args pl) e)"
    unfolding mount_planned_def
    by (intro adds_only_runs pres Mount_sends [OF keys] preserves_adds_call) (simp add: sends_args_def)
  then show ?case
    by (rule runs_mono, unfold cache_within_def) (blast intro: sends_within [OF _ refl ok])
qed (simp_all add: cache_within_def)

text \<open>
  An example in which the attachment is found and its Mountpoint Pod runs. The user asks for 99 MiB of
  100 MiB on the disk and gets 95.
\<close>

definition serving_world :: world where
  "serving_world = (example_world (\<lambda>k. []))\<lparr>
     polls := \<lambda>h. 1, on_watched_pod := \<lambda>h n. Inr example_mountpoint_pod,
     on_list_attachments := \<lambda>h f. Inr
       [\<lparr>sp_name = ''s3pa'', sp_generate_name = [], sp_labels = [], sp_resource_version = [],
         sp_node_name = ''node-1'', sp_persistent_volume_name = ''pv'', sp_volume_id = ''vol'',
         sp_mount_options = [], sp_authentication_source = ''driver'', sp_workload_fs_group = [],
         sp_workload_service_account_name = [], sp_workload_namespace = [], sp_workload_role_arn = [],
         sp_attachments = [(''mp-1'', [\<lparr>workload_pod_uid = ''u1'', attachment_time = 0\<rparr>])]\<rparr>]\<rparr>"

definition cache_request :: publish_request where
  "cache_request = group_request\<lparr>
     pr_volume_capability := Some \<lparr>cap_access_mode = Some MultiNodeMultiWriter,
       cap_mount = Some \<lparr>cap_flags = [''max-cache-size 99''], cap_mount_group = []\<rparr>\<rparr>,
     pr_volume_context := [(''bucketName'', ''bucket''), (''cache'', ''emptyDir''),
       (''cacheEmptyDirSizeLimit'', ''100Mi'')]\<rparr>"

definition example_quantity :: "string \<Rightarrow> string + quantity" where
  "example_quantity s = Inr (ParsedQuantity s 104857600)"

definition cache_run :: "node_error option \<times> node_state" where
  "cache_run = run_state (NodePublishVolume example_quantity serving_world
     \<lparr>ns_node_id = ''node-1'', ns_mounter = example_mounter\<rparr> cache_request) start_state"

theorem cache_stays_within_limit_witness:
  "(case plan_mount example_quantity id id cache_request ''bucket'' ''/t'' (the (pr_volume_capability cache_request)) of
      Inl e \<Rightarrow> False
    | Inr pl \<Rightarrow> args_look id (pl_args pl) ArgMaxCacheSize = Some ''95'') \<and>
   cache_within example_mounter cache_request 104857600 (ncalls (snd cache_run))"
proof
  have unique: "unique_keys (ParseArgs (requested_flags cache_request cap))"
    if "pr_volume_capability cache_request = Some cap" for cap
  proof -
    have "unique_keys (ParseArgs (requested_flags cache_request
        (the (pr_volume_capability cache_request))))" by code_simp
    then show ?thesis using that by simp
  qed
  have on: "limits_cache cache_request" by code_simp
  obtain r s' where run: "cache_run = (r, s')" by force
  have "cache_within example_mounter cache_request 104857600 (since (ncalls start_state) (ncalls s'))"
    using runs_run [OF cache_stays_within_limit [OF unique on, of example_quantity, unfolded example_quantity_def, OF _ refl]
      run [unfolded cache_run_def example_quantity_def]]
    by simp
  then show "cache_within example_mounter cache_request 104857600 (ncalls (snd cache_run))"
    unfolding run snd_conv by (simp add: start_state_def since_def)
qed code_simp

section \<open>Unpublishing\<close>

text \<open>
  The target is unmounted only if it was seen mounted or is broken. The only files that are removed are
  the credentials of the volume in the directory of the host plugin, after the target was unmounted.
\<close>

definition published_credentials :: "world \<Rightarrow> unpublish_request \<Rightarrow> string list" where
  "published_credentials w req =
     credential_files w (hostPluginDirWithDefault (node_env w))
       (fst (podIDFromTargetPath (ur_target_path req))) (ur_volume_id req)"

definition unpublish_guard :: "world \<Rightarrow> unpublish_request \<Rightarrow> string \<Rightarrow> nhistory \<Rightarrow> node_event \<Rightarrow> bool" where
  "unpublish_guard w req target h e =
     (case e of
        NvUnmount p r \<Rightarrow> p = target \<and>
          (seen_mounted target h \<or>
           (\<exists>h1 h2 e. h = h1 @ h2 \<and> latest_error target h2 = Some e \<and> corrupted_mount w e))
      | NvRemove p r \<Rightarrow> p \<in> set (published_credentials w req) \<and> NvUnmount target None \<in> set h
      | _ \<Rightarrow> probe e)"

text \<open>
  The result, from the calls: that of the one unmount; without one, success if the look at the target showed
  that it is not mounted or does not exist, and an error if the look failed for another reason.
\<close>

definition unmounts :: "nhistory \<Rightarrow> (string \<times> node_error option) list" where
  "unmounts h = concat (map (\<lambda>e. case e of NvUnmount p r \<Rightarrow> [(p, r)] | _ \<Rightarrow> []) h)"

definition internal_error :: "node_error option \<Rightarrow> bool" where
  "internal_error res \<longleftrightarrow> (\<exists>m. res = Some (NStatus ''Internal'' m))"

definition unpublish_result :: "world \<Rightarrow> string \<Rightarrow> node_error option \<Rightarrow> nhistory \<Rightarrow> bool" where
  "unpublish_result w target res h \<longleftrightarrow>
     (case unmounts h of
        [] \<Rightarrow>
          if latest_shows_free target h \<or> latest_error target h = Some (OsErr ErrNotExist) then res = None
          else internal_error res \<and> (\<exists>e. latest_error target h = Some e \<and> \<not> corrupted_mount w e)
      | [(p, r)] \<Rightarrow> p = target \<and> (if r = None then res = None else internal_error res)
      | _ \<Rightarrow> False)"

lemma unmounts_simps [simp]:
  "unmounts [] = []" "unmounts (e # h) = (case e of NvUnmount p r \<Rightarrow> [(p, r)] | _ \<Rightarrow> []) @ unmounts h"
  "unmounts (a @ b) = unmounts a @ unmounts b"
  by (simp_all add: unmounts_def)

lemma no_unmounts: "\<forall>e \<in> set h. probe e \<Longrightarrow> unmounts h = []" "\<forall>e \<in> set h. \<exists>f r. e = NvRemove f r \<Longrightarrow> unmounts h = []"
proof -
  show "\<forall>e \<in> set h. probe e \<Longrightarrow> unmounts h = []"
  proof (induction h)
    case (Cons e h)
    then show ?case by (cases e) auto
  qed simp
  show "\<forall>e \<in> set h. \<exists>f r. e = NvRemove f r \<Longrightarrow> unmounts h = []"
    by (induction h) auto
qed

lemma free_no_error: "latest_shows_free t h \<Longrightarrow> latest_error t h = None"
  by (cases "(t, h)" rule: latest_shows_free.cases) auto

lemma unpublish_probe: "probe e \<Longrightarrow> unpublish_guard w req t h e"
  by (cases e) (auto simp: unpublish_guard_def)

lemma runs_check_both:
  "runs (CheckMountpoint w target) (\<lambda>r new. (\<forall>e \<in> set new. probe e) \<and>
     (r = Inr True \<longrightarrow> seen_mounted target new) \<and> (r = Inr False \<longrightarrow> latest_shows_free target new) \<and>
     (\<forall>e. r = Inl e \<longrightarrow> latest_error target new = Some e))"
proof -
  have statx: "runs (statx w target) (\<lambda>r new. (\<forall>e \<in> set new. probe e) \<and>
      (\<forall>e. r = Some e \<longrightarrow> latest_error target new = Some e))"
    unfolding statx_def by (intro runs) auto
  show ?thesis
    unfolding CheckMountpoint_def
    by (rule runs_bind [OF statx], intro runs) (auto simp: seen_mounted_def list_ex_iff split: sum.splits)
qed

lemma runs_unmount_published:
  assumes "\<forall>e \<in> set new. probe e"
    and "seen_mounted t new \<or> (\<exists>e. latest_error t new = Some e \<and> corrupted_mount w e)"
  shows "runs (unmount_published w req t) (\<lambda>res later.
    nguarded (unpublish_guard w req t) (later @ new) \<and> unpublish_result w t res (later @ new))"
proof -
  let ?c = "(credentialCleanupContextFromUnpublishRequest req)\<lparr>cc_mount_kind := MountKindSystemd,
    cc_write_path := hostPluginDirWithDefault (node_env w)\<rparr>"
  have new: "nguarded (unpublish_guard w req t) new" "unmounts new = []"
    by (rule nguarded_all) (use assms(1) unpublish_probe no_unmounts in blast)+
  have may: "unpublish_guard w req t (l @ new) (NvUnmount t r)" for l r
    using assms(2) by (auto simp: unpublish_guard_def)
  have sysd: "nguarded (unpublish_guard w req t) (l @ new)" if "\<forall>e \<in> set l. probe e" for l
    using new that by (auto simp: nguarded_append intro!: nguarded_all unpublish_probe)
  have clean: "runs (cred_Cleanup w ?c) (\<lambda>_ c. unmounts c = [] \<and>
      (\<forall>e \<in> set c. \<exists>f \<in> set (published_credentials w req). \<exists>r. e = NvRemove f r))"
    by (rule runs_mono [OF runs_cred_Cleanup], intro conjI no_unmounts(2))
      (auto simp: published_credentials_def credentialCleanupContextFromUnpublishRequest_def)
  have removes: "nguarded (unpublish_guard w req t) (c @ NvUnmount t None # l @ new)"
    if "\<forall>e \<in> set c. \<exists>f \<in> set (published_credentials w req). \<exists>r. e = NvRemove f r" "\<forall>e \<in> set l. probe e" for c l
    using sysd [OF that(2)] may that(1)
    by (auto simp: nguarded_append unpublish_guard_def [of w req t _ "NvRemove _ _"] intro!: nguarded_all)
  show ?thesis
    unfolding unmount_published_def pm_Unmount_def unmountTarget_def
    apply (rule runs_bind [where S = "\<lambda>res later. nguarded (unpublish_guard w req t) (later @ new) \<and>
        (\<exists>r. unmounts (later @ new) = [(t, r)] \<and> (res = None \<longleftrightarrow> r = None))"])
     apply (rule runs_bind [OF runs_IsSystemD], intro runs)
       apply (rule runs_bind [OF clean], intro runs)
       apply (auto simp: new(2) no_unmounts intro!: removes)[1]
      apply (simp_all add: sysd may new(2) no_unmounts)
    apply (intro runs, auto simp: unpublish_result_def internal_error_def new(2))
    done
qed

text \<open>
  C22: Unpublishing a volume is safe and its result can be relied on. A request that names no volume or no
  target in the kubelet's directory is refused before anything is called. Otherwise only the target of
  the request is ever unmounted, at most once, and only after it was seen to be a Mountpoint mount or to be
  broken; the only files removed are the credentials of that Pod and volume, after the unmount succeeded.
  If the target was unmounted the result is that of the unmount. If not, the request succeeds when the look
  at the target showed that it is not mounted or does not exist, and else it is an internal error, in
  which case the look itself had failed, and not because the mount is broken.
\<close>

theorem unpublish_unmounts_target:
  "runs (NodeUnpublishVolume w req) (\<lambda>res new.
     if ur_volume_id req = [] \<or> ur_target_path req = [] then publish_refused res new
     else case KubeletHostPathToContainerPath (node_env w) (ur_target_path req) of
         Inl e \<Rightarrow> publish_refused res new
       | Inr t \<Rightarrow> nguarded (unpublish_guard w req t) new \<and> unpublish_result w t res new)"
  unfolding NodeUnpublishVolume_def pm_IsMountPoint_def
proof (intro runs, simp_all add: publish_refused_def invalid_def, goal_cases)
  case (1 t)
  show ?case
  proof (rule runs_bind [OF runs_check_both], intro runs, goal_cases)
    case (1 r new e)
    then show ?case using \<open>_ = Inr t\<close>
      by (auto simp: unpublish_result_def no_unmounts intro!: nguarded_all unpublish_probe)
  next
    case (2 r new e)
    then show ?case using \<open>_ = Inr t\<close>
      by (intro runs_mono [OF runs_unmount_published [of new t w req]]) auto
  next
    case (3 r new e)
    then have "\<not> latest_shows_free t new" using free_no_error by fastforce
    with 3 show ?case using \<open>_ = Inr t\<close>
      by (auto simp: unpublish_result_def no_unmounts internal_error_def intro!: nguarded_all unpublish_probe)
  next
    case (4 r new m)
    then show ?case using \<open>_ = Inr t\<close>
      by (auto simp: unpublish_result_def no_unmounts intro!: nguarded_all unpublish_probe)
  next
    case (5 r new m)
    then show ?case using \<open>_ = Inr t\<close>
      by (intro runs_mono [OF runs_unmount_published [of new t w req]]) auto
  qed
qed

end
