(* ===== verification/Go_Json.thy ===== *)
theory Go_Json
  imports Runes
begin

text \<open>
  The part of Go's \<^verbatim>\<open>encoding/json\<close> that the mount options pass through: strings and lists of
  strings are written as \<^verbatim>\<open>Marshal\<close> does, and any document is read as \<^verbatim>\<open>Unmarshal\<close> does,
  first into a value. Texts are byte sequences. The reader has two passes, an automaton that makes
  tokens and a parser with a stack, so both end on every input without a bound.
\<close>

type_synonym bytes = "nat list"

abbreviation bytes_of :: "string \<Rightarrow> bytes" where "bytes_of \<equiv> map of_char"

section \<open>UTF-8\<close>

text \<open>\<^verbatim>\<open>utf8.EncodeRune\<close>; surrogates and numbers that are too big become U+FFFD.\<close>

definition replacement :: bytes where "replacement = [239, 191, 189]"

definition encode_rune :: "nat \<Rightarrow> bytes" where
  "encode_rune r =
     (if r < 128 then [r]
      else if r < 2048 then [192 + r div 64, 128 + r mod 64]
      else if between 55296 57343 r \<or> 1114111 < r then replacement
      else if r < 65536 then [224 + r div 4096, 128 + r div 64 mod 64, 128 + r mod 64]
      else [240 + r div 262144, 128 + r div 4096 mod 64, 128 + r div 64 mod 64, 128 + r mod 64])"

text \<open>A string with every invalid byte replaced.\<close>

function to_valid :: "bytes \<Rightarrow> bytes" where
  "to_valid [] = []"
| "to_valid (b # bs) =
     (case decode_rune b bs of (r, n) \<Rightarrow>
        (if r = 65533 \<and> n = 0 then replacement else b # take n bs) @ to_valid (drop n bs))"
  by pat_completeness auto
termination by (relation "measure length") auto

function valid_utf8 :: "bytes \<Rightarrow> bool" where
  "valid_utf8 [] = True"
| "valid_utf8 (b # bs) =
     (case decode_rune b bs of (r, n) \<Rightarrow> \<not> (r = 65533 \<and> n = 0) \<and> valid_utf8 (drop n bs))"
  by pat_completeness auto
termination by (relation "measure length") auto

lemma to_valid_id: "valid_utf8 s \<Longrightarrow> to_valid s = s"
  by (induction s rule: valid_utf8.induct) (auto split: prod.splits)

section \<open>Writing\<close>

text \<open>The bytes \<^verbatim>\<open>htmlSafeSet\<close> lets through, and the escapes of the other ones.\<close>

definition html_safe :: "nat \<Rightarrow> bool" where
  "html_safe b \<longleftrightarrow> between 32 127 b \<and> b \<notin> {34, 38, 60, 62, 92}"

definition hex_digit :: "nat \<Rightarrow> nat" where
  "hex_digit d = (if d < 10 then 48 + d else 87 + d)"

definition escape_byte :: "nat \<Rightarrow> bytes" where
  "escape_byte b =
     (if html_safe b then [b]
      else if b = 92 \<or> b = 34 then [92, b]
      else if b = 8 then [92, 98] else if b = 12 then [92, 102] else if b = 10 then [92, 110]
      else if b = 13 then [92, 114] else if b = 9 then [92, 116]
      else [92, 117, 48, 48, hex_digit (b div 16), hex_digit (b mod 16)])"

function escape :: "bytes \<Rightarrow> bytes" where
  "escape [] = []"
| "escape (b # bs) =
     (if b < 128 then escape_byte b @ escape bs
      else (case decode_rune b bs of (r, n) \<Rightarrow>
        (if r = 65533 \<and> n = 0 then [92, 117, 102, 102, 102, 100]
         else if r = 8232 \<or> r = 8233 then [92, 117, 50, 48, 50, hex_digit (r mod 16)]
         else b # take n bs) @ escape (drop n bs)))"
  by pat_completeness auto
termination by (relation "measure length") auto

definition write_string :: "bytes \<Rightarrow> bytes" where "write_string s = 34 # escape s @ [34]"

text \<open>A nil slice is written as \<^verbatim>\<open>null\<close>.\<close>

fun write_elements :: "bytes list \<Rightarrow> bytes" where
  "write_elements [] = []"
| "write_elements [s] = write_string s"
| "write_elements (s # t # ss) = write_string s @ 44 # write_elements (t # ss)"

definition write_strings :: "bytes list option \<Rightarrow> bytes" where
  "write_strings v = (case v of None \<Rightarrow> bytes_of ''null'' | Some ss \<Rightarrow> 91 # write_elements ss @ [93])"

section \<open>Tokens\<close>

datatype token =
  TNull | TTrue | TFalse | TNumber bytes | TString bytes
  | TOpen | TClose | TOpenList | TCloseList | TColon | TComma

definition is_space :: "nat \<Rightarrow> bool" where "is_space b \<longleftrightarrow> b \<in> {32, 9, 13, 10}"
definition is_digit :: "nat \<Rightarrow> bool" where "is_digit b \<longleftrightarrow> between 48 57 b"
definition is_hex :: "nat \<Rightarrow> bool" where "is_hex b \<longleftrightarrow> is_digit b \<or> between 97 102 b \<or> between 65 70 b"
definition in_number :: "nat \<Rightarrow> bool" where "in_number b \<longleftrightarrow> is_digit b \<or> b \<in> {43, 45, 46, 69, 101}"
definition is_letter :: "nat \<Rightarrow> bool" where "is_letter b \<longleftrightarrow> between 97 122 b"

definition punctuation :: "nat \<Rightarrow> token option" where
  "punctuation b = map_of [(123, TOpen), (125, TClose), (91, TOpenList), (93, TCloseList),
     (58, TColon), (44, TComma)] b"

definition keyword :: "bytes \<Rightarrow> token option" where
  "keyword w = map_of [(bytes_of ''null'', TNull), (bytes_of ''true'', TTrue), (bytes_of ''false'', TFalse)] w"

text \<open>The grammar of numbers, on a whole number.\<close>

definition exponent_ok :: "bytes \<Rightarrow> bool" where
  "exponent_ok s =
     (case s of
        [] \<Rightarrow> True
      | e # s \<Rightarrow> (e = 101 \<or> e = 69) \<and>
          (let d = (case s of c # s' \<Rightarrow> if c = 43 \<or> c = 45 then s' else s | [] \<Rightarrow> [])
           in d \<noteq> [] \<and> list_all is_digit d))"

definition number_ok :: "bytes \<Rightarrow> bool" where
  "number_ok s =
     (let s = (case s of c # s' \<Rightarrow> if c = 45 then s' else s | [] \<Rightarrow> []);
          int_part = takeWhile is_digit s; s = dropWhile is_digit s
      in int_part \<noteq> [] \<and> (hd int_part = 48 \<longrightarrow> length int_part = 1) \<and>
         (case s of
            c # s' \<Rightarrow> if c = 46 then takeWhile is_digit s' \<noteq> [] \<and> exponent_ok (dropWhile is_digit s')
                      else exponent_ok s
          | [] \<Rightarrow> True))"

text \<open>
  The automaton. A string token keeps the bytes between its quotes, with the escapes; the bytes of the
  token being read are in reverse.
\<close>

datatype lexing = Between | InString bytes | AfterBackslash bytes | InHex nat bytes | InWord bytes | InNumber bytes

definition start_token :: "nat \<Rightarrow> lexing option" where
  "start_token b =
     (if b = 34 then Some (InString []) else if is_letter b then Some (InWord [b])
      else if is_digit b \<or> b = 45 then Some (InNumber [b]) else None)"

definition emit :: "token option \<Rightarrow> token list option \<Rightarrow> token list option" where
  "emit t ts = (case t of None \<Rightarrow> None | Some t \<Rightarrow> map_option ((#) t) ts)"

definition ended :: "lexing \<Rightarrow> token list option" where
  "ended st =
     (case st of
        Between \<Rightarrow> Some []
      | InWord w \<Rightarrow> map_option (\<lambda>t. [t]) (keyword (rev w))
      | InNumber w \<Rightarrow> if number_ok (rev w) then Some [TNumber (rev w)] else None
      | _ \<Rightarrow> None)"


function lex :: "lexing \<Rightarrow> bytes \<Rightarrow> token list option" where
  "lex st [] = ended st"
| "lex Between (b # bs) =
     (if is_space b then lex Between bs
      else if punctuation b \<noteq> None then emit (punctuation b) (lex Between bs)
      else (case start_token b of None \<Rightarrow> None | Some st \<Rightarrow> lex st bs))"
| "lex (InString w) (b # bs) =
     (if b = 34 then emit (Some (TString (rev w))) (lex Between bs)
      else if b = 92 then lex (AfterBackslash (b # w)) bs
      else if b < 32 then None else lex (InString (b # w)) bs)"
| "lex (AfterBackslash w) (b # bs) =
     (if b \<in> {34, 92, 47, 98, 102, 110, 114, 116} then lex (InString (b # w)) bs
      else if b = 117 then lex (InHex 4 (b # w)) bs else None)"
| "lex (InHex k w) (b # bs) =
     (if is_hex b then lex (if k = 1 then InString (b # w) else InHex (k - 1) (b # w)) bs else None)"
| "lex (InWord w) (b # bs) =
     (if is_letter b then lex (InWord (b # w)) bs else emit (keyword (rev w)) (lex Between (b # bs)))"
| "lex (InNumber w) (b # bs) =
     (if in_number b then lex (InNumber (b # w)) bs
      else emit (if number_ok (rev w) then Some (TNumber (rev w)) else None) (lex Between (b # bs)))"
  by pat_completeness auto
termination
  by (relation "measures [\<lambda>(st, bs). length bs, \<lambda>(st, bs). if st = Between then 0 else 1]")
    (auto simp: start_token_def split: if_splits)

section \<open>Documents\<close>

datatype json = JNull | JBool bool | JNumber bytes | JString bytes | JArray "json list" | JObject "(bytes \<times> json) list"

text \<open>
  The parser keeps what is open: an array with the elements so far, or an object with its members so far
  and the key whose value is being read. At most 10000 may be open.
\<close>

datatype frame = InArray "json list" | InObject "(bytes \<times> json) list" bytes

datatype wanted =
    Value
  | ValueOrEnd                             \<comment> \<open>after an opening bracket\<close>
  | Key "(bytes \<times> json) list" bool         \<comment> \<open>members so far; may the object end here\<close>
  | Colon "(bytes \<times> json) list" bytes
  | After json

definition max_depth :: nat where "max_depth = 10000"

definition scalar :: "token \<Rightarrow> json option" where
  "scalar t =
     (case t of
        TNull \<Rightarrow> Some JNull | TTrue \<Rightarrow> Some (JBool True) | TFalse \<Rightarrow> Some (JBool False)
      | TNumber n \<Rightarrow> Some (JNumber n) | TString s \<Rightarrow> Some (JString s) | _ \<Rightarrow> None)"

text \<open>What is wanted after a token, and what is then open; \<open>None\<close> if the token may not be here.\<close>

definition parse_step :: "wanted \<Rightarrow> frame list \<Rightarrow> token \<Rightarrow> (wanted \<times> frame list) option" where
  "parse_step want st t =
     (if want = ValueOrEnd \<and> t = TCloseList then
        (case st of InArray vs # st \<Rightarrow> Some (After (JArray (rev vs)), st) | _ \<Rightarrow> None)
      else case want of
          After v \<Rightarrow>
            (case st of
               InArray vs # st' \<Rightarrow>
                 if t = TComma then Some (Value, InArray (v # vs) # st')
                 else if t = TCloseList then Some (After (JArray (rev (v # vs))), st') else None
             | InObject ms k # st' \<Rightarrow>
                 if t = TComma then Some (Key ((k, v) # ms) False, st')
                 else if t = TClose then Some (After (JObject (rev ((k, v) # ms))), st') else None
             | [] \<Rightarrow> None)
        | Key ms may_end \<Rightarrow>
            (case t of
               TString k \<Rightarrow> Some (Colon ms k, st)
             | TClose \<Rightarrow> if may_end then Some (After (JObject (rev ms)), st) else None
             | _ \<Rightarrow> None)
        | Colon ms k \<Rightarrow> if t = TColon then Some (Value, InObject ms k # st) else None
        | _ \<Rightarrow>
            if t = TOpenList then
              if length st < max_depth then Some (ValueOrEnd, InArray [] # st) else None
            else if t = TOpen then
              if length st < max_depth then Some (Key [] True, st) else None
            else map_option (\<lambda>v. (After v, st)) (scalar t))"

fun parse_tokens :: "wanted \<Rightarrow> frame list \<Rightarrow> token list \<Rightarrow> json option" where
  "parse_tokens want st [] = (case want of After v \<Rightarrow> if st = [] then Some v else None | _ \<Rightarrow> None)"
| "parse_tokens want st (t # ts) =
     (case parse_step want st t of None \<Rightarrow> None | Some (want', st') \<Rightarrow> parse_tokens want' st' ts)"

definition parse_json :: "bytes \<Rightarrow> json option" where
  "parse_json s = (case lex Between s of None \<Rightarrow> None | Some ts \<Rightarrow> parse_tokens Value [] ts)"

section \<open>Strings between quotes\<close>

definition hex_value :: "nat \<Rightarrow> nat" where
  "hex_value b = (if is_digit b then b - 48 else if between 97 102 b then b - 87 else b - 55)"

definition hex4 :: "nat \<Rightarrow> nat \<Rightarrow> nat \<Rightarrow> nat \<Rightarrow> nat" where
  "hex4 a b c d = ((hex_value a * 16 + hex_value b) * 16 + hex_value c) * 16 + hex_value d"

definition is_surrogate :: "nat \<Rightarrow> bool" where "is_surrogate r \<longleftrightarrow> between 55296 57343 r"

text \<open>\<^verbatim>\<open>utf16.DecodeRune\<close>, \<open>None\<close> for a pair that is not valid.\<close>

definition surrogate_pair :: "nat \<Rightarrow> nat \<Rightarrow> nat option" where
  "surrogate_pair r1 r2 =
     (if between 55296 56319 r1 \<and> between 56320 57343 r2
      then Some ((r1 - 55296) * 1024 + (r2 - 56320) + 65536) else None)"

definition unescape :: "nat \<Rightarrow> nat" where
  "unescape c = (case map_of [(98, 8), (102, 12), (110, 10), (114, 13), (116, 9)] c of None \<Rightarrow> c | Some b \<Rightarrow> b)"

function unquote :: "bytes \<Rightarrow> bytes" where
  "unquote [] = []"
| "unquote (b # bs) =
     (if b = 92 then
        (case bs of
           [] \<Rightarrow> []
         | c # rest \<Rightarrow>
             if c \<noteq> 117 then unescape c # unquote rest
             else (case rest of
                 h1 # h2 # h3 # h4 # rest \<Rightarrow>
                   (let r = hex4 h1 h2 h3 h4
                    in if is_surrogate r then
                         (case rest of
                            x # y # g1 # g2 # g3 # g4 # rest' \<Rightarrow>
                              (if x = 92 \<and> y = 117 \<and> list_all is_hex [g1, g2, g3, g4] then
                                 (case surrogate_pair r (hex4 g1 g2 g3 g4) of
                                    Some p \<Rightarrow> encode_rune p @ unquote rest'
                                  | None \<Rightarrow> replacement @ unquote rest)
                               else replacement @ unquote rest)
                          | _ \<Rightarrow> replacement @ unquote rest)
                       else encode_rune r @ unquote rest)
               | _ \<Rightarrow> []))
      else if b < 128 then b # unquote bs
      else (case decode_rune b bs of (r, n) \<Rightarrow> encode_rune r @ unquote (drop n bs)))"
  by pat_completeness auto
termination by (relation "measure length") auto

end
