(* ===== verification/Json_Round.thy ===== *)
theory Json_Round
  imports Go_Json
begin

text \<open>
  What \<^verbatim>\<open>Marshal\<close> writes is read back by \<^verbatim>\<open>Unmarshal\<close>: strings with every invalid byte
  replaced, so valid ones unchanged.
\<close>

section \<open>UTF-8\<close>

lemma decode_shape:
  assumes d: "decode_rune b bs = (r, n)" and good: "\<not> (r = 65533 \<and> n = 0)"
  obtains (one) "b < 128" "r = b" "n = 0"
  | (two) b1 rest where "bs = b1 # rest" "between 194 223 b" "between 128 191 b1"
      "r = (b - 192) * 64 + (b1 - 128)" "n = Suc 0"
  | (three) b1 b2 rest where "bs = b1 # b2 # rest" "between 224 239 b"
      "between (if b = 224 then 160 else 128) (if b = 237 then 159 else 191) b1" "between 128 191 b2"
      "r = (b - 224) * 4096 + (b1 - 128) * 64 + (b2 - 128)" "n = Suc (Suc 0)"
  | (four) b1 b2 b3 rest where "bs = b1 # b2 # b3 # rest" "between 240 244 b"
      "between (if b = 240 then 144 else 128) (if b = 244 then 143 else 191) b1" "between 128 191 b2"
      "between 128 191 b3"
      "r = (b - 240) * 262144 + (b1 - 128) * 4096 + (b2 - 128) * 64 + (b3 - 128)" "n = Suc (Suc (Suc 0))"
proof -
  have zero: "\<not> between l u 0" if "0 < l" for l u using that by (simp add: between_def)
  have "b < 128 \<or> between 194 223 b \<or> between 224 239 b \<or> between 240 244 b"
  proof (rule ccontr)
    assume "\<not> ?thesis"
    then have "decode_rune b bs = (65533, 0)" by (simp add: decode_rune_def Let_def)
    with d good show False by simp
  qed
  then consider (l1) "b < 128" | (l2) "between 194 223 b" | (l3) "between 224 239 b" | (l4) "between 240 244 b"
    by blast
  then show thesis
  proof cases
    case l1
    with d show thesis by (intro one) (simp_all add: decode_rune_def)
  next
    case l2
    then have n: "\<not> b < 128" by (simp add: between_def)
    have "decode_rune b [] = (65533, 0)" using l2 n by (simp add: decode_rune_def Let_def zero)
    then obtain b1 rest where bs: "bs = b1 # rest"
      using d good by (metis list.exhaust prod.inject)
    have "between 128 191 b1"
    proof (rule ccontr)
      assume "\<not> ?thesis"
      then have "decode_rune b bs = (65533, 0)" using l2 n by (simp add: decode_rune_def Let_def bs)
      with d good show False by simp
    qed
    with d l2 n show thesis by (intro two [OF bs l2]) (simp_all add: decode_rune_def bs Let_def)
  next
    case l3
    then have n: "\<not> b < 128" "\<not> between 194 223 b" by (simp_all add: between_def)
    have "decode_rune b [] = (65533, 0)" "decode_rune b [x] = (65533, 0)" for x
      using l3 n by (simp_all add: decode_rune_def Let_def zero)
    then obtain b1 b2 rest where bs: "bs = b1 # b2 # rest"
      using d good by (metis list.exhaust prod.inject)
    have "between (if b = 224 then 160 else 128) (if b = 237 then 159 else 191) b1 \<and> between 128 191 b2"
    proof (rule ccontr)
      assume "\<not> ?thesis"
      then have "decode_rune b bs = (65533, 0)" using l3 n by (simp add: decode_rune_def Let_def bs)
      with d good show False by simp
    qed
    with d l3 n show thesis by (intro three [OF bs l3]) (simp_all add: decode_rune_def bs Let_def)
  next
    case l4
    then have n: "\<not> b < 128" "\<not> between 194 223 b" "\<not> between 224 239 b" by (simp_all add: between_def)
    have "decode_rune b [] = (65533, 0)" "decode_rune b [x] = (65533, 0)" "decode_rune b [x, y] = (65533, 0)" for x y
      using l4 n by (simp_all add: decode_rune_def Let_def zero)
    then obtain b1 b2 b3 rest where bs: "bs = b1 # b2 # b3 # rest"
      using assms by (metis list.exhaust prod.inject)
    have "between (if b = 240 then 144 else 128) (if b = 244 then 143 else 191) b1 \<and> between 128 191 b2 \<and>
        between 128 191 b3"
    proof (rule ccontr)
      assume "\<not> ?thesis"
      then have "decode_rune b bs = (65533, 0)" using l4 n by (auto simp: decode_rune_def Let_def bs)
      with assms show False by simp
    qed
    with d l4 n show thesis by (intro four [OF bs l4]) (simp_all add: decode_rune_def bs Let_def)
  qed
qed

lemma continuation_byte: "between 128 191 c \<Longrightarrow> \<exists>x. c = 128 + x \<and> x < 64"
  by (auto simp: between_def dest: le_Suc_ex)

lemma base64: "x < 64 \<Longrightarrow> (a * 64 + x) div 64 = a" "x < 64 \<Longrightarrow> (a * 64 + x) mod 64 = (x :: nat)"
  by simp_all

lemma lead_byte: "between l u b \<Longrightarrow> \<exists>y. b = l + y \<and> y < Suc (u - l)"
  by (auto simp: between_def dest!: le_Suc_ex)

lemma decode_encode:
  assumes d: "decode_rune b bs = (r, n)" and good: "\<not> (r = 65533 \<and> n = 0)"
  shows "encode_rune r = b # take n bs"
  using assms
proof (cases rule: decode_shape)
  case one
  then show ?thesis by (simp add: encode_rune_def)
next
  case (two b1 rest)
  obtain x where x: "b1 = 128 + x" "x < 64" using continuation_byte [OF two(3)] by blast
  obtain y where "b = 194 + y" "y < 30" using lead_byte [OF two(2)] by auto
  note c = x this
  have r: "r = (y + 2) * 64 + x" by (simp add: two(4) c)
  have "r div 64 = y + 2" "r mod 64 = x" unfolding r using base64 [OF c(2)] by blast+
  then show ?thesis using c by (simp add: encode_rune_def two(1,5) r)
next
  case (three b1 b2 rest)
  then have "between 128 191 b1" by (auto simp: between_def split: if_splits)
  then obtain x1 where x1: "b1 = 128 + x1" "x1 < 64" using continuation_byte by blast
  obtain x2 where x2: "b2 = 128 + x2" "x2 < 64" using continuation_byte [OF three(4)] by blast
  obtain y where "b = 224 + y" "y < 16" using lead_byte [OF three(2)] by auto
  note c = x1 x2 this
  have r: "r = (y * 64 + x1) * 64 + x2" by (simp add: three(5) c)
  have m: "r div 64 = y * 64 + x1" "r mod 64 = x2" unfolding r using base64 [OF c(4)] by blast+
  have m': "(y * 64 + x1) div 64 = y" "(y * 64 + x1) mod 64 = x1" using base64 [OF c(2)] by blast+
  have "r div 4096 = r div 64 div 64" by (simp add: div_mult2_eq [symmetric])
  moreover have "\<not> r < 2048" "r < 65536" "\<not> between 55296 57343 r"
    using three(3) c by (auto simp: r between_def split: if_splits)
  ultimately show ?thesis using c by (simp add: encode_rune_def three(1,6) m m')
next
  case (four b1 b2 b3 rest)
  then have "between 128 191 b1" by (auto simp: between_def split: if_splits)
  then obtain x1 where x1: "b1 = 128 + x1" "x1 < 64" using continuation_byte by blast
  obtain x2 where x2: "b2 = 128 + x2" "x2 < 64" using continuation_byte [OF four(4)] by blast
  obtain x3 where x3: "b3 = 128 + x3" "x3 < 64" using continuation_byte [OF four(5)] by blast
  obtain y where "b = 240 + y" "y < 5" using lead_byte [OF four(2)] by auto
  note c = x1 x2 x3 this
  define w where "w = y * 64 + x1"
  define z where "z = w * 64 + x2"
  have r: "r = z * 64 + x3" by (simp add: four(6) c z_def w_def)
  have m: "r div 64 = z" "r mod 64 = x3" unfolding r using base64 [OF c(6)] by blast+
  have m': "z div 64 = w" "z mod 64 = x2" "w div 64 = y" "w mod 64 = x1"
    unfolding z_def w_def using base64 [OF c(2)] base64 [OF c(4)] by blast+
  have "r div 4096 = r div 64 div 64" "r div 262144 = r div 64 div 64 div 64"
    by (simp_all add: div_mult2_eq [symmetric])
  moreover have "\<not> r < 65536" "r \<le> 1114111"
    using four(3) c by (auto simp: r z_def w_def between_def split: if_splits)
  ultimately show ?thesis using c by (simp add: encode_rune_def between_def four(1,7) m m')
qed

lemma decode_take:
  assumes "decode_rune b bs = (r, n)"
  shows "\<not> (r = 65533 \<and> n = 0) \<Longrightarrow> decode_rune b (take n bs @ rest) = (r, n)" "n \<le> length bs"
    "\<And>c. c \<in> set (take n bs) \<Longrightarrow> 128 \<le> c"
proof -
  show "n \<le> length bs"
    using decode_skips_high [OF assms] by (metis less_or_eq_imp_le nat_neq_iff not_less_iff_gr_or_eq)
  show "128 \<le> c" if "c \<in> set (take n bs)" for c
    using that decode_skips_high [OF assms] by (auto simp: in_set_conv_nth)
  assume good: "\<not> (r = 65533 \<and> n = 0)"
  from assms good show "decode_rune b (take n bs @ rest) = (r, n)"
  proof (cases rule: decode_shape)
    case one
    then show ?thesis by (simp add: decode_rune_def)
  qed (simp_all add: decode_rune_def Let_def, (simp_all add: between_def)?)
qed

section \<open>Strings\<close>

lemma lex_plain:
  "\<forall>c \<in> set cs. 32 \<le> c \<and> c \<noteq> 34 \<and> c \<noteq> 92 \<Longrightarrow>
    lex (InString w) (cs @ rest) = lex (InString (rev cs @ w)) rest"
  by (induction cs arbitrary: w) auto

lemma hex_digit_is_hex: "d < 16 \<Longrightarrow> is_hex (hex_digit d)"
  by (auto simp: is_hex_def is_digit_def between_def hex_digit_def)

lemma hex_value_digit: "d < 16 \<Longrightarrow> hex_value (hex_digit d) = d"
  by (auto simp: hex_value_def is_digit_def between_def hex_digit_def)

lemma lex_escape_byte:
  assumes "b < 128"
  shows "lex (InString w) (escape_byte b @ rest) = lex (InString (rev (escape_byte b) @ w)) rest"
proof -
  have "is_hex (hex_digit (b div 16))" "is_hex (hex_digit (b mod 16))"
    using assms by (auto intro!: hex_digit_is_hex)
  moreover have "is_hex 48" by (simp add: is_hex_def is_digit_def between_def)
  ultimately show ?thesis
    by (auto simp: escape_byte_def html_safe_def between_def)
qed

lemma lex_escape:
  "lex (InString w) (escape s @ 34 # rest) = emit (Some (TString (rev w @ escape s))) (lex Between rest)"
proof (induction s arbitrary: w rule: escape.induct)
  case (2 b bs)
  show ?case
  proof (cases "b < 128")
    case True
    then show ?thesis using 2(1) lex_escape_byte [OF True] by simp
  next
    case False
    obtain r n where d: "decode_rune b bs = (r, n)" by force
    have hex: "is_hex (hex_digit (r mod 16))" by (rule hex_digit_is_hex) simp
    have hex': "is_hex 50" "is_hex 48" "is_hex 102" "is_hex 100"
      by (simp_all add: is_hex_def is_digit_def between_def)
    have plain: "lex (InString w) ((b # take n bs) @ x) = lex (InString (rev (b # take n bs) @ w)) x" for x
      by (rule lex_plain) (use False decode_take(3) [OF d] in fastforce)
    show ?thesis
      using 2(2) [OF False d [symmetric]] hex hex' False plain by (auto simp: d)
  qed
qed simp

lemma unquote_escape_byte:
  assumes "b < 128"
  shows "unquote (escape_byte b @ rest) = b # unquote rest"
proof -
  have "hex4 48 48 (hex_digit (b div 16)) (hex_digit (b mod 16)) = b"
    using assms by (simp add: hex4_def hex_value_digit) (simp add: hex_value_def is_digit_def between_def)
  with assms show ?thesis
    by (auto simp: escape_byte_def html_safe_def between_def unescape_def is_surrogate_def encode_rune_def Let_def)
qed

lemma unquote_escape: "unquote (escape s) = to_valid s"
proof (induction s rule: escape.induct)
  case (2 b bs)
  show ?case
  proof (cases "b < 128")
    case True
    then show ?thesis using 2(1) by (simp add: unquote_escape_byte decode_ascii)
  next
    case False
    obtain r n where d: "decode_rune b bs = (r, n)" by force
    note IH = 2(2) [OF False d [symmetric]]
    have fffd: "hex4 102 102 102 100 = 65533" "encode_rune 65533 = replacement" "\<not> is_surrogate 65533"
      by (simp_all add: hex4_def hex_value_def is_digit_def between_def encode_rune_def replacement_def
          is_surrogate_def)
    have ls: "r = 8232 \<or> r = 8233 \<Longrightarrow> hex4 50 48 50 (hex_digit (r mod 16)) = r \<and> \<not> is_surrogate r"
      by (auto simp: hex4_def hex_value_def is_digit_def between_def hex_digit_def is_surrogate_def)
    consider (bad) "r = 65533 \<and> n = 0" | (line) "\<not> (r = 65533 \<and> n = 0)" "r = 8232 \<or> r = 8233"
      | (copy) "\<not> (r = 65533 \<and> n = 0)" "\<not> (r = 8232 \<or> r = 8233)" by blast
    then show ?thesis
    proof cases
      case bad
      then show ?thesis using False d IH fffd by (simp add: Let_def)
    next
      case line
      have "escape (b # bs) = 92 # 117 # 50 # 48 # 50 # hex_digit (r mod 16) # escape (drop n bs)"
        using False d line by auto
      then have "unquote (escape (b # bs)) = encode_rune r @ unquote (escape (drop n bs))"
        using ls [OF line(2)] by (simp add: Let_def)
      then show ?thesis using line d IH decode_encode [OF d line(1)] by auto
    next
      case copy
      have "escape (b # bs) = b # take n bs @ escape (drop n bs)"
        using False d copy by auto
      moreover have "unquote (b # take n bs @ escape (drop n bs)) = encode_rune r @ unquote (escape (drop n bs))"
        using False decode_take(1,2) [OF d] copy(1) by simp
      ultimately show ?thesis using copy d IH decode_encode [OF d copy(1)] by auto
    qed
  qed
qed simp

end
