(* ===== verification/Mount_Options.thy ===== *)
theory Mount_Options
  imports Json_Round Paths
begin

text \<open>
  \<^verbatim>\<open>pkg/mountpoint/mountoptions\<close>: the options of a mount travel from the node service to the
  process that runs Mountpoint over a Unix socket, as one JSON document and one file descriptor. What
  the sockets and the kernel do is an argument: the results of the calls, the fragments in which a
  stream delivers the document, and the control messages with the descriptors, whose layout is the one
  of 64-bit little-endian Linux.
\<close>

section \<open>Options\<close>

text \<open>A slice may be nil, which its JSON shows.\<close>

record mount_opts =
  mo_fd :: int
  mo_bucket :: string
  mo_args :: "string list option"
  mo_env :: "string list option"
  mo_volume_id :: string

definition slice :: "'a list option \<Rightarrow> 'a list" where
  "slice v = (case v of None \<Rightarrow> [] | Some xs \<Rightarrow> xs)"

definition no_options :: mount_opts where
  "no_options = \<lparr>mo_fd = 0, mo_bucket = [], mo_args = None, mo_env = None, mo_volume_id = []\<rparr>"

fun write_members :: "(bytes \<times> bytes) list \<Rightarrow> bytes" where
  "write_members [] = []"
| "write_members [(k, v)] = write_string k @ 58 # v"
| "write_members ((k, v) # m # ms) = write_string k @ 58 # v @ 44 # write_members (m # ms)"

definition option_members :: "mount_opts \<Rightarrow> (bytes \<times> bytes) list" where
  "option_members opts =
     [(bytes_of ''bucketName'', write_string (bytes_of (mo_bucket opts))),
      (bytes_of ''args'', write_strings (map_option (map bytes_of) (mo_args opts))),
      (bytes_of ''env'', write_strings (map_option (map bytes_of) (mo_env opts)))] @
     (if mo_volume_id opts = [] then []
      else [(bytes_of ''volumeId'', write_string (bytes_of (mo_volume_id opts)))])"

definition marshal_options :: "mount_opts \<Rightarrow> bytes" where
  "marshal_options opts = 123 # write_members (option_members opts) @ [125]"

text \<open>
  Reading a document into options that may hold values already. The names of members are compared
  without case: the long s and the sign for Kelvin fold to letters too. A value of the wrong type is an
  error in the end, but the members after it are still read; \<^verbatim>\<open>null\<close> leaves a string alone.
\<close>

definition fold_rune :: "nat \<Rightarrow> nat" where
  "fold_rune r = (if between 97 122 r then r - 32 else if r = 383 then 83 else if r = 8490 then 75 else r)"

definition fold_name :: "bytes \<Rightarrow> nat list" where "fold_name k = map fold_rune (runes k)"

definition is_field :: "bytes \<Rightarrow> string \<Rightarrow> bool" where
  "is_field k name \<longleftrightarrow> fold_name k = fold_name (bytes_of name)"

abbreviation text_of :: "bytes \<Rightarrow> string" where "text_of s \<equiv> map char_of (unquote s)"

definition read_string :: "json \<Rightarrow> string \<Rightarrow> string option" where
  "read_string v old = (case v of JString s \<Rightarrow> Some (text_of s) | JNull \<Rightarrow> Some old | _ \<Rightarrow> None)"

text \<open>Elements are read into those of the old slice.\<close>

fun read_elements :: "json list \<Rightarrow> string list \<Rightarrow> string list option" where
  "read_elements [] old = Some []"
| "read_elements (v # vs) old =
     (case (read_string v (case old of [] \<Rightarrow> [] | s # _ \<Rightarrow> s), read_elements vs (tl old)) of
        (Some s, Some ss) \<Rightarrow> Some (s # ss)
      | _ \<Rightarrow> None)"

definition read_slice :: "json \<Rightarrow> string list option \<Rightarrow> string list option option" where
  "read_slice v old =
     (case v of JNull \<Rightarrow> Some None | JArray vs \<Rightarrow> map_option Some (read_elements vs (slice old)) | _ \<Rightarrow> None)"

definition read_member :: "bytes \<times> json \<Rightarrow> mount_opts \<Rightarrow> mount_opts option" where
  "read_member m opts =
     (case m of (k, v) \<Rightarrow>
        let k = unquote k
        in if is_field k ''bucketName'' then map_option (\<lambda>s. opts\<lparr>mo_bucket := s\<rparr>) (read_string v (mo_bucket opts))
           else if is_field k ''args'' then map_option (\<lambda>s. opts\<lparr>mo_args := s\<rparr>) (read_slice v (mo_args opts))
           else if is_field k ''env'' then map_option (\<lambda>s. opts\<lparr>mo_env := s\<rparr>) (read_slice v (mo_env opts))
           else if is_field k ''volumeId'' then
             map_option (\<lambda>s. opts\<lparr>mo_volume_id := s\<rparr>) (read_string v (mo_volume_id opts))
           else Some opts)"

fun read_members :: "(bytes \<times> json) list \<Rightarrow> mount_opts \<Rightarrow> mount_opts option" where
  "read_members [] opts = Some opts"
| "read_members (m # ms) opts =
     (case read_member m opts of None \<Rightarrow> None | Some opts' \<Rightarrow> read_members ms opts')"

definition unmarshal_options :: "bytes \<Rightarrow> mount_opts option" where
  "unmarshal_options s =
     (case parse_json s of
        Some (JObject ms) \<Rightarrow> read_members ms no_options
      | Some JNull \<Rightarrow> Some no_options
      | _ \<Rightarrow> None)"

section \<open>Control messages\<close>

fun little_endian :: "nat \<Rightarrow> nat \<Rightarrow> bytes" where
  "little_endian 0 n = []"
| "little_endian (Suc k) n = n mod 256 # little_endian k (n div 256)"

fun from_little_endian :: "bytes \<Rightarrow> nat" where
  "from_little_endian [] = 0"
| "from_little_endian (b # bs) = b + 256 * from_little_endian bs"

definition cmsg_align :: "nat \<Rightarrow> nat" where "cmsg_align n = (n + 7) div 8 * 8"

text \<open>A descriptor is 32 bits, with a sign.\<close>

definition int32_bytes :: "int \<Rightarrow> bytes" where "int32_bytes i = little_endian 4 (nat (i mod 2 ^ 32))"

definition int32_of :: "bytes \<Rightarrow> int" where
  "int32_of bs = (let n = int (from_little_endian bs) in if n < 2 ^ 31 then n else n - 2 ^ 32)"

definition unix_rights :: "int list \<Rightarrow> bytes" where
  "unix_rights fds =
     (let len = 16 + 4 * length fds
      in little_endian 8 len @ little_endian 4 1 @ little_endian 4 1 @ concat (map int32_bytes fds) @
         replicate (cmsg_align len - len) 0)"

record control_message =
  cm_level :: nat
  cm_type :: nat
  cm_data :: bytes

text \<open>\<^verbatim>\<open>syscall.ParseSocketControlMessage\<close>; \<open>None\<close> is \<^verbatim>\<open>EINVAL\<close>.\<close>

function parse_control :: "bytes \<Rightarrow> control_message list option" where
  "parse_control b =
     (if length b < 16 then Some []
      else (let len = from_little_endian (take 8 b)
            in if len < 16 \<or> length b < len then None
               else map_option ((#)
                 \<lparr>cm_level = from_little_endian (take 4 (drop 8 b)),
                  cm_type = from_little_endian (take 4 (drop 12 b)), cm_data = drop 16 (take len b)\<rparr>)
                 (parse_control (drop (cmsg_align len) b))))"
  by pat_completeness auto
termination by (relation "measure length") (auto simp: cmsg_align_def)

declare parse_control.simps [simp del]

text \<open>The kernel delivers whole descriptors; a remainder, on which the code would panic, is an error.\<close>

fun int32s :: "bytes \<Rightarrow> int list option" where
  "int32s [] = Some []"
| "int32s (a # b # c # d # rest) = map_option ((#) (int32_of [a, b, c, d])) (int32s rest)"
| "int32s _ = None"

fun message_rights :: "control_message list \<Rightarrow> int list option" where
  "message_rights [] = Some []"
| "message_rights (m # ms) =
     (if cm_level m \<noteq> 1 \<or> cm_type m \<noteq> 1 then None
      else case (int32s (cm_data m), message_rights ms) of
          (Some fds, Some fds') \<Rightarrow> Some (fds @ fds')
        | _ \<Rightarrow> None)"

definition parseUnixRights :: "bytes \<Rightarrow> int list option" where
  "parseUnixRights buf = (case parse_control buf of None \<Rightarrow> None | Some ms \<Rightarrow> message_rights ms)"

text \<open>The descriptors that are closed.\<close>

definition closeFds :: "bytes \<Rightarrow> int list" where
  "closeFds buf = (case parseUnixRights buf of None \<Rightarrow> [] | Some fds \<Rightarrow> fds)"

section \<open>Receiving\<close>

datatype recv_error =
    NoListener | NoDeadline | NoConnection
  | ReadFailed       \<comment> \<open>also when the deadline passed\<close>
  | NotDecoded | BadRights | DescriptorCount nat

definition messageRecvSize :: nat where "messageRecvSize = 1024"
definition unixRightsRecvSize :: nat where "unixRightsRecvSize = 16 + cmsg_align 4"

text \<open>
  The results of reads from a connection, at most the sizes above each: bytes of the stream with the
  control messages that came with them, or an error. After the last one the peer has closed it.
\<close>

datatype read_result = Got bytes bytes | ReadError

fun read_all :: "read_result list \<Rightarrow> bytes \<Rightarrow> bytes \<Rightarrow> bytes \<times> bytes \<times> bool" where
  "read_all [] messageBuf unixRightsBuf = (messageBuf, unixRightsBuf, True)"
| "read_all (ReadError # rs) messageBuf unixRightsBuf = (messageBuf, unixRightsBuf, False)"
| "read_all (Got message unixRights # rs) messageBuf unixRightsBuf =
     read_all rs (messageBuf @ message) (unixRightsBuf @ unixRights)"

text \<open>The result and the descriptors that were closed. No deadline is the zero time.\<close>

definition RecvOnConn :: "read_result list \<Rightarrow> bool \<Rightarrow> bool \<Rightarrow> (recv_error + mount_opts) \<times> int list" where
  "RecvOnConn conn has_deadline deadline_set =
     (if has_deadline \<and> \<not> deadline_set then (Inl NoDeadline, [])
      else case read_all conn [] [] of (messageBuf, unixRightsBuf, eof) \<Rightarrow>
        if \<not> eof then (Inl ReadFailed, closeFds unixRightsBuf)
        else case unmarshal_options messageBuf of
            None \<Rightarrow> (Inl NotDecoded, closeFds unixRightsBuf)
          | Some options \<Rightarrow>
              (case parseUnixRights unixRightsBuf of
                 None \<Rightarrow> (Inl BadRights, [])
               | Some fds \<Rightarrow>
                   (case fds of
                      [fd] \<Rightarrow> (Inr (options\<lparr>mo_fd := fd\<rparr>), [])
                    | _ \<Rightarrow> (Inl (DescriptorCount (length fds)), fds))))"

text \<open>The path a socket is opened at, from the directories the system reports.\<close>

definition path_dir :: "string \<Rightarrow> string" where
  "path_dir p = path_clean (rev (dropWhile (\<lambda>c. c \<noteq> CHR ''/'') (rev p)))"

definition path_base :: "string \<Rightarrow> string" where
  "path_base p =
     (if p = [] then ''.''
      else let name = rev (takeWhile (\<lambda>c. c \<noteq> CHR ''/'') (dropWhile (\<lambda>c. c = CHR ''/'') (rev p)))
           in if name = [] then ''/'' else name)"

fun drop_common :: "string list \<Rightarrow> string list \<Rightarrow> string list \<times> string list" where
  "drop_common (b # bs) (t # ts) = (if b = t then drop_common bs ts else (b # bs, t # ts))"
| "drop_common bs ts = (bs, ts)"

definition path_elements :: "string \<Rightarrow> string list" where
  "path_elements p = filter (\<lambda>w. w \<noteq> []) (split_all CHR ''/'' p)"

definition path_rel :: "string \<Rightarrow> string \<Rightarrow> string option" where
  "path_rel base targ =
     (let base = path_clean base; targ = path_clean targ
      in if targ = base then Some ''.''
         else (let base = (if base = ''.'' then [] else base)
               in if has_prefix base ''/'' \<noteq> has_prefix targ ''/'' then None
                  else case drop_common (path_elements base) (path_elements targ) of (bs, ts) \<Rightarrow>
                    if bs \<noteq> [] \<and> hd bs = ''..'' then None
                    else Some (join_with ''/'' (replicate (length bs) ''..'' @ ts))))"

definition relative :: "(string \<Rightarrow> string option) \<Rightarrow> string option \<Rightarrow> string \<Rightarrow> string option" where
  "relative evalSymlinks getwd p =
     (case evalSymlinks (path_dir p) of
        None \<Rightarrow> None
      | Some path2 \<Rightarrow>
          (case getwd of
             None \<Rightarrow> None
           | Some dir \<Rightarrow>
               (case evalSymlinks dir of
                  None \<Rightarrow> None
                | Some dir2 \<Rightarrow>
                    map_option (\<lambda>rel. path_join [rel, path_base p]) (path_rel dir2 path2))))"

definition tryToMakeSockPathRelative :: "(string \<Rightarrow> string option) \<Rightarrow> string option \<Rightarrow> string \<Rightarrow> string" where
  "tryToMakeSockPathRelative evalSymlinks getwd path =
     (if length path < 108 then path
      else case relative evalSymlinks getwd path of None \<Rightarrow> path | Some shortPath \<Rightarrow> shortPath)"

text \<open>Whether listening, setting a deadline and accepting succeed at the path.\<close>

record socket_world =
  eval_symlinks :: "string \<Rightarrow> string option"
  working_dir :: "string option"
  can_listen :: "string \<Rightarrow> bool"
  with_deadline :: bool
  sets_deadline :: bool
  accepted :: "string \<Rightarrow> read_result list option"

definition Recv :: "socket_world \<Rightarrow> string \<Rightarrow> (recv_error + mount_opts) \<times> int list" where
  "Recv w sockPath =
     (let sockPath = tryToMakeSockPathRelative (eval_symlinks w) (working_dir w) sockPath
      in if \<not> can_listen w sockPath then (Inl NoListener, [])
         else if with_deadline w \<and> \<not> sets_deadline w then (Inl NoDeadline, [])
         else case accepted w sockPath of
             None \<Rightarrow> (Inl NoConnection, [])
           | Some conn \<Rightarrow> RecvOnConn conn (with_deadline w) (sets_deadline w))"

section \<open>Sending\<close>

datatype dial_result = Dialled | NoEntry | Refused | DialError

datatype send_error = DialFailed | DialCancelled | DeadlineFailed | WriteFailed | PartialWrite

definition unixSocketDialRetryInterval :: nat where "unixSocketDialRetryInterval = 5"

text \<open>The results of dialling until the context is done.\<close>

fun dialWithRetry :: "dial_result list \<Rightarrow> send_error option" where
  "dialWithRetry [] = Some DialCancelled"
| "dialWithRetry (d # ds) =
     (case d of
        Dialled \<Rightarrow> None
      | NoEntry \<Rightarrow> dialWithRetry ds
      | Refused \<Rightarrow> dialWithRetry ds
      | DialError \<Rightarrow> Some DialFailed)"

text \<open>
  What is written, and the error. The result of \<^verbatim>\<open>WriteMsgUnix\<close> is \<open>None\<close> for an error, else the
  numbers of bytes written.
\<close>

definition Send :: "dial_result list \<Rightarrow> bool \<Rightarrow> bool \<Rightarrow> (bytes \<Rightarrow> bytes \<Rightarrow> (nat \<times> nat) option) \<Rightarrow> mount_opts \<Rightarrow>
    (bytes \<times> bytes) option \<times> send_error option" where
  "Send dials has_deadline deadline_set write options =
     (let message = marshal_options options
      in case dialWithRetry dials of
           Some e \<Rightarrow> (None, Some e)
         | None \<Rightarrow>
             if has_deadline \<and> \<not> deadline_set then (None, Some DeadlineFailed)
             else (let unixRights = unix_rights [mo_fd options]
                   in case write message unixRights of
                        None \<Rightarrow> (None, Some WriteFailed)
                      | Some (messageN, unixRightsN) \<Rightarrow>
                          (Some (take messageN message, take unixRightsN unixRights),
                           if length message \<noteq> messageN \<or> length unixRights \<noteq> unixRightsN
                           then Some PartialWrite else None)))"

end
