(* ===== verification/Options_Transfer.thy ===== *)
theory Options_Transfer
  imports Mount_Options
begin

text \<open>
  What arrives of the options that were sent: the document is read back whatever the fragments it came
  in, the descriptor is the one the kernel installed, and a receiver that fails keeps no descriptor.
\<close>

section \<open>Documents that are written denote the values that are read\<close>

definition prepend :: "token list \<Rightarrow> token list option \<Rightarrow> token list option" where
  "prepend ts r = map_option ((@) ts) r"

lemma prepend_simps [simp]:
  "prepend [] r = r" "prepend ts (prepend ts' r) = prepend (ts @ ts') r" "emit (Some t) r = prepend [t] r"
  by (cases r; simp add: prepend_def emit_def)+

text \<open>
  A text makes tokens whatever follows it; \<^verbatim>\<open>null\<close> only if no letter does.
\<close>

definition makes :: "bytes \<Rightarrow> token list \<Rightarrow> bool" where
  "makes bs ts \<longleftrightarrow> (\<forall>rest. lex Between (bs @ rest) = prepend ts (lex Between rest))"

definition makes_before :: "bytes \<Rightarrow> token list \<Rightarrow> bool" where
  "makes_before bs ts \<longleftrightarrow>
     (\<forall>c rest. punctuation c \<noteq> None \<longrightarrow> lex Between (bs @ c # rest) = prepend ts (lex Between (c # rest)))"

lemma makes_append: "makes a ta \<Longrightarrow> makes b tb \<Longrightarrow> makes (a @ b) (ta @ tb)"
  by (simp add: makes_def)

lemma makes_before_append: "makes a ta \<Longrightarrow> makes_before b tb \<Longrightarrow> makes_before (a @ b) (ta @ tb)"
  by (simp add: makes_def makes_before_def)

lemma makes_imp_before: "makes a ta \<Longrightarrow> makes_before a ta"
  by (simp add: makes_def makes_before_def)

lemma makes_punctuation: "punctuation c = Some t \<Longrightarrow> makes [c] [t]"
  by (auto simp: makes_def punctuation_def is_space_def split: if_splits)

lemma makes_end:
  assumes "makes_before a ta" "punctuation c = Some t"
  shows "makes (a @ [c]) (ta @ [t])"
  unfolding makes_def
proof
  fix rest
  have "lex Between ((a @ [c]) @ rest) = prepend ta (lex Between ([c] @ rest))"
    using assms by (simp add: makes_before_def)
  also have "lex Between ([c] @ rest) = prepend [t] (lex Between rest)"
    using makes_punctuation [OF assms(2)] unfolding makes_def by blast
  finally show "lex Between ((a @ [c]) @ rest) = prepend (ta @ [t]) (lex Between rest)" by simp
qed

lemma makes_string: "makes (write_string s) [TString (escape s)]"
  by (simp add: makes_def write_string_def lex_escape is_space_def punctuation_def start_token_def)

lemma makes_null: "makes_before (bytes_of ''null'') [TNull]"
proof -
  have "lex (InWord [108, 108, 117, 110]) (c # rest) = prepend [TNull] (lex Between (c # rest))"
    if "punctuation c \<noteq> None" for c rest
    using that by (auto simp: keyword_def punctuation_def is_letter_def between_def prepend_def split: if_splits)
  then show ?thesis
    by (simp add: makes_before_def is_space_def punctuation_def start_token_def is_letter_def between_def)
qed

text \<open>A text denotes a value if the parser reads it wherever enough depth is left.\<close>

definition denotes :: "nat \<Rightarrow> bytes \<Rightarrow> json \<Rightarrow> bool" where
  "denotes d bs v \<longleftrightarrow> (\<exists>ts. makes_before bs ts \<and>
     (\<forall>st rest. length st + d \<le> max_depth \<longrightarrow>
        parse_tokens Value st (ts @ rest) = parse_tokens (After v) st rest))"

lemma denotes_string: "denotes 1 (write_string s) (JString (escape s))"
  unfolding denotes_def
  by (intro exI [of _ "[TString (escape s)]"] conjI makes_imp_before makes_string) (simp add: parse_step_def scalar_def)

lemma string_step:
  "want \<in> {Value, ValueOrEnd} \<Longrightarrow>
   parse_step want (InArray vs # st) (TString s) = Some (After (JString s), InArray vs # st)"
  by (auto simp: parse_step_def scalar_def)

lemma elements_tokens:
  "ss \<noteq> [] \<Longrightarrow> \<exists>ts. makes (write_elements ss) ts \<and>
     (\<forall>want vs st rest. want \<in> {Value, ValueOrEnd} \<longrightarrow>
       parse_tokens want (InArray vs # st) (ts @ TCloseList # rest) =
       parse_tokens (After (JArray (rev vs @ map (\<lambda>s. JString (escape s)) ss))) st rest)"
proof (induction ss rule: write_elements.induct)
  case (2 s)
  then show ?case
    by (intro exI [of _ "[TString (escape s)]"] conjI)
      (auto simp: makes_string string_step parse_step_def [of "After _"])
next
  case (3 s t ss)
  then obtain ts where ts: "makes (write_elements (t # ss)) ts"
    "\<And>want vs st rest. want \<in> {Value, ValueOrEnd} \<Longrightarrow>
       parse_tokens want (InArray vs # st) (ts @ TCloseList # rest) =
       parse_tokens (After (JArray (rev vs @ map (\<lambda>s. JString (escape s)) (t # ss)))) st rest"
    by blast
  have "makes (write_string s @ [44] @ write_elements (t # ss)) ([TString (escape s)] @ [TComma] @ ts)"
    by (intro makes_append makes_string makes_punctuation ts(1)) (simp add: punctuation_def)
  then show ?case
    by (intro exI [of _ "TString (escape s) # TComma # ts"] conjI)
      (auto simp: ts(2) string_step parse_step_def [of "After _"])
qed simp

definition strings_value :: "bytes list option \<Rightarrow> json" where
  "strings_value v = (case v of None \<Rightarrow> JNull | Some ss \<Rightarrow> JArray (map (\<lambda>s. JString (escape s)) ss))"

lemma denotes_strings: "denotes 1 (write_strings v) (strings_value v)"
proof (cases v)
  case None
  then show ?thesis
    unfolding denotes_def write_strings_def strings_value_def
    by (intro exI [of _ "[TNull]"]) (simp add: makes_null [simplified] parse_step_def scalar_def)
next
  case (Some ss)
  obtain ts where ts: "makes (write_elements ss) ts"
    "\<And>st rest. parse_tokens ValueOrEnd (InArray [] # st) (ts @ TCloseList # rest) =
       parse_tokens (After (JArray (map (\<lambda>s. JString (escape s)) ss))) st rest"
  proof (cases "ss = []")
    case True
    then show thesis using that [of "[]"] by (simp add: makes_def parse_step_def)
  next
    case False
    then show thesis using elements_tokens [OF False] that by fastforce
  qed
  have "makes ([91] @ write_elements ss @ [93]) ([TOpenList] @ ts @ [TCloseList])"
    by (intro makes_append ts(1) makes_punctuation) (simp_all add: punctuation_def)
  then show ?thesis
    unfolding denotes_def write_strings_def strings_value_def Some
    by (intro exI [of _ "TOpenList # ts @ [TCloseList]"])
      (simp add: makes_imp_before parse_step_def [of Value] ts(2))
qed

definition member_texts :: "(bytes \<times> bytes \<times> json) list \<Rightarrow> (bytes \<times> bytes) list" where
  "member_texts xs = map (\<lambda>(k, bs, v). (k, bs)) xs"

definition member_values :: "(bytes \<times> bytes \<times> json) list \<Rightarrow> (bytes \<times> json) list" where
  "member_values xs = map (\<lambda>(k, bs, v). (escape k, v)) xs"

lemma member_tokens:
  assumes "denotes 1 bs v"
  obtains ts where "makes_before (write_string k @ 58 # bs) ts"
    "\<And>ms may st rest. length st + 2 \<le> max_depth \<Longrightarrow>
       parse_tokens (Key ms may) st (ts @ rest) = parse_tokens (After v) (InObject ms (escape k) # st) rest"
proof -
  obtain tv where tv: "makes_before bs tv"
    "\<And>st rest. length st + 1 \<le> max_depth \<Longrightarrow>
       parse_tokens Value st (tv @ rest) = parse_tokens (After v) st rest"
    using assms unfolding denotes_def by auto
  have "makes_before (write_string k @ [58] @ bs) ([TString (escape k)] @ [TColon] @ tv)"
    by (intro makes_before_append makes_string makes_punctuation tv(1)) (simp add: punctuation_def)
  then show thesis
    by (intro that [of "TString (escape k) # TColon # tv"]) (simp_all add: parse_step_def tv(2))
qed

lemma members_tokens:
  "xs \<noteq> [] \<Longrightarrow> list_all (\<lambda>(k, bs, v). denotes 1 bs v) xs \<Longrightarrow>
   \<exists>ts. makes_before (write_members (member_texts xs)) ts \<and>
     (\<forall>ms may st rest. length st + 2 \<le> max_depth \<longrightarrow>
       parse_tokens (Key ms may) st (ts @ TClose # rest) =
       parse_tokens (After (JObject (rev ms @ member_values xs))) st rest)"
proof (induction xs)
  case (Cons x xs)
  obtain k bs v where x: "x = (k, bs, v)" by (cases x) auto
  obtain t1 where t1: "makes_before (write_string k @ 58 # bs) t1"
    "\<And>ms may st rest. length st + 2 \<le> max_depth \<Longrightarrow>
       parse_tokens (Key ms may) st (t1 @ rest) = parse_tokens (After v) (InObject ms (escape k) # st) rest"
    using Cons.prems(2) member_tokens [of bs v k] by (auto simp: x)
  show ?case
  proof (cases xs)
    case Nil
    then show ?thesis
      by (intro exI [of _ t1]) (use t1 in \<open>simp add: x member_texts_def member_values_def parse_step_def [of "After _"]\<close>)
  next
    case more: (Cons y ys)
    obtain ts where ts: "makes_before (write_members (member_texts xs)) ts"
      "\<And>ms may st rest. length st + 2 \<le> max_depth \<Longrightarrow>
         parse_tokens (Key ms may) st (ts @ TClose # rest) =
         parse_tokens (After (JObject (rev ms @ member_values xs))) st rest"
      using Cons by (auto simp: more)
    have "makes_before ((write_string k @ 58 # bs) @ [44] @ write_members (member_texts xs)) (t1 @ [TComma] @ ts)"
      using makes_before_append [OF makes_end [OF t1(1), of 44 TComma] ts(1)] by (simp add: punctuation_def)
    moreover have "write_members (member_texts (x # xs)) =
        (write_string k @ 58 # bs) @ [44] @ write_members (member_texts xs)"
      by (cases y) (simp add: x more member_texts_def)
    ultimately show ?thesis
      by (intro exI [of _ "t1 @ TComma # ts"])
        (simp add: t1(2) ts(2) parse_step_def [of "After _"], simp add: x member_values_def)
  qed
qed simp

lemma parse_object:
  assumes "xs \<noteq> []" "list_all (\<lambda>(k, bs, v). denotes 1 bs v) xs"
  shows "parse_json (123 # write_members (member_texts xs) @ [125]) = Some (JObject (member_values xs))"
proof -
  obtain ts where ts: "makes_before (write_members (member_texts xs)) ts"
    "\<And>ms may st rest. length st + 2 \<le> max_depth \<Longrightarrow>
       parse_tokens (Key ms may) st (ts @ TClose # rest) =
       parse_tokens (After (JObject (rev ms @ member_values xs))) st rest"
    using members_tokens [OF assms] by blast
  have "makes ([123] @ write_members (member_texts xs) @ [125]) ([TOpen] @ ts @ [TClose])"
    by (intro makes_append makes_end ts(1) makes_punctuation) (simp_all add: punctuation_def)
  then have "lex Between ([123] @ write_members (member_texts xs) @ [125]) = Some ([TOpen] @ ts @ [TClose])"
    unfolding makes_def by (drule_tac x = "[]" in spec) (simp add: ended_def prepend_def)
  then show ?thesis
    by (simp add: parse_json_def parse_step_def [of Value] max_depth_def ts(2))
qed

section \<open>Options\<close>

text \<open>A string as it arrives: every byte that is not part of a valid rune is replaced.\<close>

definition arriving :: "string \<Rightarrow> string" where
  "arriving s = map char_of (to_valid (bytes_of s))"

definition delivered :: "mount_opts \<Rightarrow> mount_opts" where
  "delivered opts = opts\<lparr>mo_bucket := arriving (mo_bucket opts),
     mo_args := map_option (map arriving) (mo_args opts), mo_env := map_option (map arriving) (mo_env opts),
     mo_volume_id := arriving (mo_volume_id opts)\<rparr>"

lemma text_of_escape: "text_of (escape (bytes_of s)) = arriving s"
  by (simp add: unquote_escape arriving_def)

lemma arriving_valid [simp]: "valid_utf8 (bytes_of s) \<Longrightarrow> arriving s = s"
  by (simp add: arriving_def to_valid_id comp_def)

lemma arriving_Nil [simp]: "arriving [] = []"
  by (simp add: arriving_def)

definition option_values :: "mount_opts \<Rightarrow> (bytes \<times> bytes \<times> json) list" where
  "option_values opts =
     [(bytes_of ''bucketName'', write_string (bytes_of (mo_bucket opts)), JString (escape (bytes_of (mo_bucket opts)))),
      (bytes_of ''args'', write_strings (map_option (map bytes_of) (mo_args opts)),
        strings_value (map_option (map bytes_of) (mo_args opts))),
      (bytes_of ''env'', write_strings (map_option (map bytes_of) (mo_env opts)),
        strings_value (map_option (map bytes_of) (mo_env opts)))] @
     (if mo_volume_id opts = [] then []
      else [(bytes_of ''volumeId'', write_string (bytes_of (mo_volume_id opts)),
        JString (escape (bytes_of (mo_volume_id opts))))])"

lemma option_texts: "member_texts (option_values opts) = option_members opts"
  by (simp add: member_texts_def option_values_def option_members_def)

lemma read_strings:
  "read_slice (strings_value (map_option (map bytes_of) v)) None = Some (map_option (map arriving) v)"
proof -
  have "read_elements (map (\<lambda>s. JString (escape s)) (map bytes_of ss)) [] = Some (map arriving ss)" for ss
    by (induction ss) (simp_all add: read_string_def text_of_escape)
  then show ?thesis
    by (cases v) (simp_all add: read_slice_def strings_value_def slice_def)
qed

lemma names_read:
  "unquote (escape (bytes_of ''bucketName'')) = bytes_of ''bucketName''"
  "unquote (escape (bytes_of ''args'')) = bytes_of ''args''"
  "unquote (escape (bytes_of ''env'')) = bytes_of ''env''"
  "unquote (escape (bytes_of ''volumeId'')) = bytes_of ''volumeId''"
  unfolding unquote_escape by (simp_all add: decode_ascii)

lemma fold_names:
  "fold_name (bytes_of ''bucketName'') = bytes_of ''BUCKETNAME''" "fold_name (bytes_of ''args'') = bytes_of ''ARGS''"
  "fold_name (bytes_of ''env'') = bytes_of ''ENV''" "fold_name (bytes_of ''volumeId'') = bytes_of ''VOLUMEID''"
  by (simp_all add: fold_name_def decode_ascii fold_rune_def between_def)

lemma fields:
  "is_field (bytes_of ''bucketName'') ''bucketName''"
  "\<not> is_field (bytes_of ''args'') ''bucketName''" "is_field (bytes_of ''args'') ''args''"
  "\<not> is_field (bytes_of ''env'') ''bucketName''" "\<not> is_field (bytes_of ''env'') ''args''" "is_field (bytes_of ''env'') ''env''"
  "\<not> is_field (bytes_of ''volumeId'') ''bucketName''" "\<not> is_field (bytes_of ''volumeId'') ''args''"
  "\<not> is_field (bytes_of ''volumeId'') ''env''" "is_field (bytes_of ''volumeId'') ''volumeId''"
  unfolding is_field_def fold_names by simp_all

lemma read_option_members:
  "read_member (escape (bytes_of ''bucketName''), JString (escape (bytes_of s))) opts = Some (opts\<lparr>mo_bucket := arriving s\<rparr>)"
  "mo_args opts = None \<Longrightarrow> read_member (escape (bytes_of ''args''), strings_value (map_option (map bytes_of) v)) opts =
     Some (opts\<lparr>mo_args := map_option (map arriving) v\<rparr>)"
  "mo_env opts = None \<Longrightarrow> read_member (escape (bytes_of ''env''), strings_value (map_option (map bytes_of) v)) opts =
     Some (opts\<lparr>mo_env := map_option (map arriving) v\<rparr>)"
  "read_member (escape (bytes_of ''volumeId''), JString (escape (bytes_of s))) opts = Some (opts\<lparr>mo_volume_id := arriving s\<rparr>)"
  unfolding read_member_def prod.case Let_def names_read
  by (simp_all only: fields if_True if_False read_strings option.map)
    (simp_all only: read_string_def json.case text_of_escape option.map)

lemma unmarshal_marshal: "unmarshal_options (marshal_options opts) = Some ((delivered opts)\<lparr>mo_fd := 0\<rparr>)"
proof -
  have "parse_json (marshal_options opts) = Some (JObject (member_values (option_values opts)))"
    unfolding marshal_options_def option_texts [symmetric]
    by (rule parse_object) (simp_all add: option_values_def denotes_string [simplified] denotes_strings [simplified])
  moreover have "read_members (member_values (option_values opts)) no_options = Some ((delivered opts)\<lparr>mo_fd := 0\<rparr>)"
  proof -
    define nb na ne nv where names: "nb = bytes_of ''bucketName''" "na = bytes_of ''args''"
      "ne = bytes_of ''env''" "nv = bytes_of ''volumeId''"
    have "member_values (option_values opts) =
        [(escape nb, JString (escape (bytes_of (mo_bucket opts)))),
         (escape na, strings_value (map_option (map bytes_of) (mo_args opts))),
         (escape ne, strings_value (map_option (map bytes_of) (mo_env opts)))] @
        (if mo_volume_id opts = [] then []
         else [(escape nv, JString (escape (bytes_of (mo_volume_id opts))))])"
      unfolding names option_values_def member_values_def by simp
    then show ?thesis
      by (simp add: read_option_members [folded names] no_options_def delivered_def)
  qed
  ultimately show ?thesis by (simp add: unmarshal_options_def)
qed

end
