(* ===== verification/Options_Delivery.thy ===== *)
theory Options_Delivery
  imports Options_Transfer
begin

text \<open>
  The descriptor next to the options, and the two results about the whole way: what was sent arrives,
  and every descriptor that arrives is either handed to the caller or closed.
\<close>

section \<open>Control messages\<close>

lemma length_little_endian [simp]: "length (little_endian k n) = k"
  by (induction k arbitrary: n) simp_all

lemma from_to_little_endian: "from_little_endian (little_endian k n) = n mod 256 ^ k"
proof (induction k arbitrary: n)
  case (Suc k)
  then show ?case by (simp add: mod_mult2_eq [of n 256 "256 ^ k"] mult.commute add.commute)
qed simp

definition descriptor :: "int \<Rightarrow> bool" where "descriptor fd \<longleftrightarrow> 0 \<le> fd \<and> fd < 2 ^ 31"

lemma int32_round:
  assumes "descriptor fd"
  shows "int32_of (int32_bytes fd) = fd"
proof -
  have "nat fd < 4294967296" "fd < 4294967296" using assms by (auto simp: descriptor_def)
  with assms show ?thesis
    by (simp add: descriptor_def int32_of_def int32_bytes_def from_to_little_endian Let_def)
qed

lemma length_int32_bytes [simp]: "length (int32_bytes fd) = 4"
  by (simp add: int32_bytes_def)

lemma int32s_Cons: "length b = 4 \<Longrightarrow> int32s (b @ rest) = map_option ((#) (int32_of b)) (int32s rest)"
  by (auto simp: numeral_eq_Suc length_Suc_conv)

lemma int32s_rights: "list_all descriptor fds \<Longrightarrow> int32s (concat (map int32_bytes fds)) = Some fds"
  by (induction fds) (simp_all add: int32s_Cons int32_round)

lemma length_rights: "length (concat (map int32_bytes fds)) = 4 * length fds"
  by (induction fds) simp_all

lemma cmsg_align_ge: "n \<le> cmsg_align n"
  by (simp add: cmsg_align_def)

lemma length_unix_rights: "length (unix_rights fds) = cmsg_align (16 + 4 * length fds)"
  using cmsg_align_ge [of "16 + 4 * length fds"] by (simp add: unix_rights_def Let_def length_rights)

lemma parse_unix_rights:
  assumes "list_all descriptor fds" "length fds < 2 ^ 32"
  shows "parse_control (unix_rights fds @ rest) =
    map_option ((#) \<lparr>cm_level = 1, cm_type = 1, cm_data = concat (map int32_bytes fds)\<rparr>) (parse_control rest)"
proof -
  define len where "len = 16 + 4 * length fds"
  define data where "data = concat (map int32_bytes fds)"
  define pad where "pad = replicate (cmsg_align len - len) (0 :: nat)"
  have u: "unix_rights fds @ rest = little_endian 8 len @ little_endian 4 1 @ little_endian 4 1 @ data @ pad @ rest"
    by (simp add: unix_rights_def Let_def len_def data_def pad_def)
  have small: "len < 256 ^ 8" using assms(2) by (simp add: len_def)
  have one: "from_little_endian (little_endian 4 (Suc 0)) = Suc 0" by (simp add: from_to_little_endian)
  have drop_all: "drop (cmsg_align len) (unix_rights fds @ rest) = rest"
    by (simp add: length_unix_rights len_def)
  have "length (unix_rights fds @ rest) \<ge> len"
    using cmsg_align_ge [of len] by (simp add: length_unix_rights len_def)
  moreover have "from_little_endian (take 8 (unix_rights fds @ rest)) = len"
    using small by (simp add: u from_to_little_endian)
  moreover have "take 4 (drop 8 (unix_rights fds @ rest)) = little_endian 4 1"
    "take 4 (drop 12 (unix_rights fds @ rest)) = little_endian 4 1" by (simp_all add: u)
  moreover have "drop 16 (take len (unix_rights fds @ rest)) = data"
    by (simp add: u data_def length_rights len_def drop_take)
  moreover have "16 \<le> len" by (simp add: len_def)
  ultimately show ?thesis
    by (subst parse_control.simps) (simp add: Let_def one drop_all data_def del: drop_append take_append)
qed

lemma parse_rights_append:
  assumes "list_all descriptor fds" "length fds < 2 ^ 32"
  shows "parseUnixRights (unix_rights fds @ rest) = map_option ((@) fds) (parseUnixRights rest)"
  by (simp add: parseUnixRights_def parse_unix_rights [OF assms] int32s_rights [OF assms(1)]
      split: option.split)

section \<open>Fragments\<close>

text \<open>
  What the kernel delivers: pieces of the stream, each with the descriptors it installed for this read,
  in sizes for which the receiver has room. A failed read may end it.
\<close>

type_synonym piece = "bytes \<times> int list"

definition piece_ok :: "piece \<Rightarrow> bool" where
  "piece_ok p \<longleftrightarrow> length (fst p) \<le> messageRecvSize \<and> list_all descriptor (snd p) \<and>
     (snd p \<noteq> [] \<longrightarrow> length (unix_rights (snd p)) \<le> unixRightsRecvSize)"

definition read_of :: "piece \<Rightarrow> read_result" where
  "read_of p = Got (fst p) (if snd p = [] then [] else unix_rights (snd p))"

definition sent_message :: "piece list \<Rightarrow> bytes" where "sent_message ps = concat (map fst ps)"
definition installed :: "piece list \<Rightarrow> int list" where "installed ps = concat (map snd ps)"

lemma piece_rights:
  assumes "piece_ok p"
  shows "list_all descriptor (snd p) \<and> length (snd p) < 2 ^ 32"
proof (cases "snd p = []")
  case False
  then have "16 + 4 * length (snd p) \<le> unixRightsRecvSize"
    using assms cmsg_align_ge [of "16 + 4 * length (snd p)"] by (simp add: piece_ok_def length_unix_rights)
  then show ?thesis using assms by (simp add: piece_ok_def unixRightsRecvSize_def cmsg_align_def)
qed simp

definition rights_buffer :: "piece list \<Rightarrow> bytes" where
  "rights_buffer ps = concat (map (\<lambda>p. if snd p = [] then [] else unix_rights (snd p)) ps)"

lemma rights_parsed: "list_all piece_ok ps \<Longrightarrow> parseUnixRights (rights_buffer ps) = Some (installed ps)"
proof (induction ps)
  case Nil
  then show ?case
    by (simp add: rights_buffer_def installed_def parseUnixRights_def parse_control.simps [of "[]"])
next
  case (Cons p ps)
  then show ?case
    using parse_rights_append [of "snd p"] piece_rights [of p]
    by (auto simp: rights_buffer_def installed_def)
qed

lemma read_pieces:
  "read_all (map read_of ps) m r = (m @ sent_message ps, r @ rights_buffer ps, True)"
  "read_all (map read_of ps @ ReadError # rs) m r = (m @ sent_message ps, r @ rights_buffer ps, False)"
  by (induction ps arbitrary: m r) (simp_all add: read_of_def sent_message_def rights_buffer_def)

text \<open>A connection that ends, and one that fails after some pieces.\<close>

definition connection :: "piece list \<Rightarrow> bool \<Rightarrow> read_result list" where
  "connection ps ends = map read_of ps @ (if ends then [] else [ReadError])"

lemma read_connection: "read_all (connection ps ends) [] [] = (sent_message ps, rights_buffer ps, ends)"
  by (simp add: connection_def read_pieces read_pieces(1) [of ps "[]" "[]", simplified])

section \<open>Results\<close>

text \<open>The options without their descriptor survive: all their strings are valid UTF-8.\<close>

definition plain_text :: "mount_opts \<Rightarrow> bool" where
  "plain_text opts \<longleftrightarrow> list_all (\<lambda>s. valid_utf8 (bytes_of s))
     (mo_bucket opts # mo_volume_id opts # slice (mo_args opts) @ slice (mo_env opts))"

lemma plain_delivered: "plain_text opts \<Longrightarrow> delivered opts = opts"
proof -
  assume ok: "plain_text opts"
  have "map_option (map arriving) v = v" if "list_all (\<lambda>s. valid_utf8 (bytes_of s)) (slice v)" for v
    using that by (cases v) (simp_all add: slice_def list_all_iff map_idI)
  with ok show ?thesis by (simp add: plain_text_def delivered_def)
qed

text \<open>
  C8: The options arrive. If sending reports no error, the whole document and the descriptor were written;
  and a receiver that reads this document in whatever pieces the stream delivers it, with one descriptor
  next to any of them, gets the options that were sent, with the descriptor it was given and with invalid
  bytes replaced in strings that are not UTF-8, so unchanged if there are none. No descriptor is closed.
\<close>

theorem options_arrive:
  assumes "Send dials dl dls write opts = (written, None)"
    and "list_all piece_ok ps" "Some (sent_message ps) = map_option fst written" "installed ps = [fd]"
    and "has_deadline \<longrightarrow> deadline_set"
  shows "written = Some (marshal_options opts, unix_rights [mo_fd opts]) \<and>
    RecvOnConn (connection ps True) has_deadline deadline_set = (Inr ((delivered opts)\<lparr>mo_fd := fd\<rparr>), []) \<and>
    (plain_text opts \<longrightarrow> delivered opts = opts)"
proof -
  have written: "written = Some (marshal_options opts, unix_rights [mo_fd opts])"
    using assms(1) by (auto simp: Send_def Let_def split: option.splits if_splits)
  then have "unmarshal_options (sent_message ps) = Some ((delivered opts)\<lparr>mo_fd := 0\<rparr>)"
    using assms(3) unmarshal_marshal by simp
  then have "RecvOnConn (connection ps True) has_deadline deadline_set = (Inr ((delivered opts)\<lparr>mo_fd := fd\<rparr>), [])"
    using assms(4,5) rights_parsed [OF assms(2)] by (auto simp: RecvOnConn_def read_connection)
  with written plain_delivered show ?thesis by blast
qed

definition example_options :: mount_opts where
  "example_options = \<lparr>mo_fd = 5, mo_bucket = ''bucket'', mo_args = Some [''--read-only'', ''--uid=\"7\"''],
     mo_env = None, mo_volume_id = []\<rparr>"

definition example_pieces :: "piece list" where
  "example_pieces = [(take 7 (marshal_options example_options), []),
     (drop 7 (marshal_options example_options), [9])]"

theorem options_arrive_witness:
  "RecvOnConn (connection example_pieces True) True True = (Inr (example_options\<lparr>mo_fd := 9\<rparr>), [])"
proof -
  let ?sent = "Some (marshal_options example_options, unix_rights [5])"
  have sent: "Send [NoEntry, Refused, Dialled] True True (\<lambda>m r. Some (length m, length r)) example_options = (?sent, None)"
    by (simp add: Send_def Let_def example_options_def)
  have ok: "list_all piece_ok example_pieces"
    by (simp add: example_pieces_def example_options_def marshal_options_def option_members_def write_strings_def
        write_string_def escape_byte_def html_safe_def between_def piece_ok_def messageRecvSize_def
        unixRightsRecvSize_def length_unix_rights cmsg_align_def descriptor_def)
  have pieces: "Some (sent_message example_pieces) = map_option fst ?sent" "installed example_pieces = [9]"
    by (simp_all add: sent_message_def installed_def example_pieces_def)
  have "plain_text example_options"
    by (simp add: plain_text_def example_options_def slice_def decode_ascii)
  then show ?thesis using options_arrive [OF sent ok pieces, of True True] by simp
qed

text \<open>
  C9: A receiver leaks no descriptor. Whatever document arrives, in whatever pieces, with any number of
  descriptors next to them, and also if reading fails on the way: either the receiver returns options
  with the only descriptor that arrived and closes none, or it returns an error and closes every
  descriptor that arrived.
\<close>

theorem no_descriptor_leaks:
  assumes "list_all piece_ok ps" "has_deadline \<longrightarrow> deadline_set"
  shows "case RecvOnConn (connection ps ends) has_deadline deadline_set of
      (Inr opts, closed) \<Rightarrow> installed ps = [mo_fd opts] \<and> closed = [] \<and> ends
    | (Inl e, closed) \<Rightarrow> closed = installed ps"
proof -
  have "parseUnixRights (rights_buffer ps) = Some (installed ps)" by (rule rights_parsed [OF assms(1)])
  with assms(2) show ?thesis
    by (auto simp: RecvOnConn_def read_connection closeFds_def split: option.split list.split)
qed

theorem no_descriptor_leaks_witness:
  "snd (RecvOnConn (connection [(bytes_of ''{\"args\":7}'', [4, 9])] True) False False) = [4, 9]"
proof -
  have ok: "list_all piece_ok [(bytes_of ''{\"args\":7}'', [4, 9])]"
    by (simp add: piece_ok_def messageRecvSize_def unixRightsRecvSize_def length_unix_rights cmsg_align_def
        descriptor_def)
  have "unmarshal_options (bytes_of ''{\"args\":7}'') = None"
    by (simp add: unmarshal_options_def parse_json_def is_space_def punctuation_def start_token_def
        is_letter_def is_digit_def between_def in_number_def number_ok_def parse_step_def scalar_def
        max_depth_def ended_def prepend_def read_member_def is_field_def fold_name_def fold_rune_def decode_ascii read_slice_def)
  then have "isl (fst (RecvOnConn (connection [(bytes_of ''{\"args\":7}'', [4, 9])] True) False False))"
    by (simp add: RecvOnConn_def read_connection sent_message_def)
  then show ?thesis
    using no_descriptor_leaks [OF ok, of False False True]
    by (auto simp: installed_def isl_def split: prod.splits)
qed

end
