(* ===== verification/Csi_Mounter.thy ===== *)
theory Csi_Mounter
  imports Mount_Options Args
begin

text \<open>
  \<^verbatim>\<open>cmd/aws-s3-csi-mounter\<close> with \<^verbatim>\<open>pkg/mountpoint/runner\<close>: the entry point of a Mountpoint
  Pod receives the options, runs Mountpoint with them until it ends and turns what happened into the exit
  status of the container. The file system and the process are an argument.
\<close>

section \<open>Running Mountpoint\<close>

record run_command =
  rc_path :: string
  rc_args :: "string list"
  rc_extra_fd :: int              \<comment> \<open>becomes descriptor 3 of the child\<close>
  rc_env :: "string list"

text \<open>How a command ends: it cannot be started, or it exits with a code; and its standard error.\<close>

datatype cmd_outcome = NotStarted | ExitedWith int

datatype run_error =
    ErrMissingBinaryPath | ErrMissingBucketName | ErrBadDescriptor | ErrCacheNotMounted
  | ErrCommand cmd_outcome

record pod_world =
  dir_exists :: "string \<Rightarrow> bool"
  file_exists_after :: "string \<Rightarrow> bool"       \<comment> \<open>once Mountpoint has ended\<close>
  run_cmd :: "run_command \<Rightarrow> cmd_outcome \<times> string"
  can_write :: "string \<Rightarrow> bool"

datatype pod_event = PvRun run_command | PvCloseFd int | PvWrite string string bool

text \<open>\<^verbatim>\<open>Cmd.Run\<close> fails for any exit code but zero.\<close>

definition DefaultCmdRunner :: "cmd_outcome \<Rightarrow> int \<times> run_error option" where
  "DefaultCmdRunner outcome =
     (case outcome of
        ExitedWith code \<Rightarrow> if code = 0 then (code, None) else (0, Some (ErrCommand outcome))
      | NotStarted \<Rightarrow> (0, Some (ErrCommand outcome)))"

record foreground_options =
  fo_path :: string
  fo_bucket :: string
  fo_fd :: int
  fo_args :: args
  fo_env :: "string list"

definition foreground_command :: "walk \<Rightarrow> foreground_options \<Rightarrow> run_command" where
  "foreground_command walk opts =
     (let mountpointArgs = args_Set walk (fo_args opts) ArgForeground ArgNoValue
      in \<lparr>rc_path = fo_path opts, rc_args = [fo_bucket opts, ''/dev/fd/3''] @ args_SortedList walk mountpointArgs,
          rc_extra_fd = fo_fd opts, rc_env = fo_env opts\<rparr>)"

text \<open>The exit code, the standard error of a command that failed, the error, and what was done.\<close>

definition RunInForeground :: "walk \<Rightarrow> pod_world \<Rightarrow> foreground_options \<Rightarrow>
    (int \<times> string \<times> run_error option) \<times> pod_event list" where
  "RunInForeground walk w opts =
     (if fo_path opts = [] then ((0, [], Some ErrMissingBinaryPath), [])
      else if fo_bucket opts = [] then ((0, [], Some ErrMissingBucketName), [])
      else if fo_fd opts < 0 then ((0, [], Some ErrBadDescriptor), [])
      else let cmd = foreground_command walk opts;
               (outcome, stderr) = run_cmd w cmd;
               (exitCode, err) = DefaultCmdRunner outcome
           in ((exitCode, if err \<noteq> None then stderr else [], err), [PvRun cmd, PvCloseFd (fo_fd opts)]))"

section \<open>The mounter\<close>

definition SuccessExitCode :: int where "SuccessExitCode = 0"
definition restartExitCode :: int where "restartExitCode = 1"

definition checkIfFileExists :: "pod_world \<Rightarrow> string \<Rightarrow> bool" where
  "checkIfFileExists w path = file_exists_after w path"

definition checkIfDirExists :: "pod_world \<Rightarrow> string \<Rightarrow> bool" where
  "checkIfDirExists w path = dir_exists w path"

definition ShouldExitWithSuccessCode :: "pod_world \<Rightarrow> string \<Rightarrow> bool" where
  "ShouldExitWithSuccessCode w mountExitPath = checkIfFileExists w mountExitPath"

record mounter_options =
  mnt_path :: string
  mnt_exit_path :: string
  mnt_err_path :: string
  mnt_opts :: mount_opts

definition localCacheDir :: string where "localCacheDir = path_join [''/'', LocalCacheDirName]"

definition Run :: "walk \<Rightarrow> pod_world \<Rightarrow> mounter_options \<Rightarrow> (int \<times> run_error option) \<times> pod_event list" where
  "Run walk w options =
     (let mountOptions = mnt_opts options;
          mountpointArgs = ParseArgs (slice (mo_args mountOptions));
          (mountpointArgs, _, localCacheEnabledViaMountOptions) = args_Remove walk mountpointArgs ArgCache;
          localCacheMounted = checkIfDirExists w localCacheDir
      in if localCacheEnabledViaMountOptions \<and> \<not> localCacheMounted
         then ((0, Some ErrCacheNotMounted), [])
         else
           (let mountpointArgs = (if localCacheMounted then args_Set walk mountpointArgs ArgCache localCacheDir
                  else mountpointArgs);
                ((exitCode, stdErr, err), done) = RunInForeground walk w
                  \<lparr>fo_path = mnt_path options, fo_bucket = mo_bucket mountOptions, fo_fd = mo_fd mountOptions,
                   fo_args = mountpointArgs, fo_env = slice (mo_env mountOptions)\<rparr>
            in if err \<noteq> None then
                 ((exitCode, err), done @ [PvWrite (mnt_err_path options) stdErr (can_write w (mnt_err_path options))])
               else if ShouldExitWithSuccessCode w (mnt_exit_path options) then ((SuccessExitCode, None), done)
               else ((restartExitCode, None), done)))"

section \<open>The entry point\<close>

definition mountpointBin :: string where "mountpointBin = ''mount-s3''"

text \<open>
  The exit status of the container, from the outcome of receiving. \<^verbatim>\<open>klog.Fatalf\<close> exits with 255.
\<close>

definition fatal_status :: int where "fatal_status = 255"

definition mounter_main :: "walk \<Rightarrow> pod_world \<Rightarrow> string \<Rightarrow> recv_error + mount_opts \<Rightarrow> int \<times> pod_event list" where
  "mounter_main walk w mountpointBinDir received =
     (let mountpointBinFullPath = path_join [mountpointBinDir, mountpointBin];
          mountExitPath = PathInsideMountpointPod [KnownPathMountExit];
          mountErrorPath = PathInsideMountpointPod [KnownPathMountError]
      in case received of
           Inl e \<Rightarrow>
             (if ShouldExitWithSuccessCode w mountExitPath then SuccessExitCode else fatal_status, [])
         | Inr mountOptions \<Rightarrow>
             (case Run walk w \<lparr>mnt_path = mountpointBinFullPath, mnt_exit_path = mountExitPath,
                  mnt_err_path = mountErrorPath, mnt_opts = mountOptions\<rparr> of
                ((exitCode, err), done) \<Rightarrow> (if err \<noteq> None then fatal_status else exitCode, done)))"

section \<open>What it guarantees\<close>

lemma mounter_keys [simp]:
  "normalizeKey ArgForeground = ArgForeground" "normalizeKey ArgCache = ArgCache"
  "ArgForeground \<noteq> ArgCache" "ArgCache \<noteq> ArgForeground"
  by (simp_all add: normalizeKey_def has_prefix_def ArgForeground_def ArgCache_def)

text \<open>The value of an argument Mountpoint is run with, from the arguments that were sent.\<close>

definition pod_value :: "walk \<Rightarrow> pod_world \<Rightarrow> args \<Rightarrow> string \<Rightarrow> string option" where
  "pod_value walk w sent k =
     (if normalizeKey k = ArgForeground then Some []
      else if normalizeKey k = ArgCache then (if dir_exists w localCacheDir then Some localCacheDir else None)
      else args_look walk sent k)"

definition run_ok :: "walk \<Rightarrow> pod_world \<Rightarrow> mount_opts \<Rightarrow> run_command \<Rightarrow> bool" where
  "run_ok walk w opts cmd \<longleftrightarrow> rc_extra_fd cmd = mo_fd opts \<and> rc_env cmd = slice (mo_env opts) \<and>
     (\<exists>as. rc_args cmd = [mo_bucket opts, ''/dev/fd/3''] @ args_SortedList walk as \<and> unique_keys as \<and>
        (\<forall>k. args_look walk as k = pod_value walk w (ParseArgs (slice (mo_args opts))) k))"

text \<open>Everything the mounter did: it ran nothing, or one command after which it closed the descriptor.\<close>

definition pod_log_ok :: "walk \<Rightarrow> pod_world \<Rightarrow> mounter_options \<Rightarrow> run_error option \<Rightarrow> pod_event list \<Rightarrow> bool" where
  "pod_log_ok walk w options err log \<longleftrightarrow>
     (err = Some ErrCacheNotMounted \<and> log = []) \<or>
     (\<exists>ran. log = ran @ (if err = None then []
          else [PvWrite (mnt_err_path options)
            (case ran of [] \<Rightarrow> [] | PvRun cmd # _ \<Rightarrow> snd (run_cmd w cmd) | _ \<Rightarrow> []) (can_write w (mnt_err_path options))]) \<and>
        ((\<exists>cmd. ran = [PvRun cmd, PvCloseFd (mo_fd (mnt_opts options))] \<and> run_ok walk w (mnt_opts options) cmd \<and>
            (err = None \<longleftrightarrow> fst (run_cmd w cmd) = ExitedWith 0)) \<or>
         ran = [] \<and> err \<noteq> None))"

lemma RunInForeground_cases:
  assumes "RunInForeground walk w fo = ((code, stderr, err), done)"
  defines "cmd \<equiv> foreground_command walk fo"
  shows "err \<noteq> Some ErrCacheNotMounted"
    and "done = [] \<and> err \<noteq> None \<and> stderr = [] \<or>
      done = [PvRun cmd, PvCloseFd (fo_fd fo)] \<and> (err = None \<longleftrightarrow> fst (run_cmd w cmd) = ExitedWith 0) \<and>
      (err \<noteq> None \<longrightarrow> stderr = snd (run_cmd w cmd))"
proof -
  obtain outcome e where r: "run_cmd w cmd = (outcome, e)" by force
  show "err \<noteq> Some ErrCacheNotMounted"
    using assms(1) r by (auto simp: RunInForeground_def DefaultCmdRunner_def Let_def cmd_def
        split: if_splits cmd_outcome.splits)
  show "done = [] \<and> err \<noteq> None \<and> stderr = [] \<or>
      done = [PvRun cmd, PvCloseFd (fo_fd fo)] \<and> (err = None \<longleftrightarrow> fst (run_cmd w cmd) = ExitedWith 0) \<and>
      (err \<noteq> None \<longrightarrow> stderr = snd (run_cmd w cmd))"
    using assms(1) r by (auto simp: RunInForeground_def DefaultCmdRunner_def Let_def cmd_def
        split: if_splits cmd_outcome.splits)
qed

lemma Run_log:
  assumes "unique_keys (ParseArgs (slice (mo_args (mnt_opts options))))"
    and "Run walk w options = ((code, err), log)"
  shows "pod_log_ok walk w options err log \<and>
    (err = None \<longrightarrow> code = (if file_exists_after w (mnt_exit_path options) then 0 else 1)) \<and>
    (err = Some ErrCacheNotMounted \<longleftrightarrow>
       args_Has walk (ParseArgs (slice (mo_args (mnt_opts options)))) ArgCache \<and> \<not> dir_exists w localCacheDir)"
proof -
  let ?opts = "mnt_opts options"
  let ?user = "ParseArgs (slice (mo_args ?opts))"
  obtain as v has where r: "args_Remove walk ?user ArgCache = (as, v, has)" by (cases "args_Remove walk ?user ArgCache")
  have as: "unique_keys as" "\<And>k. args_look walk as k = (if normalizeKey k = ArgCache then None else args_look walk ?user k)"
    using unique_keys_Remove [OF assms(1), of walk ArgCache] args_look_Remove [OF assms(1), of walk ArgCache] r by simp_all
  have has: "has = args_Has walk ?user ArgCache"
    using args_Remove_result [of walk ?user ArgCache] r args_look_None [of walk ?user ArgCache]
    by (auto split: option.splits)
  let ?as = "if dir_exists w localCacheDir then args_Set walk as ArgCache localCacheDir else as"
  let ?final = "args_Set walk ?as ArgForeground ArgNoValue"
  have keys: "unique_keys ?as" using as(1) unique_keys_Set by simp
  have final: "unique_keys ?final" "\<And>k. args_look walk ?final k = pod_value walk w ?user k"
    using unique_keys_Set [OF keys] args_look_Set [OF keys] args_look_Set [OF as(1)] as(2)
    by (auto simp: pod_value_def ArgNoValue_def)
  obtain fo where fo: "fo = \<lparr>fo_path = mnt_path options, fo_bucket = mo_bucket ?opts, fo_fd = mo_fd ?opts, fo_args = ?as,
    fo_env = slice (mo_env ?opts)\<rparr>" by simp
  let ?cmd = "foreground_command walk fo"
  have cmd: "run_ok walk w ?opts ?cmd" "fo_fd fo = mo_fd ?opts"
    unfolding run_ok_def foreground_command_def Let_def using final by (auto simp: fo)
  show ?thesis
  proof (cases "has \<and> \<not> dir_exists w localCacheDir")
    case True
    then have "Run walk w options = ((0, Some ErrCacheNotMounted), [])"
      by (simp add: Run_def r Let_def checkIfDirExists_def)
    with assms(2) True has show ?thesis by (auto simp: pod_log_ok_def)
  next
    case False
    obtain c stderr e d where f: "RunInForeground walk w fo = ((c, stderr, e), d)" by (metis prod.exhaust)
    note ran = RunInForeground_cases [OF f]
    have "Run walk w options =
        (if e \<noteq> None then ((c, e), d @ [PvWrite (mnt_err_path options) stderr (can_write w (mnt_err_path options))])
         else if file_exists_after w (mnt_exit_path options) then ((0, None), d) else ((1, None), d))"
      using False f
      by (auto simp: fo Run_def r Let_def checkIfDirExists_def ShouldExitWithSuccessCode_def checkIfFileExists_def
          SuccessExitCode_def restartExitCode_def)
    then have run: "err = e" "log = d @ (if e = None then [] else
          [PvWrite (mnt_err_path options) stderr (can_write w (mnt_err_path options))])"
        "e = None \<Longrightarrow> code = (if file_exists_after w (mnt_exit_path options) then 0 else 1)"
      using assms(2) by (auto split: if_splits)
    have "pod_log_ok walk w options e log"
      using ran(2)
    proof
      assume "d = [] \<and> e \<noteq> None \<and> stderr = []"
      then show ?thesis unfolding pod_log_ok_def run(2) by (intro disjI2 exI [of _ "[]"]) simp
    next
      assume d: "d = [PvRun ?cmd, PvCloseFd (fo_fd fo)] \<and> (e = None \<longleftrightarrow> fst (run_cmd w ?cmd) = ExitedWith 0) \<and>
        (e \<noteq> None \<longrightarrow> stderr = snd (run_cmd w ?cmd))"
      then show ?thesis unfolding pod_log_ok_def run(2)
        by (intro disjI2 exI [of _ d]) (use cmd in \<open>auto\<close>)
    qed
    with run False has ran(1) show ?thesis by auto
  qed
qed


definition example_pod :: pod_world where
  "example_pod = \<lparr>dir_exists = (\<lambda>d. True), file_exists_after = (\<lambda>f. True), run_cmd = (\<lambda>c. (ExitedWith 0, [])),
     can_write = (\<lambda>f. True)\<rparr>"

definition pod_example_options :: mount_opts where
  "pod_example_options = \<lparr>mo_fd = 4, mo_bucket = ''bucket'', mo_args = Some [''--read-only'', ''--uid=7''],
     mo_env = Some [''A=b''], mo_volume_id = []\<rparr>"


text \<open>
  A failure of Mountpoint is not turned into success, also if the exit file is there: the comment of
  \<^verbatim>\<open>ShouldExitWithSuccessCode\<close> says that the exit code of Mountpoint does not matter then.
\<close>

lemma exit_file_ignored_on_failure:
  "fst (mounter_main id (example_pod\<lparr>run_cmd := \<lambda>c. (ExitedWith 1, ''error'')\<rparr>) ''/bin'' (Inr pod_example_options)) = 255"
  by code_simp

end
