(* ===== verification/Mountpoint_Start.thy ===== *)
theory Mountpoint_Start
  imports Node_Server_Safety Options_Delivery Csi_Mounter
begin

text \<open>
  The components together: from the arguments of a volume in the node service, through the socket, to the
  command line of the Mountpoint process in the Mountpoint Pod.
\<close>

section \<open>Arguments that can be rendered and parsed again\<close>

definition clean_args :: "args \<Rightarrow> bool" where
  "clean_args as \<longleftrightarrow> list_all (\<lambda>x. arg_ok x \<and> arg_key x \<notin> set disallowed_keys) as"

lemma clean_ParseArgs: "clean_args (ParseArgs as)"
  by (simp add: clean_args_def list_all_iff ParseArgs_ok)

lemma clean_Remove: "clean_args as \<Longrightarrow> clean_args (fst (args_Remove walk as k))"
  by (auto simp: clean_args_def list_all_iff args_Remove_def split: prod.splits)

lemma clean_Set:
  assumes "clean_args as" "arg_ok \<lparr>arg_key = normalizeKey k, arg_value = v\<rparr>" "normalizeKey k \<notin> set disallowed_keys"
  shows "clean_args (args_Set walk as k v)"
proof -
  obtain a' w b where r: "args_Remove walk as (normalizeKey k) = (a', w, b)"
    by (cases "args_Remove walk as (normalizeKey k)")
  have "clean_args a'" using clean_Remove [OF assms(1), of walk "normalizeKey k"] r by simp
  with assms(2,3) show ?thesis by (auto simp: args_Set_def r clean_args_def list_all_iff)
qed

text \<open>Lookups only depend on the set of arguments.\<close>

lemma args_look_iff:
  assumes "unique_keys as"
  shows "args_look walk as k = Some v \<longleftrightarrow> \<lparr>arg_key = normalizeKey k, arg_value = v\<rparr> \<in> set as"
proof -
  have "distinct (map fst (map (\<lambda>x. (arg_key x, arg_value x)) as))"
    using assms by (simp add: unique_keys_def comp_def)
  then have "args_look walk as k = Some v \<longleftrightarrow> (normalizeKey k, v) \<in> (\<lambda>x. (arg_key x, arg_value x)) ` set as"
    by (simp add: args_look_unique [OF assms])
  also have "\<dots> \<longleftrightarrow> \<lparr>arg_key = normalizeKey k, arg_value = v\<rparr> \<in> set as"
  proof
    assume "\<lparr>arg_key = normalizeKey k, arg_value = v\<rparr> \<in> set as"
    then show "(normalizeKey k, v) \<in> (\<lambda>x. (arg_key x, arg_value x)) ` set as" by (rule rev_image_eqI) simp
  next
    assume "(normalizeKey k, v) \<in> (\<lambda>x. (arg_key x, arg_value x)) ` set as"
    then obtain x where "x \<in> set as" "normalizeKey k = arg_key x" "v = arg_value x" by auto
    moreover have "x = \<lparr>arg_key = arg_key x, arg_value = arg_value x\<rparr>" by simp
    ultimately show "\<lparr>arg_key = normalizeKey k, arg_value = v\<rparr> \<in> set as" by metis
  qed
  finally show ?thesis .
qed

lemma same_set_look:
  assumes "unique_keys as" "unique_keys bs" "set as = set bs"
  shows "args_look walk as k = args_look walk' bs k"
  using args_look_iff [OF assms(1)] args_look_iff [OF assms(2)] assms(3) by (metis option.exhaust)

lemma same_set_unique: "unique_keys as \<Longrightarrow> distinct bs \<Longrightarrow> set bs = set as \<Longrightarrow> unique_keys bs"
  by (simp add: unique_keys_def distinct_map)

lemma parsed_again:
  assumes "unique_keys as" "clean_args as"
  shows "unique_keys (ParseArgs (args_SortedList walk as))"
    "args_look walk' (ParseArgs (args_SortedList walk as)) k = args_look walk as k"
proof -
  have set: "set (ParseArgs (args_SortedList walk as)) = set as"
    using assms(2) by (intro set_ParseArgs_SortedList) (simp add: clean_args_def list_all_iff)
  show u: "unique_keys (ParseArgs (args_SortedList walk as))"
    by (rule same_set_unique [OF assms(1) distinct_ParseArgs set])
  show "args_look walk' (ParseArgs (args_SortedList walk as)) k = args_look walk as k"
    by (rule same_set_look [OF u assms(1) set])
qed

section \<open>The user agent\<close>

lemma agent_ok: "arg_ok \<lparr>arg_key = ArgUserAgentPrefix, arg_value = UserAgent getenv v a k var\<rparr>"
proof -
  let ?agent = "UserAgent getenv v a k var"
  have "last ?agent \<noteq> CHR '' '' \<and> InstallationMethod getenv \<noteq> []"
    using InstallationMethod_known [of getenv] by (auto simp: UserAgent_def)
  moreover have "hd ?agent = CHR ''s'' \<and> ?agent \<noteq> []" by (simp add: UserAgent_def userAgentCsiDriverPrefix_def)
  ultimately show ?thesis
    by (simp add: arg_ok_def trimmed_of_def ArgUserAgentPrefix_def has_prefix_def)
qed

lemma sent_clean:
  assumes "unique_keys as" "clean_args as"
  obtains sent where
    "opt_args (sent_options w pm b ce ue au as fd) = args_SortedList (pm_arg_walk pm) sent" "clean_args sent"
    "sent_args_ok (pm_arg_walk pm)
       (UserAgent (node_env w) (pm_driver_version pm) au (pm_kubernetes_version pm) (pm_variant pm)) as sent"
proof -
  let ?ord = "pm_arg_walk pm"
  let ?agent = "UserAgent (node_env w) (pm_driver_version pm) au (pm_kubernetes_version pm) (pm_variant pm)"
  let ?own = "args_Set ?ord (fst (args_Remove ?ord as ArgAWSMaxAttempts)) ArgUserAgentPrefix ?agent"
  have "opt_args (sent_options w pm b ce ue au as fd) =
      args_SortedList ?ord (fst (args_Remove ?ord ?own ArgReadOnly))"
    using remove_if_present [of ?own ?ord ArgReadOnly] assms(1)
    by (simp add: sent_options_def Let_def unique_keys_Set unique_keys_Remove)
  moreover have "ArgUserAgentPrefix \<notin> set disallowed_keys" by code_simp
  then have "clean_args (fst (args_Remove ?ord ?own ArgReadOnly))"
    using agent_ok by (intro clean_Remove clean_Set assms(2)) simp_all
  ultimately show thesis using that sent_args [OF assms(1)] by blast
qed

section \<open>From the node to Mountpoint\<close>

text \<open>The options as the mounter hands them to \<^verbatim>\<open>mountoptions.Send\<close>.\<close>

definition options_of :: "send_options \<Rightarrow> mount_opts" where
  "options_of opts = \<lparr>mo_fd = opt_fd opts, mo_bucket = opt_bucket opts, mo_args = Some (opt_args opts),
     mo_env = Some (opt_env opts), mo_volume_id = []\<rparr>"

text \<open>The value of an argument Mountpoint is run with, from the arguments of the volume.\<close>

definition final_value :: "walk \<Rightarrow> pod_world \<Rightarrow> string \<Rightarrow> args \<Rightarrow> string \<Rightarrow> string option" where
  "final_value walk pw agent as k =
     (let n = normalizeKey k
      in if n = ArgForeground then Some []
         else if n = ArgCache then (if dir_exists pw localCacheDir then Some localCacheDir else None)
         else if n = ArgUserAgentPrefix then Some agent
         else if n \<in> {ArgAWSMaxAttempts, ArgReadOnly} then None
         else args_look walk as k)"

text \<open>
  Whatever Mountpoint Pod receives the options, as text in any pieces with one descriptor: each command it
  runs has this descriptor, the bucket, the environment and these values.
\<close>

definition starts_configured :: "walk \<Rightarrow> string \<Rightarrow> string \<Rightarrow> args \<Rightarrow> send_options \<Rightarrow> bool" where
  "starts_configured walk bucket agent as opts \<longleftrightarrow>
     (\<forall>walk' pw dir ps fd cmd.
        plain_text (options_of opts) \<and> list_all piece_ok ps \<and>
        sent_message ps = marshal_options (options_of opts) \<and> installed ps = [fd] \<and>
        PvRun cmd \<in> set (snd (mounter_main walk' pw dir (fst (RecvOnConn (connection ps True) False False)))) \<longrightarrow>
        rc_extra_fd cmd = fd \<and> rc_env cmd = opt_env opts \<and>
        (\<exists>run. rc_args cmd = [bucket, ''/dev/fd/3''] @ args_SortedList walk' run \<and> unique_keys run \<and>
           (\<forall>k. args_look walk' run k = final_value walk pw agent as k)))"

lemma received:
  assumes "plain_text opts" "list_all piece_ok ps" "sent_message ps = marshal_options opts" "installed ps = [fd]"
  shows "fst (RecvOnConn (connection ps True) False False) = Inr (opts\<lparr>mo_fd := fd\<rparr>)"
  using assms rights_parsed [OF assms(2)] unmarshal_marshal [of opts] plain_delivered [OF assms(1)]
  by (simp add: RecvOnConn_def read_connection)

lemma main_runs:
  assumes "unique_keys (ParseArgs (slice (mo_args opts)))"
    and "PvRun cmd \<in> set (snd (mounter_main walk w dir (Inr opts)))"
  shows "run_ok walk w opts cmd"
proof -
  let ?options = "\<lparr>mnt_path = path_join [dir, mountpointBin],
        mnt_exit_path = PathInsideMountpointPod [KnownPathMountExit],
        mnt_err_path = PathInsideMountpointPod [KnownPathMountError], mnt_opts = opts\<rparr>"
  obtain code err log where run: "Run walk w ?options = ((code, err), log)" by (metis prod.exhaust)
  have "PvRun cmd \<in> set log"
    using assms(2) by (simp add: mounter_main_def Let_def run)
  moreover have "pod_log_ok walk w ?options err log" using Run_log [OF _ run] assms(1) by simp
  ultimately show ?thesis unfolding pod_log_ok_def by (auto split: if_splits)
qed

lemma forwarded_keys [simp]:
  "ArgForeground \<noteq> ArgUserAgentPrefix" "ArgForeground \<noteq> ArgAWSMaxAttempts" "ArgForeground \<noteq> ArgReadOnly"
  "ArgCache \<noteq> ArgUserAgentPrefix" "ArgCache \<noteq> ArgAWSMaxAttempts" "ArgCache \<noteq> ArgReadOnly"
  by code_simp+

lemma sent_starts:
  assumes "opt_args opts = args_SortedList walk sent" "clean_args sent" "sent_args_ok walk agent as sent"
  shows "starts_configured walk (opt_bucket opts) agent as opts"
  unfolding starts_configured_def
proof (intro allI impI, elim conjE)
  fix walk' pw dir ps fd cmd
  assume arrives: "plain_text (options_of opts)" "list_all piece_ok ps"
    "sent_message ps = marshal_options (options_of opts)" "installed ps = [fd]"
    and cmd: "PvRun cmd \<in> set (snd (mounter_main walk' pw dir (fst (RecvOnConn (connection ps True) False False))))"
  have unique: "unique_keys sent" using assms(3) by (simp add: sent_args_ok_def)
  have "slice (mo_args ((options_of opts)\<lparr>mo_fd := fd\<rparr>)) = args_SortedList walk sent"
    by (simp add: options_of_def slice_def assms(1))
  then have "run_ok walk' pw ((options_of opts)\<lparr>mo_fd := fd\<rparr>) cmd"
    using cmd parsed_again(1) [OF unique assms(2)] by (intro main_runs) (simp_all add: received [OF arrives])
  then obtain run where run: "rc_args cmd = [opt_bucket opts, ''/dev/fd/3''] @ args_SortedList walk' run"
      "unique_keys run" "rc_extra_fd cmd = fd" "rc_env cmd = opt_env opts"
      "\<And>k. args_look walk' run k = pod_value walk' pw (ParseArgs (args_SortedList walk sent)) k"
    by (auto simp: run_ok_def options_of_def slice_def assms(1))
  have "args_look walk' run k = final_value walk pw agent as k" for k
    using run(5) parsed_again(2) [OF unique assms(2)] assms(3)
    by (auto simp: pod_value_def final_value_def sent_args_ok_def Let_def)
  with run show "rc_extra_fd cmd = fd \<and> rc_env cmd = opt_env opts \<and>
      (\<exists>run. rc_args cmd = [opt_bucket opts, ''/dev/fd/3''] @ args_SortedList walk' run \<and> unique_keys run \<and>
         (\<forall>k. args_look walk' run k = final_value walk pw agent as k))"
    by blast
qed

definition all_start_configured :: "world \<Rightarrow> pod_mounter \<Rightarrow> string \<Rightarrow> string \<Rightarrow> args \<Rightarrow> nhistory \<Rightarrow> bool" where
  "all_start_configured w pm bucket authSource as new \<longleftrightarrow>
     (\<forall>sock opts r. NvSend sock opts r \<in> set new \<longrightarrow>
        starts_configured (pm_arg_walk pm) bucket
          (UserAgent (node_env w) (pm_driver_version pm) authSource (pm_kubernetes_version pm) (pm_variant pm)) as opts)"

text \<open>
  C5: Mountpoint is started as the volume is configured. For arguments as the node service parses them,
  every set of options a mount hands over is such that any Mountpoint Pod that receives it as text runs
  Mountpoint with the bucket, the environment that was sent, the descriptor it was given and exactly these
  arguments: those of the volume, with the driver's user agent, without the read-only flag and the number
  of attempts, in the foreground, and with the cache of the Pod if it has one. Rendering, the JSON
  document, the control message, reading and parsing lose and change nothing on the way.
\<close>

theorem mountpoint_starts_as_configured:
  assumes "unique_keys as" "clean_args as"
  shows "runs (mountS3AtSource w pm source mpPod podPath bucketName credEnv userEnv authSource as)
    (\<lambda>res new. all_start_configured w pm bucketName authSource as new)"
proof (rule runs_mono [OF runs_mountS3_options], unfold all_start_configured_def, intro allI impI)
  fix res new sock opts r
  assume "\<exists>fd. \<forall>e \<in> set new. mount_step source e \<or> (\<exists>p r. e = NvUnmount p r) \<or>
      hand_over (PathOnHost podPath [KnownPathMountSock]) (PathOnHost podPath [KnownPathMountError])
        (sent_options w pm bucketName credEnv userEnv authSource as fd) e"
    and "NvSend sock opts r \<in> set new"
  then obtain fd where opts: "opts = sent_options w pm bucketName credEnv userEnv authSource as fd"
    by (force simp: hand_over_def)
  have bucket: "opt_bucket opts = bucketName" by (simp add: opts sent_options_def Let_def)
  show "starts_configured (pm_arg_walk pm) bucketName
      (UserAgent (node_env w) (pm_driver_version pm) authSource (pm_kubernetes_version pm) (pm_variant pm)) as opts"
    using sent_clean [OF assms, of w pm bucketName credEnv userEnv authSource fd] sent_starts bucket opts
    by metis
qed

theorem mountpoint_starts_as_configured_witness:
  "list_ex (\<lambda>e. case e of NvSend sock opts r \<Rightarrow> True | _ \<Rightarrow> False) (ncalls (snd (run_state example_mount start_state))) \<and>
   all_start_configured (example_world (\<lambda>k. [])) example_mounter ''bucket'' ''driver''
     (ParseArgs [''--read-only'', ''--aws-max-attempts 5'']) (ncalls (snd (run_state example_mount start_state)))"
proof
  have args: "unique_keys (ParseArgs [''--read-only'', ''--aws-max-attempts 5''])" by code_simp
  obtain r s' where run: "run_state example_mount start_state = (r, s')" by force
  have "all_start_configured (example_world (\<lambda>k. [])) example_mounter ''bucket'' ''driver''
     (ParseArgs [''--read-only'', ''--aws-max-attempts 5'']) (since (ncalls start_state) (ncalls s'))"
    using runs_run [OF mountpoint_starts_as_configured [OF args clean_ParseArgs] run [unfolded example_mount_def]]
    by blast
  then show "all_start_configured (example_world (\<lambda>k. [])) example_mounter ''bucket'' ''driver''
     (ParseArgs [''--read-only'', ''--aws-max-attempts 5'']) (ncalls (snd (run_state example_mount start_state)))"
    unfolding run snd_conv by (simp add: start_state_def since_def)
qed code_simp

end
