(* ===== verification/Process_Manager.thy ===== *)
theory Process_Manager
  imports Mount_Options Args
begin

text \<open>
  \<^verbatim>\<open>cmd/aws-s3-csi-daemonset-mounter\<close>: one process accepts connections in turn, starts a Mountpoint
  process for each and waits for it in a goroutine. The goroutines interleave with each other, with the
  accept loop and with the processes, so they are a step relation. What runs while \<^verbatim>\<open>pm.mu\<close> is
  held is one step, since the mutex is held for nothing else.
\<close>

section \<open>The command of a Mountpoint process\<close>

record command =
  cmd_path :: string
  cmd_args :: "string list"
  cmd_extra_fd :: int             \<comment> \<open>becomes descriptor 3 of the child\<close>
  cmd_env :: "string list"
  cmd_prefix :: string            \<comment> \<open>of the lines of its standard output and error\<close>

definition errorFileExt :: string where "errorFileExt = ''.error''"

definition newPrefixWriter :: "string \<Rightarrow> string" where
  "newPrefixWriter mountId = ''['' @ mountId @ ''] ''"

definition launch_command :: "walk \<Rightarrow> string \<Rightarrow> string \<Rightarrow> mount_opts \<Rightarrow> command" where
  "launch_command walk mountId mountpointPath options =
     (let as = args_Set walk (ParseArgs (slice (mo_args options))) ArgForeground ArgNoValue
      in \<lparr>cmd_path = mountpointPath,
          cmd_args = [mo_bucket options, ''/dev/fd/3''] @ args_SortedList walk as,
          cmd_extra_fd = mo_fd options, cmd_env = slice (mo_env options),
          cmd_prefix = newPrefixWriter mountId\<rparr>)"

text \<open>
  \<^verbatim>\<open>prefixWriter.Write\<close>: the writes it makes to the underlying writer, each of which may fail,
  and its result, the number of bytes or an error.
\<close>

fun write_each :: "(string \<Rightarrow> 's \<Rightarrow> bool \<times> 's) \<Rightarrow> string list \<Rightarrow> 's \<Rightarrow> bool \<times> 's" where
  "write_each w [] s = (True, s)"
| "write_each w (p # ps) s = (case w p s of (ok, s) \<Rightarrow> if ok then write_each w ps s else (False, s))"

fun prefix_lines :: "(string \<Rightarrow> 's \<Rightarrow> bool \<times> 's) \<Rightarrow> string \<Rightarrow> string list \<Rightarrow> 's \<Rightarrow> bool \<times> 's" where
  "prefix_lines w pre [] s = (True, s)"
| "prefix_lines w pre (line # lines) s =
     (if line = [] \<and> lines = [] then (True, s)
      else case write_each w [pre, line, [CHR 0x0A]] s of
          (ok, s) \<Rightarrow> if ok then prefix_lines w pre lines s else (False, s))"

definition prefixWriter_Write :: "(string \<Rightarrow> 's \<Rightarrow> bool \<times> 's) \<Rightarrow> string \<Rightarrow> string \<Rightarrow> 's \<Rightarrow> nat option \<times> 's" where
  "prefixWriter_Write w pre p s =
     (case prefix_lines w pre (split_all CHR 0x0A p) s of
        (ok, s) \<Rightarrow> (if ok then Some (length p) else None, s))"

section \<open>State\<close>

text \<open>
  Process handles are numbers. A process was started for a mount with a command; it runs until it exits
  with a code and its standard error. A goroutine that waits for it has a program counter. The
  descriptors are those of connections that this process has open.
\<close>

datatype proc_status = Running | Exited int string

record proc =
  proc_mount :: string
  proc_command :: command
  proc_status :: proc_status

datatype waiter = Waits string | Untracked string int string | Reported

datatype main_pc =
    Accepting
  | Spawning string nat    \<comment> \<open>in \<^verbatim>\<open>Launch\<close>, after the mutex was released\<close>
  | Closed                 \<comment> \<open>the listener is closed\<close>
  | Draining               \<comment> \<open>in \<^verbatim>\<open>pm.wg.Wait\<close>\<close>
  | Finished

record pm_state =
  processes :: "string \<rightharpoonup> nat"
  wait_group :: nat
  waiters :: "nat \<rightharpoonup> waiter"
  procs :: "nat \<rightharpoonup> proc"
  next_handle :: nat
  open_fds :: "int set"
  error_files :: "(string \<times> string) list"    \<comment> \<open>path and content of each write, latest first\<close>
  signalled :: "nat set"
  main_at :: main_pc

definition mounter_start :: pm_state where
  "mounter_start = \<lparr>processes = Map.empty, wait_group = 0, waiters = Map.empty, procs = Map.empty,
     next_handle = 0, open_fds = {}, error_files = [], signalled = {}, main_at = Accepting\<rparr>"

definition close_fd :: "int \<Rightarrow> pm_state \<Rightarrow> pm_state" where
  "close_fd fd s = s\<lparr>open_fds := open_fds s - {fd}\<rparr>"

section \<open>Launching\<close>

datatype launch_error = InvalidDescriptor | AlreadyRunning | StartFailed

text \<open>
  \<^verbatim>\<open>Launch\<close> up to the release of the mutex; \<open>starts\<close> says whether the command can be started.
  \<^verbatim>\<open>os.NewFile\<close> is nil only for a negative descriptor.
\<close>

definition Launch :: "walk \<Rightarrow> bool \<Rightarrow> string \<Rightarrow> string \<Rightarrow> mount_opts \<Rightarrow> pm_state \<Rightarrow> launch_error option \<times> pm_state" where
  "Launch walk starts mountId mountpointPath options s =
     (if mo_fd options < 0 then (Some InvalidDescriptor, s)
      else let cmd = launch_command walk mountId mountpointPath options; fd = mo_fd options
           in case processes s mountId of
                Some h \<Rightarrow> (Some AlreadyRunning, close_fd fd s)
              | None \<Rightarrow>
                  if \<not> starts then (Some StartFailed, close_fd fd s)
                  else let h = next_handle s;
                           s = s\<lparr>procs := (procs s)(h \<mapsto> \<lparr>proc_mount = mountId, proc_command = cmd,
                                   proc_status = Running\<rparr>), next_handle := Suc h\<rparr>;
                           s = close_fd fd s
                       in (None, s\<lparr>processes := (processes s)(mountId \<mapsto> h), main_at := Spawning mountId h\<rparr>))"

definition alphanumeric :: "char \<Rightarrow> bool" where
  "alphanumeric c \<longleftrightarrow> (let n = of_char c :: nat in 48 \<le> n \<and> n \<le> 57 \<or> 65 \<le> n \<and> n \<le> 90 \<or> 97 \<le> n \<and> n \<le> 122)"

text \<open>The regular expression \<^verbatim>\<open>^[a-zA-Z0-9][a-zA-Z0-9._-]*$\<close>.\<close>

definition validMountId :: "string \<Rightarrow> bool" where
  "validMountId s =
     (case s of [] \<Rightarrow> False | c # cs \<Rightarrow> alphanumeric c \<and> list_all (\<lambda>c. alphanumeric c \<or> c \<in> set ''._-'') cs)"

text \<open>The outcome of receiving is an argument; an error leaves no descriptor open.\<close>

definition handleConnection :: "walk \<Rightarrow> bool \<Rightarrow> string \<Rightarrow> recv_error + mount_opts \<Rightarrow> pm_state \<Rightarrow> pm_state" where
  "handleConnection walk starts mountpointPath received s =
     (case received of
        Inl e \<Rightarrow> s
      | Inr options \<Rightarrow>
          (let s = s\<lparr>open_fds := insert (mo_fd options) (open_fds s)\<rparr>; mountId = mo_volume_id options
           in if mountId = [] \<or> \<not> validMountId mountId then close_fd (mo_fd options) s
              else snd (Launch walk starts mountId mountpointPath options s)))"

section \<open>Steps\<close>

text \<open>A descriptor the kernel installed is not negative.\<close>

text \<open>The rest of \<^verbatim>\<open>Launch\<close>, and the goroutine it starts.\<close>

definition start_waiter :: "string \<Rightarrow> nat \<Rightarrow> pm_state \<Rightarrow> pm_state" where
  "start_waiter mountId h s =
     s\<lparr>wait_group := wait_group s + 1, waiters := (waiters s)(h \<mapsto> Waits mountId), main_at := Accepting\<rparr>"

definition forget :: "nat \<Rightarrow> string \<Rightarrow> int \<Rightarrow> string \<Rightarrow> pm_state \<Rightarrow> pm_state" where
  "forget h mountId exitCode stderr s =
     s\<lparr>processes := (processes s)(mountId := None),
       waiters := (waiters s)(h \<mapsto> Untracked mountId exitCode stderr)\<rparr>"

definition errorPath :: "string \<Rightarrow> string \<Rightarrow> string" where
  "errorPath commDir mountId = path_join [commDir, mountId @ errorFileExt]"

text \<open>The write of the error file may fail, which is only logged.\<close>

definition report :: "string \<Rightarrow> bool \<Rightarrow> nat \<Rightarrow> string \<Rightarrow> int \<Rightarrow> string \<Rightarrow> pm_state \<Rightarrow> pm_state" where
  "report commDir writes h mountId exitCode stderr s =
     s\<lparr>error_files := (if exitCode \<noteq> 0 \<and> writes
         then (errorPath commDir mountId, stderr) # error_files s else error_files s),
       waiters := (waiters s)(h \<mapsto> Reported)\<rparr>"

definition waiter_done :: "nat \<Rightarrow> pm_state \<Rightarrow> pm_state" where
  "waiter_done h s = s\<lparr>wait_group := wait_group s - 1, waiters := (waiters s)(h := None)\<rparr>"

definition exits :: "nat \<Rightarrow> proc \<Rightarrow> int \<Rightarrow> string \<Rightarrow> pm_state \<Rightarrow> pm_state" where
  "exits h p exitCode stderr s = s\<lparr>procs := (procs s)(h \<mapsto> p\<lparr>proc_status := Exited exitCode stderr\<rparr>)\<rparr>"

text \<open>\<^verbatim>\<open>Shutdown\<close> signals every process that is tracked.\<close>

definition Shutdown :: "pm_state \<Rightarrow> pm_state" where
  "Shutdown s = s\<lparr>signalled := signalled s \<union> ran (processes s), main_at := Draining\<rparr>"

inductive mounter_step :: "walk \<Rightarrow> string \<Rightarrow> string \<Rightarrow> pm_state \<Rightarrow> pm_state \<Rightarrow> bool"
  for walk commDir mountpointPath where
  accept: "main_at s = Accepting \<Longrightarrow> (\<And>opts. received = Inr opts \<Longrightarrow> 0 \<le> mo_fd opts) \<Longrightarrow>
    mounter_step walk commDir mountpointPath s (handleConnection walk starts mountpointPath received s)"
| spawn: "main_at s = Spawning m h \<Longrightarrow>
    mounter_step walk commDir mountpointPath s (start_waiter m h s)"
| exit: "procs s h = Some p \<Longrightarrow> proc_status p = Running \<Longrightarrow>
    mounter_step walk commDir mountpointPath s (exits h p code err s)"
| wait: "waiters s h = Some (Waits m) \<Longrightarrow> procs s h = Some p \<Longrightarrow> proc_status p = Exited code err \<Longrightarrow>
    mounter_step walk commDir mountpointPath s (forget h m code err s)"
| report: "waiters s h = Some (Untracked m code err) \<Longrightarrow>
    mounter_step walk commDir mountpointPath s (report commDir writes h m code err s)"
| wg_done: "waiters s h = Some Reported \<Longrightarrow>
    mounter_step walk commDir mountpointPath s (waiter_done h s)"
| close: "main_at s = Accepting \<Longrightarrow>
    mounter_step walk commDir mountpointPath s (s\<lparr>main_at := Closed\<rparr>)"
| shutdown: "main_at s = Closed \<Longrightarrow>
    mounter_step walk commDir mountpointPath s (Shutdown s)"
| drained: "main_at s = Draining \<Longrightarrow> wait_group s = 0 \<Longrightarrow>
    mounter_step walk commDir mountpointPath s (s\<lparr>main_at := Finished\<rparr>)"

inductive mounter_reachable :: "walk \<Rightarrow> string \<Rightarrow> string \<Rightarrow> pm_state \<Rightarrow> bool"
  for walk commDir mountpointPath where
  start: "mounter_reachable walk commDir mountpointPath mounter_start"
| step: "mounter_reachable walk commDir mountpointPath s \<Longrightarrow>
    mounter_step walk commDir mountpointPath s s' \<Longrightarrow> mounter_reachable walk commDir mountpointPath s'"

end
