(* ===== verification/Process_Manager_Safety.thy ===== *)
theory Process_Manager_Safety
  imports Process_Manager
begin

text \<open>
  What the DaemonSet mounter guarantees: one process per mount, no descriptor kept, error files only of
  processes that failed, and a shutdown that waits for everything it started.
\<close>

section \<open>The invariant\<close>

text \<open>A goroutine that waits agrees with the process it waits for.\<close>

definition waiter_ok :: "pm_state \<Rightarrow> nat \<Rightarrow> waiter \<Rightarrow> bool" where
  "waiter_ok s h w \<longleftrightarrow>
     (\<exists>p. procs s h = Some p \<and>
        (case w of
           Waits m \<Rightarrow> proc_mount p = m \<and> processes s m = Some h
         | Untracked m code err \<Rightarrow> proc_mount p = m \<and> proc_status p = Exited code err
         | Reported \<Rightarrow> proc_status p \<noteq> Running))"

definition tracked_ok :: "pm_state \<Rightarrow> bool" where
  "tracked_ok s \<longleftrightarrow>
     (\<forall>m h. processes s m = Some h \<longrightarrow> waiters s h = Some (Waits m) \<or> main_at s = Spawning m h) \<and>
     (\<forall>m h. main_at s = Spawning m h \<longrightarrow> processes s m = Some h \<and> waiters s h = None) \<and>
     (\<forall>h w. waiters s h = Some w \<longrightarrow> waiter_ok s h w)"

definition procs_ok :: "walk \<Rightarrow> string \<Rightarrow> pm_state \<Rightarrow> bool" where
  "procs_ok walk bin s \<longleftrightarrow>
     (\<forall>m h. processes s m = Some h \<longrightarrow> (\<exists>p. procs s h = Some p \<and> proc_mount p = m)) \<and>
     (\<forall>h p. procs s h = Some p \<longrightarrow> h < next_handle s \<and> validMountId (proc_mount p) \<and>
        (\<exists>options. mo_volume_id options = proc_mount p \<and>
           proc_command p = launch_command walk (proc_mount p) bin options) \<and>
        (proc_status p = Running \<longrightarrow> processes s (proc_mount p) = Some h))"

definition group_ok :: "pm_state \<Rightarrow> bool" where
  "group_ok s \<longleftrightarrow> finite (dom (waiters s)) \<and> wait_group s = card (dom (waiters s))"

definition files_ok :: "string \<Rightarrow> pm_state \<Rightarrow> bool" where
  "files_ok commDir s \<longleftrightarrow>
     (\<forall>path content. (path, content) \<in> set (error_files s) \<longrightarrow>
        (\<exists>h p code. procs s h = Some p \<and> proc_status p = Exited code content \<and> code \<noteq> 0 \<and>
           path = errorPath commDir (proc_mount p)))"

definition shutdown_ok :: "pm_state \<Rightarrow> bool" where
  "shutdown_ok s \<longleftrightarrow>
     (main_at s \<in> {Draining, Finished} \<longrightarrow>
        (\<forall>h p. procs s h = Some p \<and> proc_status p = Running \<longrightarrow> h \<in> signalled s)) \<and>
     (main_at s = Finished \<longrightarrow> wait_group s = 0)"

definition mounter_inv :: "walk \<Rightarrow> string \<Rightarrow> string \<Rightarrow> pm_state \<Rightarrow> bool" where
  "mounter_inv walk commDir bin s \<longleftrightarrow> tracked_ok s \<and> procs_ok walk bin s \<and> group_ok s \<and> open_fds s = {} \<and>
     files_ok commDir s \<and> shutdown_ok s"

lemma waiter_ok_simps [simp]:
  "waiter_ok s h (Waits m) \<longleftrightarrow> (\<exists>p. procs s h = Some p \<and> proc_mount p = m) \<and> processes s m = Some h"
  "waiter_ok s h (Untracked m code err) \<longleftrightarrow>
     (\<exists>p. procs s h = Some p \<and> proc_mount p = m \<and> proc_status p = Exited code err)"
  "waiter_ok s h Reported \<longleftrightarrow> (\<exists>p. procs s h = Some p \<and> proc_status p \<noteq> Running)"
  by (auto simp: waiter_ok_def)

lemma waiter_ok_same: "procs s' = procs s \<Longrightarrow> processes s' = processes s \<Longrightarrow> waiter_ok s' h w = waiter_ok s h w"
  by (cases w) simp_all

lemma tracked_okD:
  assumes "tracked_ok s"
  shows "processes s m = Some h \<Longrightarrow> waiters s h = Some (Waits m) \<or> main_at s = Spawning m h"
    and "main_at s = Spawning m h \<Longrightarrow> processes s m = Some h \<and> waiters s h = None"
    and "waiters s h = Some w \<Longrightarrow> waiter_ok s h w"
  using assms unfolding tracked_ok_def by blast+

lemma procs_okD:
  assumes "procs_ok walk bin s"
  shows "processes s m = Some h \<Longrightarrow> \<exists>p. procs s h = Some p \<and> proc_mount p = m"
    and "procs s h = Some p \<Longrightarrow> h < next_handle s"
    and "procs s h = Some p \<Longrightarrow> validMountId (proc_mount p)"
    and "procs s h = Some p \<Longrightarrow> \<exists>options. mo_volume_id options = proc_mount p \<and>
       proc_command p = launch_command walk (proc_mount p) bin options"
    and "procs s h = Some p \<Longrightarrow> proc_status p = Running \<Longrightarrow> processes s (proc_mount p) = Some h"
  using assms unfolding procs_ok_def by blast+

lemma one_mount_each:
  "procs_ok walk bin s \<Longrightarrow> processes s m = Some h \<Longrightarrow> processes s m' = Some h \<Longrightarrow> m = m'"
  using procs_okD(1) by (metis option.inject)

lemma tracked_okI:
  assumes "\<And>m h. processes s m = Some h \<Longrightarrow> waiters s h = Some (Waits m) \<or> main_at s = Spawning m h"
    "\<And>m h. main_at s = Spawning m h \<Longrightarrow> processes s m = Some h \<and> waiters s h = None"
    "\<And>h w. waiters s h = Some w \<Longrightarrow> waiter_ok s h w"
  shows "tracked_ok s"
  using assms unfolding tracked_ok_def by blast

lemma procs_okI:
  assumes "\<And>m h. processes s m = Some h \<Longrightarrow> \<exists>p. procs s h = Some p \<and> proc_mount p = m"
    "\<And>h p. procs s h = Some p \<Longrightarrow> h < next_handle s \<and> validMountId (proc_mount p)"
    "\<And>h p. procs s h = Some p \<Longrightarrow> \<exists>options. mo_volume_id options = proc_mount p \<and>
       proc_command p = launch_command walk (proc_mount p) bin options"
    "\<And>h p. procs s h = Some p \<Longrightarrow> proc_status p = Running \<Longrightarrow> processes s (proc_mount p) = Some h"
  shows "procs_ok walk bin s"
  using assms unfolding procs_ok_def by blast

lemma files_ok_kept:
  assumes "files_ok commDir s" "error_files s' = error_files s"
    "\<And>h p code err. procs s h = Some p \<Longrightarrow> proc_status p = Exited code err \<Longrightarrow> procs s' h = Some p"
  shows "files_ok commDir s'"
  using assms(1,3) unfolding files_ok_def assms(2) by meson

text \<open>Accepting a connection either changes nothing or starts one process.\<close>

definition started :: "walk \<Rightarrow> string \<Rightarrow> mount_opts \<Rightarrow> pm_state \<Rightarrow> pm_state" where
  "started walk bin options s =
     s\<lparr>procs := (procs s)(next_handle s \<mapsto> \<lparr>proc_mount = mo_volume_id options,
         proc_command = launch_command walk (mo_volume_id options) bin options, proc_status = Running\<rparr>),
       next_handle := Suc (next_handle s),
       processes := (processes s)(mo_volume_id options \<mapsto> next_handle s),
       main_at := Spawning (mo_volume_id options) (next_handle s)\<rparr>"

lemma handleConnection_cases:
  assumes "open_fds s = {}" "\<And>opts. received = Inr opts \<Longrightarrow> 0 \<le> mo_fd opts"
  obtains "handleConnection walk starts bin received s = s"
  | options where "handleConnection walk starts bin received s = started walk bin options s"
      "validMountId (mo_volume_id options)" "processes s (mo_volume_id options) = None"
proof (cases received)
  case (Inl e)
  then show thesis using that by (simp add: handleConnection_def)
next
  case (Inr options)
  have pos: "\<not> mo_fd options < 0" using assms(2) [OF Inr] by simp
  have same: "close_fd (mo_fd options) (s\<lparr>open_fds := insert (mo_fd options) (open_fds s)\<rparr>) = s"
    using assms(1) by (simp add: close_fd_def)
  show thesis
  proof (cases "mo_volume_id options = [] \<or> \<not> validMountId (mo_volume_id options)")
    case True
    with same that(1) show thesis by (auto simp: handleConnection_def Inr Let_def)
  next
    case valid: False
    show thesis
    proof (cases "processes s (mo_volume_id options) = None \<and> starts")
      case True
      have "handleConnection walk starts bin received s = started walk bin options s"
        using True valid pos assms(1)
        by (simp add: handleConnection_def Inr Launch_def Let_def close_fd_def started_def)
      with True valid that(2) show thesis by blast
    next
      case False
      have "handleConnection walk starts bin received s = s"
        using False valid pos same
        by (auto simp: handleConnection_def Inr Launch_def Let_def split: option.split)
      then show thesis by (rule that(1))
    qed
  qed
qed

lemma waiter_ok_grows:
  "waiter_ok s h w \<Longrightarrow> procs s (next_handle s) = None \<Longrightarrow> processes s (mo_volume_id options) = None \<Longrightarrow>
    waiter_ok (started walk bin options s) h w"
  by (auto simp: waiter_ok_def started_def split: waiter.splits)

lemma inv_started:
  assumes inv: "mounter_inv walk commDir bin s" and main: "main_at s = Accepting"
    and ok: "validMountId (mo_volume_id options)" "processes s (mo_volume_id options) = None"
  shows "mounter_inv walk commDir bin (started walk bin options s)" (is "mounter_inv _ _ _ ?s")
proof -
  have tracked: "tracked_ok s" and procs: "procs_ok walk bin s" and rest: "group_ok s" "open_fds s = {}"
      "files_ok commDir s" "shutdown_ok s" using inv by (simp_all add: mounter_inv_def)
  have fresh: "procs s (next_handle s) = None"
    using procs by (metis less_irrefl option.exhaust procs_ok_def)
  then have "waiters s (next_handle s) = None"
    using tracked by (metis option.distinct(1) option.exhaust tracked_ok_def waiter_ok_def)
  note new = this
  have "tracked_ok ?s"
  proof (rule tracked_okI)
    fix m h assume "processes ?s m = Some h"
    then show "waiters ?s h = Some (Waits m) \<or> main_at ?s = Spawning m h"
      using tracked_okD(1) [OF tracked, of m h] main by (auto simp: started_def split: if_splits)
  next
    fix m h assume "main_at ?s = Spawning m h"
    then show "processes ?s m = Some h \<and> waiters ?s h = None" using new by (auto simp: started_def)
  next
    fix h w assume "waiters ?s h = Some w"
    then show "waiter_ok ?s h w"
      using tracked_okD(3) [OF tracked, of h w] waiter_ok_grows [OF _ fresh ok(2)] by (simp add: started_def)
  qed
  moreover have "procs_ok walk bin ?s"
  proof (rule procs_okI)
    fix m h assume "processes ?s m = Some h"
    then show "\<exists>p. procs ?s h = Some p \<and> proc_mount p = m"
      using procs_okD(1) [OF procs, of m h] fresh by (auto simp: started_def split: if_splits)
  next
    fix h p assume p: "procs ?s h = Some p"
    show "h < next_handle ?s \<and> validMountId (proc_mount p)"
      using p procs_okD(2,3) [OF procs, of h p] ok by (auto simp: started_def split: if_splits)
    show "\<exists>options. mo_volume_id options = proc_mount p \<and> proc_command p = launch_command walk (proc_mount p) bin options"
      using p procs_okD(4) [OF procs, of h p] by (auto simp: started_def split: if_splits)
    show "processes ?s (proc_mount p) = Some h" if "proc_status p = Running"
      using p that procs_okD(5) [OF procs, of h p] ok by (auto simp: started_def split: if_splits)
  qed
  moreover have "files_ok commDir ?s"
    by (rule files_ok_kept [OF rest(3)]) (use fresh in \<open>auto simp: started_def\<close>)
  ultimately show ?thesis
    using rest main by (auto simp: mounter_inv_def group_ok_def shutdown_ok_def started_def)
qed

lemma inv_start: "mounter_inv walk commDir bin mounter_start"
  by (simp add: mounter_inv_def mounter_start_def tracked_ok_def procs_ok_def group_ok_def files_ok_def shutdown_ok_def)

lemma inv_spawn:
  assumes inv: "mounter_inv walk commDir bin s" and main: "main_at s = Spawning m h"
  shows "mounter_inv walk commDir bin (start_waiter m h s)"
proof -
  have p: "processes s m = Some h" "waiters s h = None" and tracked: "tracked_ok s" and procs: "procs_ok walk bin s"
      and group: "group_ok s"
    using inv main by (auto simp: mounter_inv_def tracked_ok_def)
  have "waiter_ok s h (Waits m)" using procs p(1) by (auto simp: waiter_ok_def procs_ok_def)
  moreover have same: "waiter_ok (start_waiter m h s) g w \<longleftrightarrow> waiter_ok s g w" for g w
    by (rule waiter_ok_same) (simp_all add: start_waiter_def)
  ultimately have new: "waiter_ok (start_waiter m h s) h (Waits m)" by (simp only: same)
  have "tracked_ok (start_waiter m h s)"
  proof (rule tracked_okI)
    fix m' g assume "processes (start_waiter m h s) m' = Some g"
    then show "waiters (start_waiter m h s) g = Some (Waits m') \<or> main_at (start_waiter m h s) = Spawning m' g"
      using tracked_okD(1) [OF tracked, of m' g] main one_mount_each [OF procs p(1), of m']
      by (auto simp: start_waiter_def)
  next
    fix g w assume "waiters (start_waiter m h s) g = Some w"
    then show "waiter_ok (start_waiter m h s) g w"
      using tracked_okD(3) [OF tracked, of g w] new same by (auto simp: start_waiter_def split: if_splits)
  qed (simp add: start_waiter_def)
  moreover have "group_ok (start_waiter m h s)"
    using group p(2) by (auto simp: group_ok_def start_waiter_def card_insert_if)
  ultimately show ?thesis
    using inv main
    by (auto simp: mounter_inv_def procs_ok_def files_ok_def shutdown_ok_def start_waiter_def)
qed

lemma inv_exit:
  assumes inv: "mounter_inv walk commDir bin s" and p: "procs s h = Some p" "proc_status p = Running"
  shows "mounter_inv walk commDir bin (exits h p code err s)" (is "mounter_inv _ _ _ ?s")
proof -
  have tracked: "tracked_ok s" and procs: "procs_ok walk bin s" and files: "files_ok commDir s"
    using inv by (simp_all add: mounter_inv_def)
  have "waiter_ok ?s g w" if "waiter_ok s g w" for g w
    using that p by (auto simp: waiter_ok_def exits_def split: waiter.splits)
  then have "tracked_ok ?s"
    using tracked_okD [OF tracked] by (intro tracked_okI) (auto simp: exits_def)
  moreover have "procs_ok walk bin ?s"
  proof (rule procs_okI)
    fix m g assume "processes ?s m = Some g"
    then show "\<exists>q. procs ?s g = Some q \<and> proc_mount q = m"
      using procs_okD(1) [OF procs, of m g] p by (auto simp: exits_def)
  next
    fix g q assume q: "procs ?s g = Some q"
    then obtain q' where q': "procs s g = Some q'" "proc_mount q = proc_mount q'"
        "proc_command q = proc_command q'" "proc_status q = Running \<Longrightarrow> proc_status q' = Running"
      using p by (auto simp: exits_def split: if_splits)
    show "g < next_handle ?s \<and> validMountId (proc_mount q)"
      using q'(2) procs_okD(2,3) [OF procs q'(1)] by (simp add: exits_def)
    show "\<exists>options. mo_volume_id options = proc_mount q \<and> proc_command q = launch_command walk (proc_mount q) bin options"
      using q'(2,3) procs_okD(4) [OF procs q'(1)] by simp
    show "processes ?s (proc_mount q) = Some g" if "proc_status q = Running"
      using q'(2,4) procs_okD(5) [OF procs q'(1)] that by (simp add: exits_def)
  qed
  moreover have "files_ok commDir ?s"
    by (rule files_ok_kept [OF files]) (use p in \<open>auto simp: exits_def\<close>)
  ultimately show ?thesis
    using inv by (auto simp: mounter_inv_def group_ok_def shutdown_ok_def exits_def)
qed

lemma inv_wait:
  assumes inv: "mounter_inv walk commDir bin s" and w: "waiters s h = Some (Waits m)"
    and p: "procs s h = Some p" "proc_status p = Exited code err"
  shows "mounter_inv walk commDir bin (forget h m code err s)" (is "mounter_inv _ _ _ ?s")
proof -
  have tracked: "tracked_ok s" and procs: "procs_ok walk bin s" and group: "group_ok s"
    using inv by (simp_all add: mounter_inv_def)
  have m: "proc_mount p = m" "processes s m = Some h"
    using tracked_okD(3) [OF tracked w] p(1) by auto
  have others: "waiter_ok ?s g v" if "waiter_ok s g v" "g \<noteq> h" for g v
    using that m by (auto simp: waiter_ok_def forget_def split: waiter.splits)
  have "waiter_ok ?s h (Untracked m code err)" using p m by (auto simp: waiter_ok_def forget_def)
  moreover have "tracked_ok ?s"
  proof (rule tracked_okI)
    fix m' g assume g: "processes ?s m' = Some g"
    then have "g \<noteq> h" using one_mount_each [OF procs m(2), of m'] by (auto simp: forget_def split: if_splits)
    then show "waiters ?s g = Some (Waits m') \<or> main_at ?s = Spawning m' g"
      using g tracked_okD(1) [OF tracked, of m' g] by (auto simp: forget_def split: if_splits)
  next
    fix m' g assume g: "main_at ?s = Spawning m' g"
    then have *: "processes s m' = Some g" "waiters s g = None"
      using tracked_okD(2) [OF tracked, of m' g] by (simp_all add: forget_def)
    then have "g \<noteq> h" "m' \<noteq> m" using w m by auto
    then show "processes ?s m' = Some g \<and> waiters ?s g = None" using * by (simp add: forget_def)
  next
    fix g v assume "waiters ?s g = Some v"
    then show "waiter_ok ?s g v"
      using tracked_okD(3) [OF tracked, of g v] others [of g v] calculation
      by (cases "g = h") (simp_all add: forget_def)
  qed
  moreover have "procs_ok walk bin ?s"
  proof (rule procs_okI)
    fix m' g assume "processes ?s m' = Some g"
    then show "\<exists>q. procs ?s g = Some q \<and> proc_mount q = m'"
      using procs_okD(1) [OF procs, of m' g] by (auto simp: forget_def split: if_splits)
  next
    fix g q assume q: "procs ?s g = Some q"
    then have q': "procs s g = Some q" by (simp add: forget_def)
    show "g < next_handle ?s \<and> validMountId (proc_mount q)"
      using procs_okD(2,3) [OF procs q'] by (simp add: forget_def)
    show "\<exists>options. mo_volume_id options = proc_mount q \<and> proc_command q = launch_command walk (proc_mount q) bin options"
      by (rule procs_okD(4) [OF procs q'])
    show "processes ?s (proc_mount q) = Some g" if "proc_status q = Running"
      using procs_okD(5) [OF procs q' that] that m p q' by (auto simp: forget_def)
  qed
  moreover have "group_ok ?s"
    using group w by (auto simp: group_ok_def forget_def insert_absorb domI)
  ultimately show ?thesis
    using inv by (auto simp: mounter_inv_def files_ok_def shutdown_ok_def forget_def)
qed

lemma inv_report:
  assumes inv: "mounter_inv walk commDir bin s" and w: "waiters s h = Some (Untracked m code err)"
  shows "mounter_inv walk commDir bin (report commDir writes h m code err s)" (is "mounter_inv _ _ _ ?s")
proof -
  have tracked: "tracked_ok s" and group: "group_ok s" and files: "files_ok commDir s"
    using inv by (simp_all add: mounter_inv_def)
  obtain p where p: "procs s h = Some p" "proc_mount p = m" "proc_status p = Exited code err"
    using tracked_okD(3) [OF tracked w] by auto
  have "waiter_ok ?s h Reported" using p by (simp add: waiter_ok_def report_def)
  moreover have "waiter_ok ?s g v" if "waiter_ok s g v" for g v
    using that by (simp add: report_def cong: waiter_ok_same)
  ultimately have "tracked_ok ?s"
    using tracked_okD [OF tracked] w
    by (intro tracked_okI) (fastforce simp: report_def split: if_splits)+
  moreover have "group_ok ?s"
    using group w by (auto simp: group_ok_def report_def insert_absorb domI)
  moreover have "files_ok commDir ?s"
    using files p unfolding files_ok_def by (auto simp: report_def)
  ultimately show ?thesis
    using inv by (auto simp: mounter_inv_def procs_ok_def shutdown_ok_def report_def)
qed

lemma inv_done:
  assumes inv: "mounter_inv walk commDir bin s" and w: "waiters s h = Some Reported"
  shows "mounter_inv walk commDir bin (waiter_done h s)" (is "mounter_inv _ _ _ ?s")
proof -
  have tracked: "tracked_ok s" and group: "group_ok s"
    using inv by (simp_all add: mounter_inv_def)
  have "waiter_ok ?s g v" if "waiter_ok s g v" for g v
    using that by (simp add: waiter_done_def cong: waiter_ok_same)
  then have "tracked_ok ?s"
    using tracked_okD [OF tracked] w
    by (intro tracked_okI) (fastforce simp: waiter_done_def split: if_splits)+
  moreover have "group_ok ?s"
    using group w by (auto simp: group_ok_def waiter_done_def domI)
  ultimately show ?thesis
    using inv by (auto simp: mounter_inv_def procs_ok_def files_ok_def shutdown_ok_def waiter_done_def)
qed

lemma inv_shutdown:
  assumes inv: "mounter_inv walk commDir bin s" and main: "main_at s = Closed"
  shows "mounter_inv walk commDir bin (Shutdown s)"
proof -
  have tracked: "tracked_ok s" and procs: "procs_ok walk bin s" using inv by (simp_all add: mounter_inv_def)
  have "tracked_ok (Shutdown s)"
    using tracked_okD(1,3) [OF tracked] main
    by (intro tracked_okI) (auto simp: Shutdown_def cong: waiter_ok_same)
  moreover have "shutdown_ok (Shutdown s)"
    using procs_okD(5) [OF procs] by (auto simp: shutdown_ok_def Shutdown_def ran_def)
  ultimately show ?thesis
    using inv by (auto simp: mounter_inv_def procs_ok_def group_ok_def files_ok_def Shutdown_def)
qed

lemma inv_main:
  assumes inv: "mounter_inv walk commDir bin s"
    and main: "main_at s = Accepting \<and> pc = Closed \<or> main_at s = Draining \<and> wait_group s = 0 \<and> pc = Finished"
  shows "mounter_inv walk commDir bin (s\<lparr>main_at := pc\<rparr>)"
proof -
  have tracked: "tracked_ok s" using inv by (simp add: mounter_inv_def)
  have "tracked_ok (s\<lparr>main_at := pc\<rparr>)"
    using tracked_okD(1,3) [OF tracked] main
    by (intro tracked_okI) (auto cong: waiter_ok_same)
  moreover have "shutdown_ok (s\<lparr>main_at := pc\<rparr>)"
    using inv main by (auto simp: mounter_inv_def shutdown_ok_def)
  ultimately show ?thesis
    using inv by (auto simp: mounter_inv_def procs_ok_def group_ok_def files_ok_def)
qed

lemma mounter_reachable_inv:
  "mounter_reachable walk commDir bin s \<Longrightarrow> mounter_inv walk commDir bin s"
proof (induction rule: mounter_reachable.induct)
  case (step s s')
  from step.hyps(2) step.IH show ?case
  proof cases
    case (accept received starts)
    have "open_fds s = {}" using step.IH by (simp add: mounter_inv_def)
    show ?thesis
    proof (rule handleConnection_cases [OF \<open>open_fds s = {}\<close>, of received walk starts bin])
      show "0 \<le> mo_fd opts" if "received = Inr opts" for opts using accept(3) that by simp
    qed (use accept(1,2) step.IH inv_started in auto)
  qed (auto intro: inv_spawn inv_exit inv_wait inv_report inv_done inv_shutdown inv_main)
qed (rule inv_start)

section \<open>What the mounter guarantees\<close>

text \<open>A run, given by the steps of its program counters; used for examples.\<close>

abbreviation example_launch :: "string \<Rightarrow> mount_opts" where
  "example_launch m \<equiv> \<lparr>mo_fd = 7, mo_bucket = ''bucket'', mo_args = Some [''--read-only''], mo_env = None,
     mo_volume_id = m\<rparr>"

definition one_running :: pm_state where
  "one_running = start_waiter ''m'' 0 (started id ''/bin/mount-s3'' (example_launch ''m'') mounter_start)"

lemma handle_started:
  assumes "open_fds s = {}" "validMountId (mo_volume_id options)" "processes s (mo_volume_id options) = None"
    "0 \<le> mo_fd options"
  shows "handleConnection walk True bin (Inr options) s = started walk bin options s"
  using assms by (auto simp: handleConnection_def Launch_def Let_def close_fd_def started_def validMountId_def)

lemma reach_started:
  assumes "mounter_reachable walk commDir bin s" "main_at s = Accepting" "validMountId (mo_volume_id options)"
    "processes s (mo_volume_id options) = None" "0 \<le> mo_fd options"
  shows "mounter_reachable walk commDir bin
    (start_waiter (mo_volume_id options) (next_handle s) (started walk bin options s))"
proof -
  have "open_fds s = {}" using mounter_reachable_inv [OF assms(1)] by (simp add: mounter_inv_def)
  then have "handleConnection walk True bin (Inr options) s = started walk bin options s"
    using handle_started assms(3-5) by blast
  then have "mounter_reachable walk commDir bin (started walk bin options s)"
    using mounter_reachable.step [OF assms(1) mounter_step.accept [OF assms(2), of "Inr options" walk commDir bin True]]
      assms(5) by simp
  then show ?thesis
    by (rule mounter_reachable.step) (rule mounter_step.spawn, simp add: started_def)
qed

lemma valid_m: "validMountId ''m''" by code_simp

lemma one_running_reachable: "mounter_reachable id ''/comm'' ''/bin/mount-s3'' one_running"
  using reach_started [OF mounter_reachable.start, of "example_launch ''m''" id "''/comm''" "''/bin/mount-s3''"] valid_m
  by (simp add: one_running_def mounter_start_def)

text \<open>
  C6: One process per mount. Whatever connections arrive and however the goroutines and the processes
  interleave: two Mountpoint processes that run at the same time serve different mounts, every process
  that runs is tracked, has a valid mount identifier and was started with the command for its options
  (in the foreground, with the descriptor passed as number 3); the mounter itself keeps no descriptor
  open; and every error file holds the standard error of a process that failed, at the path of its mount.
\<close>

theorem one_process_per_mount:
  assumes "mounter_reachable walk commDir bin s"
  shows "(\<forall>h p g q. procs s h = Some p \<and> proc_status p = Running \<and> procs s g = Some q \<and>
        proc_status q = Running \<and> proc_mount p = proc_mount q \<longrightarrow> h = g) \<and>
    (\<forall>h p. procs s h = Some p \<longrightarrow> validMountId (proc_mount p) \<and>
        (proc_status p = Running \<longrightarrow> processes s (proc_mount p) = Some h) \<and>
        (\<exists>options. mo_volume_id options = proc_mount p \<and>
           proc_command p = launch_command walk (proc_mount p) bin options)) \<and>
    open_fds s = {} \<and> files_ok commDir s"
proof -
  have inv: "procs_ok walk bin s" "open_fds s = {}" "files_ok commDir s"
    using mounter_reachable_inv [OF assms] by (simp_all add: mounter_inv_def)
  have "h = g" if "procs s h = Some p" "proc_status p = Running" "procs s g = Some q" "proc_status q = Running"
      "proc_mount p = proc_mount q" for h p g q
    using procs_okD(5) [OF inv(1) that(1,2)] procs_okD(5) [OF inv(1) that(3,4)] that(5) by simp
  moreover have "validMountId (proc_mount p) \<and> (proc_status p = Running \<longrightarrow> processes s (proc_mount p) = Some h) \<and>
        (\<exists>options. mo_volume_id options = proc_mount p \<and>
           proc_command p = launch_command walk (proc_mount p) bin options)" if "procs s h = Some p" for h p
    using procs_okD(3,4,5) [OF inv(1) that] by blast
  ultimately show ?thesis using inv(2,3) by blast
qed

theorem one_process_per_mount_witness:
  "processes one_running ''m'' = Some 0 \<and> open_fds one_running = {} \<and> files_ok ''/comm'' one_running"
proof -
  have "procs one_running 0 = Some \<lparr>proc_mount = ''m'',
      proc_command = launch_command id ''m'' ''/bin/mount-s3'' (example_launch ''m''), proc_status = Running\<rparr>"
    by (simp add: one_running_def started_def start_waiter_def mounter_start_def)
  then show ?thesis using one_process_per_mount [OF one_running_reachable] by fastforce
qed

text \<open>Steps that lead from a state to another.\<close>

inductive mounter_steps :: "walk \<Rightarrow> string \<Rightarrow> string \<Rightarrow> pm_state \<Rightarrow> pm_state \<Rightarrow> bool"
  for walk commDir mountpointPath where
  none: "mounter_steps walk commDir mountpointPath s s"
| more: "mounter_step walk commDir mountpointPath s t \<Longrightarrow> mounter_steps walk commDir mountpointPath t u \<Longrightarrow>
    mounter_steps walk commDir mountpointPath s u"

lemma steps_append:
  "mounter_steps walk commDir bin s t \<Longrightarrow> mounter_steps walk commDir bin t u \<Longrightarrow> mounter_steps walk commDir bin s u"
  by (induction rule: mounter_steps.induct) (auto intro: mounter_steps.more)

lemma steps_one: "mounter_step walk commDir bin s t \<Longrightarrow> mounter_steps walk commDir bin s t"
  by (blast intro: mounter_steps.intros)

lemma steps_reachable:
  "mounter_steps walk commDir bin s t \<Longrightarrow> mounter_reachable walk commDir bin s \<Longrightarrow> mounter_reachable walk commDir bin t"
  by (induction rule: mounter_steps.induct) (auto intro: mounter_reachable.step)

text \<open>A goroutine whose process exited comes to its end without the others.\<close>

definition idle :: "pm_state \<Rightarrow> bool" where
  "idle s \<longleftrightarrow> (\<forall>h p. procs s h = Some p \<longrightarrow> proc_status p \<noteq> Running)"

lemma waiter_ends:
  assumes inv: "mounter_inv walk commDir bin s" and w: "waiters s h = Some w" and idle: "idle s"
  shows "\<exists>t. mounter_steps walk commDir bin s t \<and> waiters t = (waiters s)(h := None) \<and>
    procs t = procs s \<and> main_at t = main_at s"
proof -
  have reported: "\<exists>t. mounter_steps walk commDir bin s t \<and> waiters t = (waiters s)(h := None) \<and>
      procs t = procs s \<and> main_at t = main_at s" if "waiters s h = Some Reported" for s
    by (rule exI [of _ "waiter_done h s"])
      (simp add: steps_one [OF mounter_step.wg_done [OF that]], simp add: waiter_done_def)
  have untracked: "\<exists>t. mounter_steps walk commDir bin s t \<and> waiters t = (waiters s)(h := None) \<and>
      procs t = procs s \<and> main_at t = main_at s" if "waiters s h = Some (Untracked m code err)" for s m code err
  proof -
    let ?s = "report commDir True h m code err s"
    have "waiters ?s h = Some Reported" by (simp add: report_def)
    then obtain t where t: "mounter_steps walk commDir bin ?s t" "waiters t = (waiters ?s)(h := None)"
        "procs t = procs ?s" "main_at t = main_at ?s" using reported by blast
    have "mounter_steps walk commDir bin s t" by (rule mounter_steps.more [OF mounter_step.report [OF that] t(1)])
    with t(2-4) show ?thesis by (auto simp: report_def)
  qed
  show ?thesis
  proof (cases w)
    case (Waits m)
    have "tracked_ok s" using inv by (simp add: mounter_inv_def)
    from tracked_okD(3) [OF this w] Waits obtain p where p: "procs s h = Some p" by auto
    then obtain code err where st: "proc_status p = Exited code err"
      using idle by (cases "proc_status p") (auto simp: idle_def)
    let ?s = "forget h m code err s"
    have "waiters ?s h = Some (Untracked m code err)" by (simp add: forget_def)
    then obtain t where t: "mounter_steps walk commDir bin ?s t" "waiters t = (waiters ?s)(h := None)"
        "procs t = procs ?s" "main_at t = main_at ?s" using untracked by blast
    have "mounter_steps walk commDir bin s t"
      by (rule mounter_steps.more [OF mounter_step.wait [OF w [unfolded Waits] p st] t(1)])
    with t(2-4) show ?thesis by (auto simp: forget_def)
  qed (use w untracked reported in auto)
qed

lemma waiters_end:
  assumes "mounter_reachable walk commDir bin s" "idle s"
  shows "\<exists>t. mounter_steps walk commDir bin s t \<and> waiters t = Map.empty \<and> main_at t = main_at s"
  using assms
proof (induction "card (dom (waiters s))" arbitrary: s rule: less_induct)
  case less
  have inv: "mounter_inv walk commDir bin s" by (rule mounter_reachable_inv [OF less.prems(1)])
  then have fin: "finite (dom (waiters s))" by (simp add: mounter_inv_def group_ok_def)
  show ?case
  proof (cases "waiters s = Map.empty")
    case True
    then show ?thesis using mounter_steps.none by blast
  next
    case False
    then obtain h w where w: "waiters s h = Some w" by fastforce
    obtain t where t: "mounter_steps walk commDir bin s t" "waiters t = (waiters s)(h := None)"
        "procs t = procs s" "main_at t = main_at s"
      using waiter_ends [OF inv w less.prems(2)] by blast
    have "card (dom (waiters t)) < card (dom (waiters s))"
      using fin w by (simp add: t(2)) (metis card_Diff1_less domI)
    moreover have "idle t" using less.prems(2) by (simp add: idle_def t(3))
    ultimately obtain u where "mounter_steps walk commDir bin t u" "waiters u = Map.empty" "main_at u = main_at t"
      using less.hyps steps_reachable [OF t(1) less.prems(1)] by blast
    then show ?thesis using steps_append [OF t(1)] t(4) by auto
  qed
qed

text \<open>
  C7: Shutdown waits for everything. Once the processes were signalled, every process that still runs
  was among them; if they have all exited, the goroutines and the shutdown can come to their end without
  any other event; and when the mounter has finished no process runs, none is tracked and no goroutine
  is left, so every error file has been written.
\<close>

theorem shutdown_completes:
  assumes "mounter_reachable walk commDir bin s"
  shows "(main_at s \<in> {Draining, Finished} \<longrightarrow>
      (\<forall>h p. procs s h = Some p \<and> proc_status p = Running \<longrightarrow> h \<in> signalled s)) \<and>
    (main_at s = Draining \<and> idle s \<longrightarrow> (\<exists>t. mounter_steps walk commDir bin s t \<and> main_at t = Finished)) \<and>
    (main_at s = Finished \<longrightarrow> idle s \<and> processes s = Map.empty \<and> waiters s = Map.empty)"
proof -
  have inv: "tracked_ok s" "procs_ok walk bin s" "group_ok s" "shutdown_ok s"
    using mounter_reachable_inv [OF assms] by (simp_all add: mounter_inv_def)
  have "idle s \<and> processes s = Map.empty \<and> waiters s = Map.empty" if f: "main_at s = Finished"
  proof -
    have none: "waiters s = Map.empty" using f inv(3,4) by (auto simp: group_ok_def shutdown_ok_def)
    then have "processes s = Map.empty" using tracked_okD(1) [OF inv(1)] f by fastforce
    with none show ?thesis using procs_okD(5) [OF inv(2)] by (auto simp: idle_def)
  qed
  moreover have "\<exists>t. mounter_steps walk commDir bin s t \<and> main_at t = Finished" if d: "main_at s = Draining" "idle s"
  proof -
    obtain t where t: "mounter_steps walk commDir bin s t" "waiters t = Map.empty" "main_at t = Draining"
      using waiters_end [OF assms d(2)] d(1) by auto
    have "wait_group t = 0"
      using mounter_reachable_inv [OF steps_reachable [OF t(1) assms]] t(2)
      by (simp add: mounter_inv_def group_ok_def)
    then have "mounter_step walk commDir bin t (t\<lparr>main_at := Finished\<rparr>)"
      using t(3) mounter_step.drained by blast
    then show ?thesis using steps_append [OF t(1) steps_one] by fastforce
  qed
  ultimately show ?thesis using inv(4) by (auto simp: shutdown_ok_def)
qed

definition stopping :: pm_state where "stopping = Shutdown (one_running\<lparr>main_at := Closed\<rparr>)"

theorem shutdown_completes_witness: "signalled stopping = {0} \<and>
  {h. \<exists>p. procs stopping h = Some p \<and> proc_status p = Running} \<subseteq> signalled stopping"
proof -
  have "mounter_reachable id ''/comm'' ''/bin/mount-s3'' stopping"
    unfolding stopping_def
    by (intro mounter_reachable.step [OF mounter_reachable.step [OF one_running_reachable mounter_step.close]]
        mounter_step.shutdown) (simp_all add: one_running_def start_waiter_def)
  from shutdown_completes [OF this]
  have "\<forall>h p. procs stopping h = Some p \<and> proc_status p = Running \<longrightarrow> h \<in> signalled stopping"
    by (simp add: stopping_def Shutdown_def)
  moreover have "signalled stopping = {0}"
    by (simp add: stopping_def Shutdown_def one_running_def start_waiter_def started_def mounter_start_def)
  ultimately show ?thesis by blast
qed

section \<open>An error file can outlive its process\<close>

text \<open>
  A goroutine stops tracking a process before it writes the error file. In between a new process can be
  started for the same mount, and then the error file of the old process appears next to it.
\<close>

definition failed_once :: pm_state where
  "failed_once = forget 0 ''m'' 1 ''old'' (exits 0
     \<lparr>proc_mount = ''m'', proc_command = launch_command id ''m'' ''/bin/mount-s3'' (example_launch ''m''),
      proc_status = Running\<rparr> 1 ''old'' one_running)"

definition relaunched :: pm_state where
  "relaunched = start_waiter ''m'' 1 (started id ''/bin/mount-s3'' (example_launch ''m'') failed_once)"

lemma stale_error_file:
  "mounter_reachable id ''/comm'' ''/bin/mount-s3'' (report ''/comm'' True 0 ''m'' 1 ''old'' relaunched) \<and>
   processes relaunched ''m'' = Some 1 \<and> map_option proc_status (procs relaunched 1) = Some Running \<and>
   error_files relaunched = [] \<and>
   error_files (report ''/comm'' True 0 ''m'' 1 ''old'' relaunched) = [(errorPath ''/comm'' ''m'', ''old'')]"
proof -
  let ?p = "\<lparr>proc_mount = ''m'', proc_command = launch_command id ''m'' ''/bin/mount-s3'' (example_launch ''m''),
      proc_status = Running\<rparr>"
  have run: "procs one_running 0 = Some ?p" "proc_status ?p = Running" "waiters one_running 0 = Some (Waits ''m'')"
    by (simp_all add: one_running_def started_def start_waiter_def mounter_start_def)
  let ?e = "exits 0 ?p 1 ''old'' one_running"
  have exited: "waiters ?e 0 = Some (Waits ''m'')" "procs ?e 0 = Some (?p\<lparr>proc_status := Exited 1 ''old''\<rparr>)"
    "proc_status (?p\<lparr>proc_status := Exited 1 ''old''\<rparr>) = Exited 1 ''old''"
    using run(3) by (simp_all add: exits_def)
  have "mounter_reachable id ''/comm'' ''/bin/mount-s3'' ?e"
    by (rule mounter_reachable.step [OF one_running_reachable mounter_step.exit [OF run(1,2)]])
  then have "mounter_reachable id ''/comm'' ''/bin/mount-s3'' failed_once"
    unfolding failed_once_def by (rule mounter_reachable.step [OF _ mounter_step.wait [OF exited]])
  then have "mounter_reachable id ''/comm'' ''/bin/mount-s3'' relaunched"
    using reach_started [of id "''/comm''" "''/bin/mount-s3''" failed_once "example_launch ''m''"] valid_m
    by (simp add: relaunched_def failed_once_def forget_def exits_def one_running_def start_waiter_def started_def
        mounter_start_def)
  then have "mounter_reachable id ''/comm'' ''/bin/mount-s3'' (report ''/comm'' True 0 ''m'' 1 ''old'' relaunched)"
    by (rule mounter_reachable.step)
      (rule mounter_step.report, simp add: relaunched_def failed_once_def forget_def start_waiter_def started_def
        exits_def one_running_def mounter_start_def)
  then show ?thesis
    by (simp add: relaunched_def failed_once_def forget_def start_waiter_def started_def exits_def one_running_def
        mounter_start_def report_def)
qed

end
