(* ===== verification/Mp_Lock.thy ===== *)
theory Mp_Lock
  imports Csi_Prelude
begin

text \<open>
  \<^verbatim>\<open>pkg/driver/node/mounter/mppod_lock.go\<close>: one reference-counted lock per Mountpoint Pod.
  Goroutines interleave, so the code is a step relation: each goroutine has a program counter, a step
  is what it does between two points at which another one may run. Mutexes are the ones of the Go
  memory model: a goroutine blocks until the mutex is free. Objects that dropped out of the map stay
  allocated and are never used again, which is what the proofs show.
\<close>

section \<open>The table of locks\<close>

record mp_pod_lock =
  mutex_locked :: bool
  ref_count :: int

record lock_table =
  mp_pod_locks :: "string \<rightharpoonup> nat"           \<comment> \<open>the map, to addresses of lock objects\<close>
  lock_heap :: "nat \<Rightarrow> mp_pod_lock"
  next_lock :: nat

definition update_lock :: "nat \<Rightarrow> (mp_pod_lock \<Rightarrow> mp_pod_lock) \<Rightarrow> lock_table \<Rightarrow> lock_table" where
  "update_lock a f T = T\<lparr>lock_heap := (lock_heap T)(a := f (lock_heap T a))\<rparr>"

text \<open>The bodies of the two functions, which run while \<^verbatim>\<open>mpPodLocksMutex\<close> is held.\<close>

definition getMPPodLock :: "string \<Rightarrow> lock_table \<Rightarrow> nat \<times> lock_table" where
  "getMPPodLock mpPodName T =
     (case mp_pod_locks T mpPodName of
        None \<Rightarrow>
          (let a = next_lock T
           in (a, T\<lparr>mp_pod_locks := (mp_pod_locks T)(mpPodName \<mapsto> a),
                lock_heap := (lock_heap T)(a := \<lparr>mutex_locked = False, ref_count = 1\<rparr>),
                next_lock := Suc a\<rparr>))
      | Some a \<Rightarrow> (a, update_lock a (\<lambda>l. l\<lparr>ref_count := ref_count l + 1\<rparr>) T))"

definition releaseMPPodLock :: "string \<Rightarrow> lock_table \<Rightarrow> lock_table" where
  "releaseMPPodLock mpPodName T =
     (case mp_pod_locks T mpPodName of
        None \<Rightarrow> T \<comment> \<open>logged: should never happen\<close>
      | Some a \<Rightarrow>
          (let T' = update_lock a (\<lambda>l. l\<lparr>ref_count := ref_count l - 1\<rparr>) T
           in if ref_count (lock_heap T' a) \<le> 0
              then T'\<lparr>mp_pod_locks := (mp_pod_locks T')(mpPodName := None)\<rparr> else T'))"

section \<open>Goroutines\<close>

datatype lock_pc =
    Idle
  | Getting string         \<comment> \<open>before \<^verbatim>\<open>mpPodLocksMutex.Lock\<close> in \<^verbatim>\<open>getMPPodLock\<close>\<close>
  | InGet string           \<comment> \<open>holds it\<close>
  | Waiting string nat     \<comment> \<open>before \<^verbatim>\<open>mpPodLock.mutex.Lock\<close>\<close>
  | Holding string nat     \<comment> \<open>between the lock and the call of the returned function\<close>
  | Unlocked string        \<comment> \<open>before \<^verbatim>\<open>mpPodLocksMutex.Lock\<close> in \<^verbatim>\<open>releaseMPPodLock\<close>\<close>
  | InRelease string

record lock_state =
  lock_table :: lock_table
  table_owner :: "nat option"    \<comment> \<open>who holds \<^verbatim>\<open>mpPodLocksMutex\<close>\<close>
  pcs :: "nat \<Rightarrow> lock_pc"

definition goto :: "nat \<Rightarrow> lock_pc \<Rightarrow> lock_state \<Rightarrow> lock_state" where
  "goto t p s = s\<lparr>pcs := (pcs s)(t := p)\<rparr>"

definition set_locked :: "nat \<Rightarrow> bool \<Rightarrow> lock_state \<Rightarrow> lock_state" where
  "set_locked a b s = s\<lparr>lock_table := update_lock a (\<lambda>l. l\<lparr>mutex_locked := b\<rparr>) (lock_table s)\<rparr>"

inductive lock_step :: "lock_state \<Rightarrow> nat \<Rightarrow> lock_state \<Rightarrow> bool" where
  call: "pcs s t = Idle \<Longrightarrow> lock_step s t (goto t (Getting n) s)"
| enter_get: "pcs s t = Getting n \<Longrightarrow> table_owner s = None \<Longrightarrow>
    lock_step s t (goto t (InGet n) (s\<lparr>table_owner := Some t\<rparr>))"
| get: "pcs s t = InGet n \<Longrightarrow> getMPPodLock n (lock_table s) = (a, T) \<Longrightarrow>
    lock_step s t (goto t (Waiting n a) (s\<lparr>lock_table := T, table_owner := None\<rparr>))"
| acquire: "pcs s t = Waiting n a \<Longrightarrow> \<not> mutex_locked (lock_heap (lock_table s) a) \<Longrightarrow>
    lock_step s t (goto t (Holding n a) (set_locked a True s))"
| unlock: "pcs s t = Holding n a \<Longrightarrow> lock_step s t (goto t (Unlocked n) (set_locked a False s))"
| enter_release: "pcs s t = Unlocked n \<Longrightarrow> table_owner s = None \<Longrightarrow>
    lock_step s t (goto t (InRelease n) (s\<lparr>table_owner := Some t\<rparr>))"
| release: "pcs s t = InRelease n \<Longrightarrow>
    lock_step s t (goto t Idle
      (s\<lparr>lock_table := releaseMPPodLock n (lock_table s), table_owner := None\<rparr>))"

inductive_cases lock_stepE: "lock_step s t s'"

text \<open>The step of a goroutine as a function; an idle one may call with any name.\<close>

definition lock_next :: "string \<Rightarrow> nat \<Rightarrow> lock_state \<Rightarrow> lock_state option" where
  "lock_next name t s =
     (case pcs s t of
        Idle \<Rightarrow> Some (goto t (Getting name) s)
      | Getting n \<Rightarrow>
          if table_owner s = None then Some (goto t (InGet n) (s\<lparr>table_owner := Some t\<rparr>)) else None
      | InGet n \<Rightarrow>
          (case getMPPodLock n (lock_table s) of
             (a, T) \<Rightarrow> Some (goto t (Waiting n a) (s\<lparr>lock_table := T, table_owner := None\<rparr>)))
      | Waiting n a \<Rightarrow>
          if mutex_locked (lock_heap (lock_table s) a) then None
          else Some (goto t (Holding n a) (set_locked a True s))
      | Holding n a \<Rightarrow> Some (goto t (Unlocked n) (set_locked a False s))
      | Unlocked n \<Rightarrow>
          if table_owner s = None then Some (goto t (InRelease n) (s\<lparr>table_owner := Some t\<rparr>)) else None
      | InRelease n \<Rightarrow>
          Some (goto t Idle
            (s\<lparr>lock_table := releaseMPPodLock n (lock_table s), table_owner := None\<rparr>)))"

lemma lock_step_next: "lock_step s t s' \<longleftrightarrow> (\<exists>name. lock_next name t s = Some s')"
proof
  assume "lock_step s t s'"
  then show "\<exists>name. lock_next name t s = Some s'"
    by cases (auto simp: lock_next_def)
next
  assume "\<exists>name. lock_next name t s = Some s'"
  then show "lock_step s t s'"
    by (cases "pcs s t") (auto simp: lock_next_def intro: lock_step.intros split: if_splits prod.splits)
qed

definition no_locks :: lock_state where
  "no_locks =
     \<lparr>lock_table = \<lparr>mp_pod_locks = Map.empty, lock_heap = \<lambda>a. \<lparr>mutex_locked = False, ref_count = 0\<rparr>,
        next_lock = 0\<rparr>,
      table_owner = None, pcs = \<lambda>t. Idle\<rparr>"

inductive lock_reachable :: "lock_state \<Rightarrow> bool" where
  init: "lock_reachable no_locks"
| step: "lock_reachable s \<Longrightarrow> lock_step s t s' \<Longrightarrow> lock_reachable s'"

text \<open>A run given by who makes the next step, with the name for a call; a blocked step is skipped.\<close>

fun lock_run :: "(nat \<times> string) list \<Rightarrow> lock_state \<Rightarrow> lock_state" where
  "lock_run [] s = s"
| "lock_run ((t, name) # turns) s =
     lock_run turns (case lock_next name t s of None \<Rightarrow> s | Some s' \<Rightarrow> s')"

lemma next_reachable: "lock_reachable s \<Longrightarrow> lock_next name t s = Some s' \<Longrightarrow> lock_reachable s'"
  using lock_reachable.step lock_step_next by blast

lemma lock_run_reachable: "lock_reachable s \<Longrightarrow> lock_reachable (lock_run turns s)"
proof (induction turns arbitrary: s)
  case (Cons turn turns)
  obtain t name where turn: "turn = (t, name)" by force
  show ?case
    using Cons next_reachable [OF Cons.prems, of name t] by (simp add: turn split: option.split)
qed simp

section \<open>The invariant\<close>

fun uses :: "lock_pc \<Rightarrow> string \<Rightarrow> bool" where
  "uses (Waiting m a) n = (m = n)"
| "uses (Holding m a) n = (m = n)"
| "uses (Unlocked m) n = (m = n)"
| "uses (InRelease m) n = (m = n)"
| "uses p n = False"

fun in_table :: "lock_pc \<Rightarrow> bool" where
  "in_table (InGet n) = True"
| "in_table (InRelease n) = True"
| "in_table p = False"

fun points_to :: "lock_pc \<Rightarrow> (string \<times> nat) option" where
  "points_to (Waiting n a) = Some (n, a)"
| "points_to (Holding n a) = Some (n, a)"
| "points_to p = None"

definition users :: "(nat \<Rightarrow> lock_pc) \<Rightarrow> string \<Rightarrow> nat set" where
  "users p n = {t. uses (p t) n}"

text \<open>The counters are exact, and the lock objects in the map are alive and distinct.\<close>

definition count_ok :: "lock_table \<Rightarrow> (nat \<Rightarrow> lock_pc) \<Rightarrow> string \<Rightarrow> bool" where
  "count_ok T p n \<longleftrightarrow> finite (users p n) \<and>
     (case mp_pod_locks T n of
        None \<Rightarrow> users p n = {}
      | Some a \<Rightarrow> a < next_lock T \<and> users p n \<noteq> {} \<and>
          ref_count (lock_heap T a) = int (card (users p n)))"

definition counts_ok :: "lock_table \<Rightarrow> (nat \<Rightarrow> lock_pc) \<Rightarrow> bool" where
  "counts_ok T p \<longleftrightarrow>
     (\<forall>n. count_ok T p n) \<and>
     (\<forall>m n a. mp_pod_locks T m = Some a \<and> mp_pod_locks T n = Some a \<longrightarrow> m = n)"

text \<open>A mutex is locked exactly while one goroutine is between its lock and unlock.\<close>

definition mutexes_ok :: "lock_table \<Rightarrow> (nat \<Rightarrow> lock_pc) \<Rightarrow> bool" where
  "mutexes_ok T p \<longleftrightarrow>
     (\<forall>t n a. points_to (p t) = Some (n, a) \<longrightarrow> mp_pod_locks T n = Some a) \<and>
     (\<forall>n a. mp_pod_locks T n = Some a \<longrightarrow>
        mutex_locked (lock_heap T a) = (\<exists>t. p t = Holding n a)) \<and>
     (\<forall>t u n a. p t = Holding n a \<and> p u = Holding n a \<longrightarrow> t = u)"

definition lock_inv :: "lock_state \<Rightarrow> bool" where
  "lock_inv s \<longleftrightarrow>
     (\<forall>t. (table_owner s = Some t) = in_table (pcs s t)) \<and>
     counts_ok (lock_table s) (pcs s) \<and> mutexes_ok (lock_table s) (pcs s)"

lemma users_update [simp]:
  "users (p(t := q)) n = (if uses q n then insert t (users p n) else users p n - {t})"
  by (auto simp: users_def)

lemma in_users [simp]: "t \<in> users p n \<longleftrightarrow> uses (p t) n"
  by (simp add: users_def)

lemma points_uses: "points_to q = Some (n, a) \<Longrightarrow> uses q n"
  by (cases q) auto

lemma same_users: "(\<And>n. uses q n = uses (p t) n) \<Longrightarrow> users (p(t := q)) n = users p n"
  by (auto simp: users_def)

lemmas state_simps = goto_def set_locked_def update_lock_def

text \<open>Steps that leave the table alone.\<close>

lemma counts_same:
  assumes "counts_ok T p" "\<And>n. uses q n = uses (p t) n"
  shows "counts_ok T (p(t := q))"
  using assms(1) unfolding counts_ok_def count_ok_def same_users [of q p t, OF assms(2)] by simp

lemma counts_locked: "counts_ok (update_lock a (\<lambda>l. l\<lparr>mutex_locked := b\<rparr>) T) p = counts_ok T p"
  by (auto simp: counts_ok_def count_ok_def update_lock_def split: option.splits)

lemma mutexes_same:
  assumes "mutexes_ok T p" "points_to q = None" "points_to (p t) = None"
  shows "mutexes_ok T (p(t := q))"
proof -
  have "\<And>n a. q \<noteq> Holding n a" "\<And>n a. p t \<noteq> Holding n a" using assms(2,3) by auto
  then have "(p(t := q)) u = Holding n a \<longleftrightarrow> p u = Holding n a" for u n a by auto
  moreover have "points_to ((p(t := q)) u) = Some (n, a) \<longleftrightarrow> points_to (p u) = Some (n, a)" for u n a
    using assms(2,3) by auto
  ultimately show ?thesis using assms(1) unfolding mutexes_ok_def by simp
qed

lemma counts_okD:
  assumes "counts_ok T p"
  shows "finite (users p n)" "mp_pod_locks T n = None \<Longrightarrow> users p n = {}"
    "mp_pod_locks T n = Some a \<Longrightarrow> a < next_lock T"
    "mp_pod_locks T n = Some a \<Longrightarrow> ref_count (lock_heap T a) = int (card (users p n))"
    "mp_pod_locks T m = Some a \<Longrightarrow> mp_pod_locks T n = Some a \<Longrightarrow> m = n" "count_ok T p n"
proof -
  have c: "count_ok T p n" using assms by (simp add: counts_ok_def)
  then show "count_ok T p n" "finite (users p n)" by (auto simp: count_ok_def)
  show "mp_pod_locks T m = Some a \<Longrightarrow> mp_pod_locks T n = Some a \<Longrightarrow> m = n"
    using assms unfolding counts_ok_def by blast
qed (use assms in \<open>auto simp: counts_ok_def count_ok_def dest!: spec [of _ n]\<close>)

lemma next_lock_fresh: "counts_ok T p \<Longrightarrow> mp_pod_locks T m \<noteq> Some (next_lock T)"
  using counts_okD(3) [of T p m "next_lock T"] by auto

lemma counts_okI:
  assumes "\<And>n. count_ok T p n"
    and "\<And>m n a. mp_pod_locks T m = Some a \<Longrightarrow> mp_pod_locks T n = Some a \<Longrightarrow> m = n"
  shows "counts_ok T p"
  using assms unfolding counts_ok_def by blast

lemma mutexes_okD:
  assumes "mutexes_ok T p"
  shows "points_to (p t) = Some (n, a) \<Longrightarrow> mp_pod_locks T n = Some a"
    "mp_pod_locks T n = Some a \<Longrightarrow> mutex_locked (lock_heap T a) = (\<exists>t. p t = Holding n a)"
    "p t = Holding n a \<Longrightarrow> p u = Holding n a \<Longrightarrow> t = u"
  using assms unfolding mutexes_ok_def by blast+

lemma mutexes_okI:
  assumes "\<And>t n a. points_to (p t) = Some (n, a) \<Longrightarrow> mp_pod_locks T n = Some a"
    and "\<And>n a. mp_pod_locks T n = Some a \<Longrightarrow> mutex_locked (lock_heap T a) = (\<exists>t. p t = Holding n a)"
    and "\<And>t u n a. p t = Holding n a \<Longrightarrow> p u = Holding n a \<Longrightarrow> t = u"
  shows "mutexes_ok T p"
  using assms unfolding mutexes_ok_def by blast

lemma user_locked:
  assumes "counts_ok T p" "uses (p t) n"
  obtains a where "mp_pod_locks T n = Some a"
  using counts_okD(2) [OF assms(1), of n] assms(2) in_users [of t p n]
  by (cases "mp_pod_locks T n") auto

text \<open>Changing one name in the table leaves the others alone.\<close>

lemma count_other:
  assumes "count_ok T p m" "mp_pod_locks T' m = mp_pod_locks T m" "users p' m = users p m"
    and "next_lock T \<le> next_lock T'"
    and "\<And>b. mp_pod_locks T m = Some b \<Longrightarrow> ref_count (lock_heap T' b) = ref_count (lock_heap T b)"
  shows "count_ok T' p' m"
  using assms by (auto simp: count_ok_def split: option.splits)

section \<open>Preservation\<close>

lemma counts_get:
  assumes ok: "counts_ok T p" and get: "getMPPodLock n T = (a, T')" and t: "p t = InGet n"
  shows "counts_ok T' (p(t := Waiting n a))"
proof (rule counts_okI)
  have new: "t \<notin> users p n" using t by simp
  note fresh = next_lock_fresh [OF ok]
  show "count_ok T' (p(t := Waiting n a)) m" for m
  proof (cases "m = n")
    case True
    then show ?thesis
      using counts_okD(6) [OF ok, of n] new get
      by (auto simp: count_ok_def getMPPodLock_def update_lock_def Let_def split: option.splits)
  next
    case False
    have "mp_pod_locks T m = Some b \<Longrightarrow> mp_pod_locks T n \<noteq> Some b" for b
      using counts_okD(5) [OF ok, of m b n] False by auto
    then show ?thesis
      by (intro count_other [OF counts_okD(6) [OF ok]])
        (use False get t fresh [of m] in
          \<open>auto simp: getMPPodLock_def update_lock_def Let_def split: option.splits\<close>)
  qed
  show "m = k" if "mp_pod_locks T' m = Some b" "mp_pod_locks T' k = Some b" for m k b
    using that get counts_okD(5) [OF ok, of m b k] fresh [of m] fresh [of k]
    by (auto simp: getMPPodLock_def update_lock_def Let_def split: option.splits if_splits)
qed

lemma mutexes_get:
  assumes ok: "counts_ok T p" "mutexes_ok T p"
    and get: "getMPPodLock n T = (a, T')" and t: "p t = InGet n"
  shows "mutexes_ok T' (p(t := Waiting n a))"
proof (rule mutexes_okI)
  have free: "p u \<noteq> Holding n b" if "mp_pod_locks T n = None" for u b
    using mutexes_okD(1) [OF ok(2), of u n b] that by auto
  have stays: "mp_pod_locks T m = Some b \<Longrightarrow> mp_pod_locks T' m = Some b" for m b
    using get by (auto simp: getMPPodLock_def update_lock_def Let_def split: option.splits)
  have mine: "mp_pod_locks T' n = Some a"
    using get by (auto simp: getMPPodLock_def update_lock_def Let_def split: option.splits)
  have at: "((p(t := Waiting n a)) u = Holding m b) = (p u = Holding m b)" for u m b
    using t by simp
  show "mp_pod_locks T' m = Some b" if "points_to ((p(t := Waiting n a)) u) = Some (m, b)" for u m b
    using that mine stays mutexes_okD(1) [OF ok(2), of u m b] by (auto split: if_splits)
  show "mutex_locked (lock_heap T' b) = (\<exists>u. (p(t := Waiting n a)) u = Holding m b)"
    if "mp_pod_locks T' m = Some b" for m b
  proof (cases "mp_pod_locks T m = Some b")
    case True
    then have "mutex_locked (lock_heap T' b) = mutex_locked (lock_heap T b)"
      using get next_lock_fresh [OF ok(1), of m]
      by (auto simp: getMPPodLock_def update_lock_def Let_def split: option.splits if_splits)
    then show ?thesis unfolding at using mutexes_okD(2) [OF ok(2) True] by simp
  next
    case False
    then have "m = n" "mp_pod_locks T n = None" "\<not> mutex_locked (lock_heap T' b)"
      using that get by (auto simp: getMPPodLock_def update_lock_def Let_def split: option.splits if_splits)
    then show ?thesis unfolding at using free by simp
  qed
  show "u = v" if "(p(t := Waiting n a)) u = Holding m b" "(p(t := Waiting n a)) v = Holding m b" for u v m b
    using that mutexes_okD(3) [OF ok(2)] unfolding at by blast
qed

lemma counts_release:
  assumes ok: "counts_ok T p" and t: "p t = InRelease n"
  shows "counts_ok (releaseMPPodLock n T) (p(t := Idle))"
proof (rule counts_okI)
  obtain a where a: "mp_pod_locks T n = Some a"
    by (rule user_locked [OF ok, of t n]) (use t in auto)
  have mem: "t \<in> users p n" using t by simp
  have card: "int (card (users p n)) = int (card (users p n - {t})) + 1"
    using card.remove [OF counts_okD(1) [OF ok] mem] by simp
  show "count_ok (releaseMPPodLock n T) (p(t := Idle)) m" for m
  proof (cases "m = n")
    case True
    have fin: "finite (users p n - {t})" using counts_okD(1) [OF ok] by simp
    have ref: "ref_count (lock_heap T a) = int (card (users p n - {t})) + 1"
      using counts_okD(4) [OF ok a] card by simp
    have still: "(users p n - {t} = {}) = (ref_count (lock_heap T a) \<le> 1)"
      unfolding ref using fin by (simp add: card_eq_0_iff)
    have "users (p(t := Idle)) n = users p n - {t}" by simp
    then show ?thesis
      unfolding True count_ok_def
      using fin ref still a counts_okD(3) [OF ok a]
      by (simp add: releaseMPPodLock_def update_lock_def Let_def del: users_update)
  next
    case False
    have "mp_pod_locks T m \<noteq> Some a"
      using counts_okD(5) [OF ok _ a, of m] False by auto
    then show ?thesis
      by (intro count_other [OF counts_okD(6) [OF ok]])
        (use False a t in \<open>auto simp: releaseMPPodLock_def update_lock_def Let_def\<close>)
  qed
  show "m = k" if "mp_pod_locks (releaseMPPodLock n T) m = Some b"
      "mp_pod_locks (releaseMPPodLock n T) k = Some b" for m k b
    using that a counts_okD(5) [OF ok, of m b k]
    by (auto simp: releaseMPPodLock_def update_lock_def Let_def split: if_splits)
qed

text \<open>The object is dropped from the map only when nobody else uses it.\<close>

lemma releasing_last:
  assumes ok: "counts_ok T p" and t: "p t = InRelease n"
    and gone: "mp_pod_locks (releaseMPPodLock n T) n = None"
  shows "points_to (p u) \<noteq> Some (n, b)"
proof
  assume "points_to (p u) = Some (n, b)"
  then have "u \<in> users p n" "u \<noteq> t" "t \<in> users p n" using points_uses t by auto
  moreover obtain a where a: "mp_pod_locks T n = Some a"
    by (rule user_locked [OF ok, of t n]) (use t in auto)
  moreover have "card (users p n) \<le> Suc 0"
    using gone a counts_okD(4) [OF ok a] by (auto simp: releaseMPPodLock_def update_lock_def Let_def split: if_splits)
  ultimately show False using counts_okD(1) [OF ok, of n] by (metis card_le_Suc0_iff_eq)
qed

lemma mutexes_release:
  assumes ok: "counts_ok T p" "mutexes_ok T p" and t: "p t = InRelease n"
  shows "mutexes_ok (releaseMPPodLock n T) (p(t := Idle))"
proof (rule mutexes_okI)
  obtain a where a: "mp_pod_locks T n = Some a"
    by (rule user_locked [OF ok(1), of t n]) (use t in auto)
  have at: "((p(t := Idle)) u = Holding m b) = (p u = Holding m b)" for u m b
    using t by simp
  have was: "mp_pod_locks (releaseMPPodLock n T) m = Some b \<Longrightarrow> mp_pod_locks T m = Some b \<and>
      mutex_locked (lock_heap (releaseMPPodLock n T) b) = mutex_locked (lock_heap T b)" for m b
    using a by (auto simp: releaseMPPodLock_def update_lock_def Let_def split: if_splits)
  have kept: "mp_pod_locks (releaseMPPodLock n T) m = mp_pod_locks T m \<or>
      m = n \<and> mp_pod_locks (releaseMPPodLock n T) m = None" for m
    using a by (auto simp: releaseMPPodLock_def update_lock_def Let_def split: if_splits)
  show "mp_pod_locks (releaseMPPodLock n T) m = Some b" if "points_to ((p(t := Idle)) u) = Some (m, b)" for u m b
    using that kept [of m] mutexes_okD(1) [OF ok(2), of u m b] releasing_last [OF ok(1) t, of u b]
    by (auto split: if_splits)
  show "mutex_locked (lock_heap (releaseMPPodLock n T) b) = (\<exists>u. (p(t := Idle)) u = Holding m b)"
    if "mp_pod_locks (releaseMPPodLock n T) m = Some b" for m b
    unfolding at using was [OF that] mutexes_okD(2) [OF ok(2), of m b] by simp
  show "u = v" if "(p(t := Idle)) u = Holding m b" "(p(t := Idle)) v = Holding m b" for u v m b
    using that mutexes_okD(3) [OF ok(2)] unfolding at by blast
qed

lemma mutexes_locked:
  assumes ok: "counts_ok T p" "mutexes_ok T p" and a: "mp_pod_locks T n = Some a"
    and q: "points_to q = None \<or> points_to q = Some (n, a)"
    and others: "\<And>u. u \<noteq> t \<Longrightarrow> p u \<noteq> Holding n a" and t: "points_to (p t) = Some (n, a)"
  shows "mutexes_ok (update_lock a (\<lambda>l. l\<lparr>mutex_locked := q = Holding n a\<rparr>) T) (p(t := q))"
proof (rule mutexes_okI)
  have inj: "mp_pod_locks T m = Some a \<Longrightarrow> m = n" for m
    using counts_okD(5) [OF ok(1) _ a] by blast
  have at: "((p(t := q)) u = Holding m b) = (if u = t then q = Holding n a \<and> m = n \<and> b = a else p u = Holding m b)"
    for u m b using q by auto
  show "mp_pod_locks (update_lock a (\<lambda>l. l\<lparr>mutex_locked := q = Holding n a\<rparr>) T) m = Some b"
    if "points_to ((p(t := q)) u) = Some (m, b)" for u m b
    using that q a mutexes_okD(1) [OF ok(2), of u m b] by (auto simp: update_lock_def split: if_splits)
  show "mutex_locked (lock_heap (update_lock a (\<lambda>l. l\<lparr>mutex_locked := q = Holding n a\<rparr>) T) b) =
      (\<exists>u. (p(t := q)) u = Holding m b)"
    if "mp_pod_locks (update_lock a (\<lambda>l. l\<lparr>mutex_locked := q = Holding n a\<rparr>) T) m = Some b" for m b
  proof (cases "b = a")
    case True
    with that have "m = n" using inj by (simp add: update_lock_def)
    with True show ?thesis unfolding at using others by (auto simp: update_lock_def)
  next
    case False
    with that have m: "mp_pod_locks T m = Some b" by (simp add: update_lock_def)
    have "p t \<noteq> Holding m b" using t False by auto
    with False m show ?thesis
      unfolding at using mutexes_okD(2) [OF ok(2) m] by (auto simp: update_lock_def)
  qed
  show "u = v" if "(p(t := q)) u = Holding m b" "(p(t := q)) v = Holding m b" for u v m b
    using that mutexes_okD(3) [OF ok(2), of u m b v] others unfolding at by (auto split: if_splits)
qed

lemma owner_step:
  assumes "\<forall>u. (owner = Some u) = in_table (p u)"
  shows "in_table q = in_table (p t) \<Longrightarrow> (owner = Some u) = in_table ((p(t := q)) u)"
    "owner = None \<Longrightarrow> in_table q \<Longrightarrow> (Some t = Some u) = in_table ((p(t := q)) u)"
    "in_table (p t) \<Longrightarrow> \<not> in_table q \<Longrightarrow> (None = Some u) = in_table ((p(t := q)) u)"
  using assms by (simp_all add: fun_upd_apply) (metis option.inject)

lemma lock_inv_step:
  assumes "lock_inv s" "lock_step s t s'"
  shows "lock_inv s'"
proof -
  have own: "\<forall>u. (table_owner s = Some u) = in_table (pcs s u)"
    and ok: "counts_ok (lock_table s) (pcs s)" "mutexes_ok (lock_table s) (pcs s)"
    using assms(1) by (auto simp: lock_inv_def)
  have same: "lock_inv (s\<lparr>table_owner := owner, pcs := (pcs s)(t := q)\<rparr>)"
    if "\<And>u. (owner = Some u) = in_table (((pcs s)(t := q)) u)" "\<And>n. uses q n = uses (pcs s t) n"
      "points_to q = None" "points_to (pcs s t) = None" for q owner
    using counts_same [OF ok(1) that(2)] mutexes_same [OF ok(2) that(3,4)] that(1)
    by (simp add: lock_inv_def)
  note [simp] = lock_inv_def goto_def set_locked_def
  from assms(2) show ?thesis
  proof cases
    case (call n)
    with same [of "table_owner s" "Getting n"] owner_step(1) [OF own, of "Getting n" t] show ?thesis by simp
  next
    case (enter_get n)
    with same [of "Some t" "InGet n"] owner_step(2) [OF own, of "InGet n" t] show ?thesis by simp
  next
    case (get n a T)
    with counts_get [OF ok(1)] mutexes_get [OF ok] owner_step(3) [OF own, of t "Waiting n a"]
    show ?thesis by simp
  next
    case (acquire n a)
    have a: "mp_pod_locks (lock_table s) n = Some a"
      using mutexes_okD(1) [OF ok(2), of t n a] acquire by simp
    have "pcs s u \<noteq> Holding n a" for u using mutexes_okD(2) [OF ok(2) a] acquire by blast
    with mutexes_locked [OF ok a, of "Holding n a" t] counts_same [OF ok(1), of "Holding n a" t]
      owner_step(1) [OF own, of "Holding n a" t] acquire
    show ?thesis by (simp add: counts_locked)
  next
    case (unlock n a)
    have a: "mp_pod_locks (lock_table s) n = Some a"
      using mutexes_okD(1) [OF ok(2), of t n a] unlock by simp
    have "pcs s u \<noteq> Holding n a" if "u \<noteq> t" for u
      using mutexes_okD(3) [OF ok(2), of t n a u] unlock that by auto
    with mutexes_locked [OF ok a, of "Unlocked n" t] counts_same [OF ok(1), of "Unlocked n" t]
      owner_step(1) [OF own, of "Unlocked n" t] unlock
    show ?thesis by (simp add: counts_locked)
  next
    case (enter_release n)
    with same [of "Some t" "InRelease n"] owner_step(2) [OF own, of "InRelease n" t] show ?thesis by simp
  next
    case (release n)
    with counts_release [OF ok(1)] mutexes_release [OF ok] owner_step(3) [OF own, of t Idle]
    show ?thesis by simp
  qed
qed

lemma lock_inv_reachable: "lock_reachable s \<Longrightarrow> lock_inv s"
proof (induction rule: lock_reachable.induct)
  case init
  show ?case
    by (simp add: lock_inv_def no_locks_def counts_ok_def count_ok_def mutexes_ok_def users_def)
qed (rule lock_inv_step)

section \<open>What the locks guarantee\<close>

text \<open>Two goroutines that want the same Mountpoint Pod; the first one got it.\<close>

definition contended :: lock_state where
  "contended = lock_run (map (\<lambda>t. (t, ''mp'')) [1, 1, 2, 1, 2, 2, 1, 2]) no_locks"

lemma contended_state:
  "lock_reachable contended" "pcs contended 1 = Holding ''mp'' 0" "pcs contended 2 = Waiting ''mp'' 0"
proof -
  show "lock_reachable contended"
    unfolding contended_def by (intro lock_run_reachable lock_reachable.init)
  show "pcs contended 1 = Holding ''mp'' 0" by code_simp
  show "pcs contended 2 = Waiting ''mp'' 0" by code_simp
qed

lemma one_holder:
  assumes "lock_reachable s" "pcs s t = Holding n a" "pcs s u = Holding n b"
  shows "t = u"
proof -
  have ok: "mutexes_ok (lock_table s) (pcs s)"
    using lock_inv_reachable [OF assms(1)] by (simp add: lock_inv_def)
  have "mp_pod_locks (lock_table s) n = Some a" "mp_pod_locks (lock_table s) n = Some b"
    using mutexes_okD(1) [OF ok, of t n a] mutexes_okD(1) [OF ok, of u n b] assms(2,3) by simp_all
  then show ?thesis using mutexes_okD(3) [OF ok assms(2)] assms(3) by simp
qed

text \<open>
  The lock excludes. Whatever the interleaving of any number of goroutines, at most one of them is at
  a time between \<^verbatim>\<open>lockMountpointPod\<close> and the call of the function it returned for one
  Mountpoint Pod, also when the lock object was dropped from the map and created anew in between.
\<close>

theorem lock_excludes:
  assumes "lock_reachable s" "pcs s t = Holding n a" "pcs s u = Holding n b"
  shows "t = u"
  using assms by (rule one_holder)

theorem lock_excludes_witness:
  "pcs contended 2 = Waiting ''mp'' 0 \<and> {u. \<exists>b. pcs contended u = Holding ''mp'' b} = {1}"
  using lock_excludes [OF contended_state(1,2)] contended_state(2,3) by blast

text \<open>
  C27: The reference counts are exact. In every reachable state an entry of the map exists exactly for
  the Mountpoint Pods some goroutine is using, its count is the number of these goroutines, and every
  goroutine that waits for a lock or holds it has the object that is in the map. So no object is dropped
  while it is used, none is left behind when the last user is gone, and the branch of
  \<^verbatim>\<open>releaseMPPodLock\<close> for a missing lock is never taken.
\<close>

theorem lock_counts_exact:
  assumes "lock_reachable s"
  shows "case mp_pod_locks (lock_table s) n of
      None \<Rightarrow> users (pcs s) n = {}
    | Some a \<Rightarrow> finite (users (pcs s) n) \<and> users (pcs s) n \<noteq> {} \<and>
        ref_count (lock_heap (lock_table s) a) = int (card (users (pcs s) n)) \<and>
        {b. \<exists>t. points_to (pcs s t) = Some (n, b)} \<subseteq> {a}"
proof -
  have ok: "counts_ok (lock_table s) (pcs s)" "mutexes_ok (lock_table s) (pcs s)"
    using lock_inv_reachable [OF assms] by (simp_all add: lock_inv_def)
  show ?thesis
    using counts_okD(6) [OF ok(1), of n] mutexes_okD(1) [OF ok(2), of _ n]
    by (auto simp: count_ok_def split: option.split)
qed

theorem lock_counts_exact_witness:
  "ref_count (lock_heap (lock_table contended) 0) = int (card (users (pcs contended) ''mp'')) \<and>
   ref_count (lock_heap (lock_table contended) 0) = 2 \<and> users (pcs contended) ''other'' = {}"
proof -
  have "mp_pod_locks (lock_table contended) ''mp'' = Some 0"
    "mp_pod_locks (lock_table contended) ''other'' = None"
    "ref_count (lock_heap (lock_table contended) 0) = 2" by code_simp+
  then show ?thesis
    using lock_counts_exact [OF contended_state(1), of "''mp''"]
      lock_counts_exact [OF contended_state(1), of "''other''"] by simp
qed

lemma some_user_steps:
  assumes "lock_reachable s" "pcs s t \<noteq> Idle"
  shows "\<exists>u s'. pcs s u \<noteq> Idle \<and> lock_step s u s'"
proof (cases "table_owner s")
  case (Some u)
  then have "in_table (pcs s u)"
    using lock_inv_reachable [OF assms(1)] by (auto simp: lock_inv_def)
  then have "pcs s u \<noteq> Idle \<and> lock_next [] u s \<noteq> None"
    by (cases "pcs s u") (auto simp: lock_next_def split: prod.split)
  then show ?thesis using lock_step_next by blast
next
  case None
  show ?thesis
  proof (cases "lock_next [] t s")
    case None
    then obtain n a where w: "pcs s t = Waiting n a" "mutex_locked (lock_heap (lock_table s) a)"
      using \<open>table_owner s = None\<close> assms(2)
      by (cases "pcs s t") (auto simp: lock_next_def split: if_splits prod.splits)
    have ok: "mutexes_ok (lock_table s) (pcs s)"
      using lock_inv_reachable [OF assms(1)] by (simp add: lock_inv_def)
    have "mp_pod_locks (lock_table s) n = Some a" using mutexes_okD(1) [OF ok, of t n a] w(1) by simp
    then obtain u where u: "pcs s u = Holding n a" using mutexes_okD(2) [OF ok] w(2) by blast
    have "pcs s u \<noteq> Idle" by (simp add: u)
    then show ?thesis using lock_step.unlock [OF u] by blast
  qed (use assms(2) lock_step_next in blast)
qed

text \<open>
  The locks do not deadlock. In every reachable state in which some goroutine is inside the lock
  functions or between them, one of those goroutines can make a step, provided the code between lock and
  unlock comes to its end.
\<close>

theorem lock_no_deadlock:
  assumes "lock_reachable s" "pcs s t \<noteq> Idle"
  shows "\<exists>u s'. pcs s u \<noteq> Idle \<and> lock_step s u s'"
  using assms by (rule some_user_steps)

theorem lock_no_deadlock_witness: "\<exists>u s'. pcs contended u \<noteq> Idle \<and> lock_step contended u s'"
  using lock_no_deadlock [OF contended_state(1), of 2] contended_state(3) by simp

end
