(* ===== verification/Pod_Exclusion.thy ===== *)
theory Pod_Exclusion
  imports Mp_Lock Node_Server_Safety
begin

text \<open>
  The node service as a whole: any number of goroutines mount volumes, handle updates of Mountpoint Pods
  and clean up, and share nothing but the locks of the Mountpoint Pods. Their calls interleave with the
  steps inside \<^verbatim>\<open>lockMountpointPod\<close>. Here the guards of the single operations and the exclusion of the
  locks come together.
\<close>

section \<open>The operations as threads\<close>

datatype node_op =
    MountOp world pod_mounter string string provide_ctx args string environment
  | UpdateOp world pod_unmounter pod pod
  | CleanupOp world pod_unmounter

text \<open>The calls of one operation, the latest first; the world may answer in any way.\<close>

fun op_calls :: "node_op \<Rightarrow> nhistory" where
  "op_calls (MountOp w pm b target ctx as g ue) =
     ncalls (snd (run_state (pm_Mount w pm b target ctx as g ue) start_state))"
| "op_calls (UpdateOp w u old p) = ncalls (snd (run_state (HandleMountpointPodUpdate w u old p) start_state))"
| "op_calls (CleanupOp w u) = ncalls (snd (run_state (CleanupDanglingMounts w u) start_state))"

text \<open>A goroutine carries out operations one after the other.\<close>

fun thread_calls :: "node_op list \<Rightarrow> nhistory" where
  "thread_calls [] = []"
| "thread_calls (op # ops) = thread_calls ops @ op_calls op"

definition source_of :: "string \<Rightarrow> string \<Rightarrow> string" where
  "source_of kubeletPath mpPodName = path_join [SourceMountDir kubeletPath, mpPodName]"

text \<open>All work on the directory of one kubelet, and no target lies among the sources.\<close>

fun on_node :: "string \<Rightarrow> node_op \<Rightarrow> bool" where
  "on_node k (MountOp w pm b target ctx as g ue) \<longleftrightarrow> pm_kubelet_path pm = k \<and> target \<notin> range (source_of k)"
| "on_node k (UpdateOp w u old p) \<longleftrightarrow> pu_kubelet_path u = k"
| "on_node k (CleanupOp w u) \<longleftrightarrow> pu_kubelet_path u = k"

fun cleans :: "node_op \<Rightarrow> bool" where
  "cleans (CleanupOp w u) = True" | "cleans op = False"

section \<open>What one goroutine keeps to\<close>

fun touched :: "node_event \<Rightarrow> string option" where
  "touched (NvMount fd src fl opt r) = Some src"
| "touched (NvBindMount src tgt r) = Some src"
| "touched (NvUnmount q r) = Some q"
| "touched e = None"

text \<open>
  A source is mounted, bound or unmounted only under the lock of a Pod whose source it is; a clean-up may also
  unmount it right after it looked up such a Pod and found none. A lock is only taken with no other in
  hand, and only given back when held.
\<close>

definition found_gone :: "node_event \<Rightarrow> string \<Rightarrow> nhistory \<Rightarrow> bool" where
  "found_gone e n h \<longleftrightarrow> (\<exists>q r. e = NvUnmount q r) \<and> last_lookup h = Some (n, Inl (NApi NotFound))"

definition disciplined_call :: "bool \<Rightarrow> string \<Rightarrow> nhistory \<Rightarrow> node_event \<Rightarrow> bool" where
  "disciplined_call sweeps k h e \<longleftrightarrow>
     (\<forall>q. touched e = Some q \<longrightarrow> q \<in> range (source_of k) \<longrightarrow>
        (\<exists>n. q = source_of k n \<and> (holds n h \<or> sweeps \<and> found_gone e n h))) \<and>
     (case e of NvLock n \<Rightarrow> \<forall>m. \<not> holds m h | NvUnlock n \<Rightarrow> holds n h | _ \<Rightarrow> True)"

abbreviation disciplined :: "bool \<Rightarrow> string \<Rightarrow> nhistory \<Rightarrow> bool" where
  "disciplined sweeps k \<equiv> nguarded (disciplined_call sweeps k)"

lemma disciplined_call_sweeps: "disciplined_call False k h e \<Longrightarrow> disciplined_call sweeps k h e"
  by (auto simp: disciplined_call_def)

lemma mount_guard_disciplined:
  assumes "mount_guard pm target ctx g h e" "pm_kubelet_path pm = k" "target \<notin> range (source_of k)"
  shows "disciplined_call sweeps k h e"
  using assms by (cases e) (auto simp: disciplined_call_def mount_guard_def serving_def source_path_def
      source_of_def Let_def)

lemma release_no_touch: "release_guard w source h e \<Longrightarrow> touched e = Some q \<Longrightarrow> q = source"
  by (cases e) (auto simp: release_guard_def)

lemma pod_guard_disciplined:
  assumes "pod_guard w u p h e" "pu_kubelet_path u = k"
  shows "disciplined_call sweeps k h e"
  using assms by (cases e) (auto simp: disciplined_call_def pod_guard_def mountpointPodSourcePath_def
      source_of_def Let_def)

lemma sweep_guard_disciplined:
  assumes "sweep_guard w u h e" "pu_kubelet_path u = k"
  shows "disciplined_call True k h e"
proof -
  consider "touched e = None" "\<not> lock_call e" | p where "pod_guard w u p h e"
    | n where "last_lookup h = Some (n, Inl (NApi NotFound))" "release_guard w (path_join [SourceMountDir k, n]) h e"
    using assms by (auto simp: sweep_guard_def Let_def)
  then show ?thesis
  proof cases
    case 1
    then show ?thesis by (cases e) (auto simp: disciplined_call_def)
  next
    case 2
    then show ?thesis by (rule pod_guard_disciplined [OF _ assms(2)])
  next
    case 3
    then show ?thesis
      by (cases e) (auto simp: disciplined_call_def release_guard_def source_of_def found_gone_def)
  qed
qed

lemma runs_start:
  "runs m R \<Longrightarrow> R (fst (run_state m start_state)) (ncalls (snd (run_state m start_state)))"
proof -
  assume "runs m R"
  then have "wp m (\<lambda>r s'. \<exists>new. s' = start_state\<lparr>ncalls := new @ ncalls start_state\<rparr> \<and> R r new) start_state"
    unfolding runs_def by blast
  then show ?thesis by (auto simp: wp_def start_state_def split: prod.splits)
qed

lemma op_disciplined:
  assumes "on_node k op"
  shows "disciplined (cleans op) k (op_calls op) \<and> (\<forall>n. \<not> holds n (op_calls op))"
proof (cases op)
  case (MountOp w pm b target ctx as g ue)
  then show ?thesis
    using runs_start [OF runs_mount_guarded [of w pm b target ctx as g ue]] assms
    by (auto elim!: nguarded_mono intro: mount_guard_disciplined)
next
  case (UpdateOp w u old p)
  then show ?thesis
    using runs_start [OF runs_update_guarded [of w u old p]] assms
    by (auto elim!: nguarded_mono intro: pod_guard_disciplined)
next
  case (CleanupOp w u)
  then show ?thesis
    using runs_start [OF runs_sweep_guarded [of w u]] assms
    by (auto elim!: nguarded_mono intro: sweep_guard_disciplined)
qed

lemma holds_after: "\<forall>m. \<not> holds m h0 \<Longrightarrow> holds n (h @ h0) \<longleftrightarrow> holds n h"
  by (induction h) (auto split: node_event.split)

lemma disciplined_after:
  assumes "disciplined_call sweeps k h e" "\<forall>m. \<not> holds m h0"
  shows "disciplined_call sweeps k (h @ h0) e"
proof -
  have "found_gone e n h \<Longrightarrow> found_gone e n (h @ h0)" for n
    by (simp add: found_gone_def last_lookup_before)
  then have "\<exists>n. q = source_of k n \<and> (holds n (h @ h0) \<or> sweeps \<and> found_gone e n (h @ h0))"
    if "touched e = Some q" "q \<in> range (source_of k)" for q
    using assms(1) that unfolding disciplined_call_def holds_after [OF assms(2)] by blast
  moreover have "case e of NvLock n \<Rightarrow> \<forall>m. \<not> holds m (h @ h0) | NvUnlock n \<Rightarrow> holds n (h @ h0) | _ \<Rightarrow> True"
    using assms(1) unfolding disciplined_call_def holds_after [OF assms(2)] by blast
  ultimately show ?thesis unfolding disciplined_call_def by blast
qed

lemma disciplined_sweeps: "disciplined b k h \<Longrightarrow> (b \<longrightarrow> sweeps) \<Longrightarrow> disciplined sweeps k h"
  by (cases b; cases sweeps) (auto elim!: nguarded_mono intro: disciplined_call_sweeps)

lemma thread_disciplined:
  "list_all (on_node k) ops \<Longrightarrow>
     disciplined (list_ex cleans ops) k (thread_calls ops) \<and> (\<forall>n. \<not> holds n (thread_calls ops))"
proof (induction ops)
  case (Cons op ops)
  let ?b = "list_ex cleans (op # ops)"
  from Cons have op: "disciplined ?b k (op_calls op)" "\<forall>n. \<not> holds n (op_calls op)"
    and rest: "disciplined ?b k (thread_calls ops)" "\<forall>n. \<not> holds n (thread_calls ops)"
    using op_disciplined [of k op] by (auto elim!: disciplined_sweeps)
  have "nguarded (\<lambda>h. disciplined_call ?b k (h @ op_calls op)) (thread_calls ops)"
    by (rule nguarded_mono [OF rest(1)]) (rule disciplined_after [OF _ op(2)])
  then show ?case using op rest by (simp add: nguarded_append holds_after)
qed simp

section \<open>Goroutines that interleave\<close>

text \<open>What every goroutine still has to call, in order, and what was called by whom, the latest first.\<close>

record node_run =
  run_locks :: lock_state
  todo :: "nat \<Rightarrow> node_event list"
  run_log :: "(nat \<times> node_event) list"

definition log_call :: "nat \<Rightarrow> node_run \<Rightarrow> node_run" where
  "log_call t s =
     (case todo s t of [] \<Rightarrow> s
      | e # es \<Rightarrow> s\<lparr>todo := (todo s)(t := es), run_log := (t, e) # run_log s\<rparr>)"

text \<open>Between two calls that are no lock calls a goroutine is outside the lock functions.\<close>

fun calm :: "lock_pc \<Rightarrow> bool" where
  "calm Idle = True" | "calm (Holding n a) = True" | "calm p = False"

fun inside :: "lock_pc \<Rightarrow> bool" where
  "inside (Getting n) = True" | "inside (InGet n) = True" | "inside (Unlocked n) = True"
| "inside (InRelease n) = True" | "inside p = False"

inductive run_step :: "node_run \<Rightarrow> node_run \<Rightarrow> bool" where
  call: "todo s t = e # es \<Longrightarrow> \<not> lock_call e \<Longrightarrow> calm (pcs (run_locks s) t) \<Longrightarrow> run_step s (log_call t s)"
| enter: "todo s t = NvLock n # es \<Longrightarrow> pcs (run_locks s) t = Idle \<Longrightarrow>
    run_step s (s\<lparr>run_locks := goto t (Getting n) (run_locks s)\<rparr>)"
| internal: "inside (pcs (run_locks s) t) \<Longrightarrow> lock_step (run_locks s) t l \<Longrightarrow>
    run_step s (s\<lparr>run_locks := l\<rparr>)"
| locked: "todo s t = NvLock n # es \<Longrightarrow> pcs (run_locks s) t = Waiting m a \<Longrightarrow> lock_step (run_locks s) t l \<Longrightarrow>
    run_step s (log_call t s\<lparr>run_locks := l\<rparr>)"
| unlocked: "todo s t = NvUnlock n # es \<Longrightarrow> pcs (run_locks s) t = Holding m a \<Longrightarrow> lock_step (run_locks s) t l \<Longrightarrow>
    run_step s (log_call t s\<lparr>run_locks := l\<rparr>)"

inductive_cases run_stepE: "run_step s s'"

definition run_start :: "(nat \<Rightarrow> node_op list) \<Rightarrow> node_run" where
  "run_start threads = \<lparr>run_locks = no_locks, todo = (\<lambda>t. rev (thread_calls (threads t))), run_log = []\<rparr>"

inductive run_reachable :: "(nat \<Rightarrow> node_op list) \<Rightarrow> node_run \<Rightarrow> bool" for threads where
  start: "run_reachable threads (run_start threads)"
| step: "run_reachable threads s \<Longrightarrow> run_step s s' \<Longrightarrow> run_reachable threads s'"

definition called_by :: "nat \<Rightarrow> (nat \<times> node_event) list \<Rightarrow> nhistory" where
  "called_by t l = map snd (filter (\<lambda>x. fst x = t) l)"

lemma called_by_Nil [simp]: "called_by t [] = []"
  by (simp add: called_by_def)

lemma called_by_Cons [simp]: "called_by t ((u, e) # l) = (if u = t then e # called_by t l else called_by t l)"
  by (simp add: called_by_def)

section \<open>One holder, and the calls of the others\<close>

text \<open>What a program counter says of the locks in hand and of the next call.\<close>

fun in_hand :: "lock_pc \<Rightarrow> string option" where
  "in_hand (Holding n a) = Some n" | "in_hand p = None"

fun wants :: "lock_pc \<Rightarrow> string option" where
  "wants (Getting n) = Some n" | "wants (InGet n) = Some n" | "wants (Waiting n a) = Some n" | "wants p = None"

definition threads_ok :: "(nat \<Rightarrow> node_op list) \<Rightarrow> node_run \<Rightarrow> bool" where
  "threads_ok threads s \<longleftrightarrow> lock_reachable (run_locks s) \<and>
     (\<forall>t. rev (todo s t) @ called_by t (run_log s) = thread_calls (threads t) \<and>
        (\<forall>n. holds n (called_by t (run_log s)) \<longleftrightarrow> in_hand (pcs (run_locks s) t) = Some n) \<and>
        (\<forall>n. wants (pcs (run_locks s) t) = Some n \<longrightarrow> (\<exists>es. todo s t = NvLock n # es)))"

lemma lock_step_others: "lock_step l t l' \<Longrightarrow> u \<noteq> t \<Longrightarrow> pcs l' u = pcs l u"
  by (elim lock_stepE) (auto simp: goto_def set_locked_def)

lemma inside_step:
  "lock_step l t l' \<Longrightarrow> inside (pcs l t) \<Longrightarrow>
     in_hand (pcs l' t) = None \<and> (wants (pcs l' t) = wants (pcs l t))"
  by (elim lock_stepE) (auto simp: goto_def set_locked_def)

lemma waiting_step: "lock_step l t l' \<Longrightarrow> pcs l t = Waiting n a \<Longrightarrow> pcs l' t = Holding n a"
  by (elim lock_stepE) (auto simp: goto_def set_locked_def)

lemma holding_step: "lock_step l t l' \<Longrightarrow> pcs l t = Holding n a \<Longrightarrow> pcs l' t = Unlocked n"
  by (elim lock_stepE) (auto simp: goto_def set_locked_def)

lemma next_call:
  assumes "threads_ok threads s" "list_all (on_node k) (threads t)" "todo s t = e # es"
  shows "disciplined_call (list_ex cleans (threads t)) k (called_by t (run_log s)) e"
proof -
  have "rev (todo s t) @ called_by t (run_log s) = thread_calls (threads t)"
    using assms(1) unfolding threads_ok_def by blast
  then have "rev es @ e # called_by t (run_log s) = thread_calls (threads t)"
    using assms(3) by simp
  moreover have "disciplined (list_ex cleans (threads t)) k (thread_calls (threads t))"
    using thread_disciplined [OF assms(2)] by simp
  ultimately have "disciplined (list_ex cleans (threads t)) k (rev es @ e # called_by t (run_log s))" by simp
  then show ?thesis by (simp add: nguarded_append)
qed

lemma log_call_simps:
  assumes "todo s t = e # es"
  shows "run_locks (log_call t s) = run_locks s" "todo (log_call t s) = (todo s)(t := es)"
    "run_log (log_call t s) = (t, e) # run_log s"
  using assms by (simp_all add: log_call_def)

lemma threads_okI:
  assumes "threads_ok threads s" "lock_reachable (run_locks s')"
    and "\<And>u. u \<noteq> t \<Longrightarrow> todo s' u = todo s u \<and> called_by u (run_log s') = called_by u (run_log s) \<and>
      pcs (run_locks s') u = pcs (run_locks s) u"
    and "rev (todo s' t) @ called_by t (run_log s') = rev (todo s t) @ called_by t (run_log s)"
    and "\<And>n. holds n (called_by t (run_log s')) \<longleftrightarrow> in_hand (pcs (run_locks s') t) = Some n"
    and "\<And>n. wants (pcs (run_locks s') t) = Some n \<Longrightarrow> \<exists>es. todo s' t = NvLock n # es"
  shows "threads_ok threads s'"
  unfolding threads_ok_def
proof (intro conjI allI assms(2))
  fix u
  show "rev (todo s' u) @ called_by u (run_log s') = thread_calls (threads u)"
    using assms(1,3,4) by (cases "u = t") (auto simp: threads_ok_def)
  fix n
  show "holds n (called_by u (run_log s')) \<longleftrightarrow> in_hand (pcs (run_locks s') u) = Some n"
    using assms(1,3,5) by (cases "u = t") (auto simp: threads_ok_def)
  show "wants (pcs (run_locks s') u) = Some n \<longrightarrow> (\<exists>es. todo s' u = NvLock n # es)"
    using assms(1,3,6) by (cases "u = t") (auto simp: threads_ok_def)
qed

lemma threads_ok_step:
  assumes "run_step s s'" "threads_ok threads s" "\<And>t. list_all (on_node k) (threads t)"
  shows "threads_ok threads s'"
  using assms(1)
proof cases
  case (call t e es)
  have "holds n (e # h) = holds n h" for n h using call(3) holds_append [of "[e]" n h] by simp
  then show ?thesis
    using assms(2) call(3,4) unfolding call(1)
    by (intro threads_okI [OF assms(2), of _ t]; cases "pcs (run_locks s) t")
      (auto simp: log_call_simps [OF call(2)] threads_ok_def call(2))
next
  case (enter t n es)
  have "lock_step (run_locks s) t (goto t (Getting n) (run_locks s))" by (rule lock_step.call [OF enter(3)])
  then have "lock_reachable (goto t (Getting n) (run_locks s))"
    using assms(2) lock_reachable.step by (auto simp: threads_ok_def)
  then show ?thesis
    using assms(2) enter(2,3) unfolding enter(1)
    by (intro threads_okI [OF assms(2), of _ t]) (auto simp: threads_ok_def goto_def)
next
  case (internal t l)
  have "lock_reachable l" using assms(2) internal(3) lock_reachable.step by (auto simp: threads_ok_def)
  moreover have "in_hand (pcs (run_locks s) t) = None" using internal(2) by (cases "pcs (run_locks s) t") auto
  ultimately show ?thesis
    using assms(2) inside_step [OF internal(3,2)] lock_step_others [OF internal(3)] unfolding internal(1)
    by (intro threads_okI [OF assms(2), of _ t]) (auto simp: threads_ok_def)
next
  case (locked t n es m a l)
  have "lock_reachable l" using assms(2) locked(4) lock_reachable.step by (auto simp: threads_ok_def)
  moreover have "\<exists>es'. todo s t = NvLock m # es'" "\<And>x. \<not> holds x (called_by t (run_log s))"
    using assms(2) locked(3) by (auto simp: threads_ok_def)
  ultimately show ?thesis
    using assms(2) waiting_step [OF locked(4,3)] lock_step_others [OF locked(4)] locked(2) unfolding locked(1)
    by (intro threads_okI [OF assms(2), of _ t]) (auto simp: log_call_simps [OF locked(2)])
next
  case (unlocked t n es m a l)
  have "lock_reachable l" using assms(2) unlocked(4) lock_reachable.step by (auto simp: threads_ok_def)
  moreover have "holds x (called_by t (run_log s)) \<longleftrightarrow> x = m" for x
    using assms(2) unlocked(3) by (auto simp: threads_ok_def)
  moreover have "n = m"
    using next_call [OF assms(2,3) unlocked(2)] calculation(2) by (simp add: disciplined_call_def)
  ultimately show ?thesis
    using assms(2) holding_step [OF unlocked(4,3)] lock_step_others [OF unlocked(4)] unlocked(2) unfolding unlocked(1)
    by (intro threads_okI [OF assms(2), of _ t]) (auto simp: log_call_simps [OF unlocked(2)])
qed

lemma threads_ok_start: "(\<And>t. list_all (on_node k) (threads t)) \<Longrightarrow> threads_ok threads (run_start threads)"
  by (auto simp: threads_ok_def run_start_def no_locks_def lock_reachable.init [unfolded no_locks_def])

lemma threads_ok_reachable:
  assumes "run_reachable threads s" "\<And>t. list_all (on_node k) (threads t)"
  shows "threads_ok threads s"
  using assms(1) by induction (auto intro: threads_ok_start threads_ok_step assms(2))

text \<open>
  Of a log: each call that touches a source is made by the only holder of a lock for it, or it is the
  unmount of a goroutine that cleans up and whose latest lookup of a Pod found no Pod with that source.
\<close>

fun exclusive_log :: "string \<Rightarrow> (nat \<Rightarrow> bool) \<Rightarrow> (nat \<times> node_event) list \<Rightarrow> bool" where
  "exclusive_log k sweeps [] \<longleftrightarrow> True"
| "exclusive_log k sweeps ((t, e) # l) \<longleftrightarrow>
     (\<forall>q. touched e = Some q \<longrightarrow> q \<in> range (source_of k) \<longrightarrow>
        (\<exists>n. q = source_of k n \<and>
           ({u. holds n (called_by u l)} = {t} \<or> sweeps t \<and> found_gone e n (called_by t l)))) \<and>
     exclusive_log k sweeps l"

text \<open>The periodic clean-up has a goroutine of its own, in which nothing else is done.\<close>

definition cleans_alone :: "node_op list \<Rightarrow> bool" where
  "cleans_alone ops \<longleftrightarrow> list_all cleans ops \<or> \<not> list_ex cleans ops"

definition sweeper :: "node_op list \<Rightarrow> bool" where
  "sweeper ops \<longleftrightarrow> ops \<noteq> [] \<and> list_all cleans ops"

lemma sweeper_iff: "cleans_alone ops \<Longrightarrow> sweeper ops \<longleftrightarrow> list_ex cleans ops"
  by (cases ops) (auto simp: cleans_alone_def sweeper_def list_all_iff list_ex_iff)

lemma only_holder:
  assumes "threads_ok threads s" "holds n (called_by t (run_log s))"
  shows "{u. holds n (called_by u (run_log s))} = {t}"
proof -
  have "u = t" if "holds n (called_by u (run_log s))" for u
  proof -
    have "in_hand (pcs (run_locks s) u) = Some n" "in_hand (pcs (run_locks s) t) = Some n"
      using assms that by (simp_all add: threads_ok_def)
    then obtain a b where "pcs (run_locks s) u = Holding n a" "pcs (run_locks s) t = Holding n b"
      by (cases "pcs (run_locks s) u"; cases "pcs (run_locks s) t") auto
    moreover have "lock_reachable (run_locks s)" using assms(1) by (simp add: threads_ok_def)
    ultimately show ?thesis using one_holder by blast
  qed
  with assms(2) show ?thesis by blast
qed

lemma exclusive_log_call:
  assumes ok: "threads_ok threads s" "list_all (on_node k) (threads t)"
    and e: "todo s t = e # es"
    and log: "exclusive_log k (\<lambda>t. list_ex cleans (threads t)) (run_log s)"
  shows "exclusive_log k (\<lambda>t. list_ex cleans (threads t)) (run_log (log_call t s))"
proof -
  have "\<exists>n. q = source_of k n \<and> ({u. holds n (called_by u (run_log s))} = {t} \<or>
      list_ex cleans (threads t) \<and> found_gone e n (called_by t (run_log s)))"
    if "touched e = Some q" "q \<in> range (source_of k)" for q
    using next_call [OF ok e] only_holder [OF ok(1)] that unfolding disciplined_call_def by blast
  with log show ?thesis by (simp add: log_call_simps [OF e])
qed

lemma exclusive_log_reachable:
  assumes "run_reachable threads s" "\<And>t. list_all (on_node k) (threads t)"
  shows "exclusive_log k (\<lambda>t. list_ex cleans (threads t)) (run_log s)"
  using assms(1)
proof induction
  case start
  then show ?case by (simp add: run_start_def)
next
  case (step s s')
  note ok = threads_ok_reachable [OF step(1) assms(2)]
  note call = exclusive_log_call [OF ok assms(2) _ step(3)]
  from step(2) show ?case by cases (use call step(3) in auto)
qed

text \<open>
  C25: Mounting a volume and unmounting a marked Mountpoint Pod exclude each other. Let any number of
  goroutines mount volumes and handle updates of Pods, and others clean up periodically, in any order and
  interleaving, with any answers of the system. Whenever a goroutine that mounts or handles updates mounts, binds
  or unmounts a source, it is the only one of all that is between taking and giving back the lock of a Pod with
  that source. The same holds of a goroutine that cleans up, with one exception, in which the code takes no
  lock: the unmount of a source when its latest lookup of a Pod was for that source and found none. That
  lookup is all that guards this unmount, which others may interleave with.
\<close>

theorem sources_touched_exclusively:
  assumes "run_reachable threads s" "\<And>t. list_all (on_node k) (threads t)" "\<And>t. cleans_alone (threads t)"
  shows "exclusive_log k (\<lambda>t. sweeper (threads t)) (run_log s)"
  using exclusive_log_reachable [OF assms(1,2)] unfolding sweeper_iff [OF assms(3)] .

text \<open>A Pod update and a clean-up at the same time, for a Mountpoint Pod that is marked.\<close>

definition marked_pod :: pod where
  "marked_pod = example_mountpoint_pod\<lparr>node_name := ''node-1'',
     pod_annotations := Some (Map.empty(AnnotationNeedsUnmount \<mapsto> ''true''))\<rparr>"

definition example_unmounter :: pod_unmounter where
  "example_unmounter = \<lparr>pu_node_id = ''node-1'', pu_kubelet_path = ''/var/lib/kubelet''\<rparr>"

definition example_threads :: "nat \<Rightarrow> node_op list" where
  "example_threads t =
     (let w = example_world (\<lambda>k. [])
      in if t = 0 then [CleanupOp w example_unmounter]
         else if t = 1 then [UpdateOp w example_unmounter marked_pod marked_pod] else [])"

lemma example_on_node: "list_all (on_node ''/var/lib/kubelet'') (example_threads t)"
  by (simp add: example_threads_def example_unmounter_def Let_def)

lemma example_cleans_alone: "cleans_alone (example_threads t)"
  by (simp add: example_threads_def cleans_alone_def Let_def)

lemma example_sweeper: "sweeper (example_threads t) \<longleftrightarrow> t = 0"
  by (simp add: example_threads_def sweeper_def Let_def)

lemma locked_calls: "ncalls (snd (run_state (with_pod_lock n m) s)) \<noteq> []"
  by (simp add: with_pod_lock_def node_call_def split: prod.split)

lemma update_calls:
  assumes "node_name p = pu_node_id u" "marked_for_unmount p"
  shows "op_calls (UpdateOp w u old p) \<noteq> []"
proof -
  have "HandleMountpointPodUpdate w u old p = with_pod_lock (pod_name p) (cleanUnmount w u p)"
    using assms by (simp add: HandleMountpointPodUpdate_def unmountMountpointPodIfNeeded_def)
  then show ?thesis unfolding op_calls.simps by (simp only: locked_calls not_False_eq_True)
qed

lemma example_calls: "thread_calls (example_threads 1) \<noteq> []"
proof -
  have "node_name marked_pod = pu_node_id example_unmounter" "marked_for_unmount marked_pod"
    by (simp_all add: marked_pod_def example_unmounter_def marked_for_unmount_def go_lookup_nil_def go_lookup_def)
  from update_calls [OF this] have "op_calls (UpdateOp (example_world (\<lambda>k. [])) example_unmounter marked_pod marked_pod) \<noteq> []" .
  moreover have "example_threads 1 = [UpdateOp (example_world (\<lambda>k. [])) example_unmounter marked_pod marked_pod]"
    by (simp only: example_threads_def Let_def one_neq_zero if_False if_True simp_thms(6))
  ultimately show ?thesis by (simp only: thread_calls.simps append_Nil not_False_eq_True)
qed

theorem sources_touched_exclusively_witness:
  "run_start example_threads \<in> {s. run_reachable example_threads s} \<and>
   {s. run_reachable example_threads s} \<subseteq> {s. exclusive_log ''/var/lib/kubelet'' (\<lambda>t. t = 0) (run_log s)}"
proof (intro conjI subsetI CollectI run_reachable.start)
  fix s assume "s \<in> {s. run_reachable example_threads s}"
  then have "run_reachable example_threads s" by (rule CollectD)
  from sources_touched_exclusively [OF this example_on_node example_cleans_alone]
  show "exclusive_log ''/var/lib/kubelet'' (\<lambda>t. t = 0) (run_log s)"
    by (simp add: example_sweeper)
qed

section \<open>Progress\<close>

lemma holder_steps:
  assumes ok: "threads_ok threads s" "list_all (on_node k) (threads t)"
    and held: "pcs (run_locks s) t = Holding n a" and step: "lock_step (run_locks s) t l"
  shows "\<exists>s'. run_step s s'"
proof -
  have h: "holds m (called_by t (run_log s)) \<longleftrightarrow> m = n" for m using ok(1) held by (auto simp: threads_ok_def)
  have "rev (todo s t) @ called_by t (run_log s) = thread_calls (threads t)"
    using ok(1) unfolding threads_ok_def by blast
  then have "todo s t \<noteq> []" using thread_disciplined [OF ok(2)] h by (metis append_self_conv2 rev.simps(1))
  then obtain e es where e: "todo s t = e # es" by (cases "todo s t") auto
  show ?thesis
  proof (cases "lock_call e")
    case False
    then show ?thesis using run_step.call [OF e] held by auto
  next
    case True
    have "disciplined_call (list_ex cleans (threads t)) k (called_by t (run_log s)) e" by (rule next_call [OF ok e])
    with True h obtain m where "e = NvUnlock m"
      by (cases e) (auto simp: disciplined_call_def)
    then show ?thesis using run_step.unlocked [OF _ held step] e by blast
  qed
qed

lemma idle_steps:
  assumes ok: "threads_ok threads s" "list_all (on_node k) (threads t)"
    and idle: "pcs (run_locks s) t = Idle" and e: "todo s t = e # es"
  shows "\<exists>s'. run_step s s'"
proof (cases "lock_call e")
  case False
  then show ?thesis using run_step.call [OF e] idle by auto
next
  case True
  have "\<not> holds m (called_by t (run_log s))" for m using ok(1) idle by (simp add: threads_ok_def)
  with next_call [OF ok e] True obtain m where "e = NvLock m"
    by (cases e) (auto simp: disciplined_call_def)
  then show ?thesis using run_step.enter e idle by blast
qed

lemma node_progress:
  assumes "run_reachable threads s" "\<And>t. list_all (on_node k) (threads t)" "todo s t \<noteq> []"
  shows "\<exists>s'. run_step s s'"
proof (cases "\<forall>u. pcs (run_locks s) u = Idle")
  case True
  then show ?thesis
    using idle_steps [OF threads_ok_reachable [OF assms(1,2)] assms(2)] assms(3) by (cases "todo s t") auto
next
  case False
  note ok = threads_ok_reachable [OF assms(1,2)]
  then have "lock_reachable (run_locks s)" by (simp add: threads_ok_def)
  from some_user_steps [OF this] False obtain u l
    where u: "pcs (run_locks s) u \<noteq> Idle" "lock_step (run_locks s) u l" by blast
  show ?thesis
  proof (cases "pcs (run_locks s) u")
    case (Waiting n a)
    then have "\<exists>es. todo s u = NvLock n # es" using ok by (auto simp: threads_ok_def)
    then show ?thesis using run_step.locked [OF _ Waiting u(2)] by blast
  next
    case (Holding n a)
    then show ?thesis by (rule holder_steps [OF ok assms(2) _ u(2)])
  qed (use u run_step.internal [OF _ u(2)] in auto)
qed

text \<open>
  C26: The node never gets stuck on the locks of its Mountpoint Pods. In every state such goroutines can
  reach, as long as one of them has a call left to make, some goroutine can make a step: none waits for a
  lock that nobody gives back, none tries to take a second lock or to give back one it does not have.
\<close>

theorem node_never_stuck:
  assumes "run_reachable threads s" "\<And>t. list_all (on_node k) (threads t)" "todo s t \<noteq> []"
  shows "\<exists>s'. run_step s s'"
  using assms by (rule node_progress)

theorem node_never_stuck_witness: "\<exists>s'. run_step (run_start example_threads) s'"
proof -
  have "todo (run_start example_threads) 1 \<noteq> []" using example_calls by (simp add: run_start_def)
  then show ?thesis by (rule node_never_stuck [OF run_reachable.start example_on_node])
qed

end
