(* ===== verification/Attachment_Lookup.thy ===== *)
theory Attachment_Lookup
  imports Publish_Args Controller_Pending
begin

text \<open>
  The controller and the node service agree on a \<^verbatim>\<open>MountpointS3PodAttachment\<close>: the controller
  selects and creates attachments with one set of filters, the node looks them up with another one, made
  from what the kubelet tells it about the workload and the volume. And the node may ask the API server
  for its own attachments only, if the cluster supports that (\<^verbatim>\<open>pkg/driver/driver.go\<close>).
\<close>

section \<open>The cache of the node\<close>

definition GroupVersion_Version :: string where "GroupVersion_Version = ''v2''"
definition SelectableFieldNodeNameJSONPath :: string where "SelectableFieldNodeNameJSONPath = ''.spec.nodeName''"

record crd_version =
  crd_version_name :: string
  selectable_fields :: "string list"       \<comment> \<open>their JSON paths\<close>

datatype setup_error = CrdNotRead | CrdVersionMissing

text \<open>The definition of the resource, or an error of the client.\<close>

definition checkIfMountpointS3PodAttachmentHasNodeNameSelectableFieldInCurrentVersion ::
    "crd_version list option \<Rightarrow> setup_error + bool" where
  "checkIfMountpointS3PodAttachmentHasNodeNameSelectableFieldInCurrentVersion crd =
     (case crd of
        None \<Rightarrow> Inl CrdNotRead
      | Some versions \<Rightarrow>
          (case find (\<lambda>v. crd_version_name v = GroupVersion_Version) versions of
             None \<Rightarrow> Inl CrdVersionMissing
           | Some v \<Rightarrow> Inr (list_ex (\<lambda>f. f = SelectableFieldNodeNameJSONPath) (selectable_fields v))))"

text \<open>Which attachments the cache holds; an error ends the process.\<close>

definition setupS3PodAttachmentCache :: "crd_version list option \<Rightarrow> string \<Rightarrow> setup_error + (s3pa \<Rightarrow> bool)" where
  "setupS3PodAttachmentCache crd nodeID =
     (case checkIfMountpointS3PodAttachmentHasNodeNameSelectableFieldInCurrentVersion crd of
        Inl e \<Rightarrow> Inl e
      | Inr isSelectFieldsSupported \<Rightarrow>
          Inr (if isSelectFieldsSupported then (\<lambda>a. sp_node_name a = nodeID) else (\<lambda>a. True)))"

lemma node_filter: "matches_fields (attachment_filters_for pm v c g) a \<Longrightarrow> sp_node_name a = pm_node_id pm"
  by (simp add: matches_fields_def attachment_filters_for_def getIndexFields_def field_consts)

definition example_node :: pod_mounter where
  "example_node = \<lparr>pm_kubelet_path = ''/var/lib/kubelet'', pm_kubernetes_version = ''v1.33'',
     pm_variant = DefaultKubernetes, pm_node_id = ''node'', pm_driver_version = ''2.0.0'',
     pm_arg_walk = id, pm_env_range = id\<rparr>"

definition example_request :: publish_request where
  "example_request = \<lparr>pr_volume_id = ''vol'', pr_publish_context = [], pr_staging_target_path = [],
     pr_target_path = ''/var/lib/kubelet/pods/u1/volumes/kubernetes.io~csi/pv/mount'',
     pr_volume_capability = None, pr_readonly = False, pr_secrets = [],
     pr_volume_context = [(BucketName, ''bucket''), (CSIPodUID, ''u1''),
       (CSIPodNamespace, ''default''), (CSIServiceAccountName, ''default'')]\<rparr>"

definition example_capability :: volume_capability where
  "example_capability = \<lparr>cap_access_mode = Some MultiNodeMultiWriter,
     cap_mount = Some \<lparr>cap_flags = [''allow-delete''], cap_mount_group = []\<rparr>\<rparr>"

definition example_ctx :: provide_ctx where
  "example_ctx = credentialProvideContextFromPublishRequest id example_request []"

text \<open>
  C15: It does not matter whether the API server filters. A node that caches only its own attachments and
  one that caches those of the whole cluster look up the same attachments, for every volume and workload,
  in the same order.
\<close>

theorem node_cache_equivalent:
  assumes "setupS3PodAttachmentCache crd (pm_node_id pm) = Inr cached"
  shows "filter (matches_fields (attachment_filters_for pm v c g)) (filter cached items) =
    filter (matches_fields (attachment_filters_for pm v c g)) items"
  using assms node_filter
  by (auto simp: setupS3PodAttachmentCache_def split: sum.splits if_splits intro!: filter_cong)

theorem node_cache_equivalent_witness:
  "let crd = [\<lparr>crd_version_name = ''v1'', selectable_fields = []\<rparr>,
         \<lparr>crd_version_name = ''v2'', selectable_fields = [''.spec.nodeName'']\<rparr>];
       other = example_attachment\<lparr>sp_name := ''s3pa-2'', sp_node_name := ''elsewhere''\<rparr>;
       items = [other, example_attachment];
       mine = matches_fields (attachment_filters_for example_node ''pv'' example_ctx [])
   in \<exists>cached. setupS3PodAttachmentCache (Some crd) ''node'' = Inr cached \<and>
        filter cached items = [example_attachment] \<and> filter mine [example_attachment] = filter mine items"
proof -
  let ?crd = "[\<lparr>crd_version_name = ''v1'', selectable_fields = []\<rparr>,
      \<lparr>crd_version_name = ''v2'', selectable_fields = [''.spec.nodeName'']\<rparr>]"
  let ?items = "[example_attachment\<lparr>sp_name := ''s3pa-2'', sp_node_name := ''elsewhere''\<rparr>, example_attachment]"
  have c: "setupS3PodAttachmentCache (Some ?crd) ''node'' = Inr (\<lambda>a. sp_node_name a = ''node'')"
    by (simp add: setupS3PodAttachmentCache_def GroupVersion_Version_def SelectableFieldNodeNameJSONPath_def
        checkIfMountpointS3PodAttachmentHasNodeNameSelectableFieldInCurrentVersion_def)
  have f: "filter (\<lambda>a. sp_node_name a = ''node'') ?items = [example_attachment]"
    by (simp add: example_attachment_def)
  have "pm_node_id example_node = ''node''" by (simp add: example_node_def)
  with node_cache_equivalent [of "Some ?crd" example_node, of _ "''pv''" example_ctx "[]" ?items] c f
  show ?thesis unfolding Let_def by (intro exI [of _ "\<lambda>a. sp_node_name a = ''node''"]) simp
qed

text \<open>What the kubelet tells the node about a workload and a volume.\<close>

definition kubelet_request :: "publish_request \<Rightarrow> volume_capability \<Rightarrow> pod \<Rightarrow> pv \<Rightarrow> csi_source \<Rightarrow> string \<Rightarrow> bool" where
  "kubelet_request req cap w p csi g \<longleftrightarrow>
     pr_volume_id req = volume_handle csi \<and> mount_group cap = g \<and>
     volume_ctx req AuthenticationSourceKey = go_lookup (ExtractVolumeAttributes p) AuthenticationSourceKey \<and>
     volume_ctx req CSIPodUID = pod_uid w \<and> pod_uid w \<noteq> [] \<and>
     volume_ctx req CSIPodNamespace = pod_namespace w \<and>
     volume_ctx req CSIServiceAccountName = getServiceAccountName w"

lemma plan_ctx:
  assumes "plan_mount parseq walk ord req b t cap = Inr pl"
  shows "pl_target pl = t \<and> pl_fs_group pl = mount_group cap \<and>
    (\<exists>as. pl_ctx pl = credentialProvideContextFromPublishRequest walk req as)"
  using assms
  by (auto simp: plan_mount_def Let_def apply_fs_group_def mount_group_def
      split: if_splits sum.splits option.splits prod.splits)

lemma plan_filters:
  assumes req: "kubelet_request req cap w p csi g" and csi: "pv_csi p = Some csi"
    and plan: "plan_mount parseq walk ord req b t cap = Inr pl" and node: "pm_node_id pm = node_name w"
  shows "pc_workload_pod_id (pl_ctx pl) = pod_uid w"
    "attachment_filters_for pm (pv_name p) (pl_ctx pl) (pl_fs_group pl) =
      [(FieldNodeName, node_name w), (FieldPersistentVolumeName, pv_name p),
       (FieldVolumeID, volume_handle csi), (FieldWorkloadFSGroup, g), (FieldAuthenticationSource, getAuthSource p)] @
      (if getAuthSource p = AuthenticationSourcePod then
         [(FieldWorkloadNamespace, pod_namespace w), (FieldWorkloadServiceAccountName, getServiceAccountName w)]
       else [])"
proof -
  obtain as where ctx: "pl_ctx pl = credentialProvideContextFromPublishRequest walk req as" "pl_fs_group pl = g"
    using plan_ctx [OF plan] req by (auto simp: kubelet_request_def)
  show "pc_workload_pod_id (pl_ctx pl) = pod_uid w"
    using req by (simp add: ctx credentialProvideContextFromPublishRequest_def kubelet_request_def Let_def)
  have "pc_authentication_source (pl_ctx pl) = getAuthSource p"
    using req by (simp add: ctx credentialProvideContextFromPublishRequest_def kubelet_request_def Let_def getAuthSource_def)
  with req node show "attachment_filters_for pm (pv_name p) (pl_ctx pl) (pl_fs_group pl) =
      [(FieldNodeName, node_name w), (FieldPersistentVolumeName, pv_name p),
       (FieldVolumeID, volume_handle csi), (FieldWorkloadFSGroup, g), (FieldAuthenticationSource, getAuthSource p)] @
      (if getAuthSource p = AuthenticationSourcePod then
         [(FieldWorkloadNamespace, pod_namespace w), (FieldWorkloadServiceAccountName, getServiceAccountName w)]
       else [])"
    by (simp add: attachment_filters_for_def ctx(2)) 
      (simp add: ctx credentialProvideContextFromPublishRequest_def kubelet_request_def Let_def)
qed

lemma fewer_filters: "set f' \<subseteq> set f \<Longrightarrow> matches_fields f a \<Longrightarrow> matches_fields f' a"
  by (auto simp: matches_fields_def)

text \<open>The workload is assigned to one Mountpoint Pod, in one attachment of a listing.\<close>

definition assigned_only :: "s3pa list \<Rightarrow> string \<Rightarrow> s3pa \<Rightarrow> string \<Rightarrow> bool" where
  "assigned_only items uid a mpPodName \<longleftrightarrow> a \<in> set items \<and>
     (\<forall>b m. b \<in> set items \<and> m \<in> fst ` set (sp_attachments b) \<longrightarrow>
        (uid \<in> uids_at (sp_attachments b) m \<longleftrightarrow> b = a \<and> m = mpPodName))"

lemma find_unique: "x \<in> set xs \<Longrightarrow> (\<And>y. y \<in> set xs \<Longrightarrow> P y \<longleftrightarrow> y = x) \<Longrightarrow> find P xs = Some x"
  by (induction xs) auto

lemma find_assigned:
  assumes "assigned_only items uid a m" "m \<in> fst ` set (sp_attachments a)"
  shows "find_in_list ord uid items = Some (a, m)"
proof -
  have uid: "list_ex (\<lambda>att. workload_pod_uid att = uid) (alookup (sp_attachments b) k) \<longleftrightarrow>
      uid \<in> uids_at (sp_attachments b) k" for b k
    by (auto simp: uids_at_def workload_uids_def list_ex_iff)
  have mine: "find_assignment ord uid a = Some (a, m)"
  proof -
    have "find (\<lambda>k. uid \<in> uids_at (sp_attachments a) k) (go_range ord (map fst (sp_attachments a))) = Some m"
      using assms by (intro find_unique) (auto simp: assigned_only_def)
    then show ?thesis by (simp add: find_assignment_def uid)
  qed
  have other: "find_assignment ord uid b = None" if "b \<in> set items" "b \<noteq> a" for b
    using assms(1) that by (auto simp: find_assignment_def uid find_None_iff assigned_only_def)
  have "a \<in> set xs \<Longrightarrow> set xs \<subseteq> set items \<Longrightarrow> find_in_list ord uid xs = Some (a, m)" for xs
  proof (induction xs)
    case (Cons x xs)
    then show ?case using mine other [of x] by (cases "x = a") auto
  qed simp
  then show ?thesis using assms(1) by (simp add: assigned_only_def)
qed

text \<open>
  C14: The node finds the Mountpoint Pod the controller assigned. Take any attachment that the controller
  selects for a workload and a volume, among them every one it creates for them, which records that the
  workload is assigned to a Mountpoint Pod, and to no other one. Then the filters the node computes from
  what the kubelet tells it select this attachment from any listing, although they say nothing of the
  mount options and the role, and the node takes that Mountpoint Pod, in whatever order it walks the maps.
\<close>

theorem node_finds_assigned_pod:
  assumes controller: "buildFieldFilters w p role = Inr f" "getFSGroup w = Inr g" "pv_csi p = Some csi"
    and selected: "matches_fields f a"
    and kubelet: "kubelet_request req cap w p csi g" "pm_node_id pm = node_name w"
    and plan: "plan_mount parseq walk ord req b t cap = Inr pl"
    and assigned: "assigned_only items (pod_uid w) a m" "m \<in> fst ` set (sp_attachments a)"
  shows "find_in_list ord' (pc_workload_pod_id (pl_ctx pl))
      (filter (matches_fields (attachment_filters_for pm (pv_name p) (pl_ctx pl) (pl_fs_group pl))) items) =
    Some (a, m)"
proof -
  let ?filters = "attachment_filters_for pm (pv_name p) (pl_ctx pl) (pl_fs_group pl)"
  have "f = [(FieldNodeName, node_name w), (FieldPersistentVolumeName, pv_name p),
        (FieldVolumeID, volume_handle csi), (FieldMountOptions, join_with '','' (pv_mount_options p)),
        (FieldWorkloadFSGroup, g), (FieldAuthenticationSource, getAuthSource p)] @
       (if getAuthSource p = AuthenticationSourcePod then
          [(FieldWorkloadNamespace, pod_namespace w), (FieldWorkloadServiceAccountName, getServiceAccountName w),
           (FieldWorkloadServiceAccountIAMRoleARN, role)] else [])"
    using controller by (simp add: buildFieldFilters_def Let_def)
  then have "set ?filters \<subseteq> set f"
    unfolding plan_filters(2) [OF kubelet(1) controller(3) plan kubelet(2)] by auto
  then have "matches_fields ?filters a" by (rule fewer_filters [OF _ selected])
  with assigned(1) have "assigned_only (filter (matches_fields ?filters) items) (pod_uid w) a m"
    by (simp add: assigned_only_def)
  then show ?thesis
    unfolding plan_filters(1) [OF kubelet(1) controller(3) plan kubelet(2)]
    by (rule find_assigned [OF _ assigned(2)])
qed

theorem node_finds_assigned_pod_witness:
  "\<exists>pl. plan_mount (\<lambda>s. Inl []) id id example_request ''bucket'' ''/t'' example_capability = Inr pl \<and>
     find_in_list rev (pc_workload_pod_id (pl_ctx pl))
       (filter (matches_fields (attachment_filters_for example_node ''pv'' (pl_ctx pl) (pl_fs_group pl)))
         [example_attachment]) = Some (example_attachment, ''mp-1'')"
proof -
  let ?f = "[(FieldNodeName, ''node''), (FieldPersistentVolumeName, ''pv''), (FieldVolumeID, ''vol''),
      (FieldMountOptions, ''allow-delete''), (FieldWorkloadFSGroup, []), (FieldAuthenticationSource, ''driver'')]"
  have c: "buildFieldFilters example_workload example_pv [] = Inr ?f"
    by (simp add: buildFieldFilters_def getAuthSource_def getFSGroup_def ExtractVolumeAttributes_def
        go_lookup_def example_defs auth_source_consts)
  have g: "getFSGroup example_workload = Inr []" "pv_csi example_pv = Some example_csi"
    by (simp_all add: getFSGroup_def example_workload_def example_pv_def)
  have m: "matches_fields ?f example_attachment"
    by (simp add: matches_fields_def getIndexFields_def field_consts example_attachment_def)
  have k: "kubelet_request example_request example_capability example_workload example_pv example_csi []"
    by code_simp
  have "\<not> isl (plan_mount (\<lambda>s. Inl []) id id example_request ''bucket'' ''/t'' example_capability)"
    by code_simp
  then obtain pl where pl: "plan_mount (\<lambda>s. Inl []) id id example_request ''bucket'' ''/t'' example_capability = Inr pl"
    by (metis isl_def sum.exhaust)
  have a: "assigned_only [example_attachment] (pod_uid example_workload) example_attachment ''mp-1''"
    "''mp-1'' \<in> fst ` set (sp_attachments example_attachment)"
    by (auto simp: assigned_only_def uids_at_def workload_uids_def alookup_def example_attachment_def example_workload_def)
  have n: "pm_node_id example_node = node_name example_workload" "pv_name example_pv = ''pv''"
    by (simp_all add: example_node_def example_workload_def example_pv_def)
  show ?thesis
    using node_finds_assigned_pod [OF c g m k n(1) pl a, of rev] unfolding n(2)
    by (intro exI [of _ pl] conjI pl)
qed

end
