(* ===== verification/Node_Taint.thy ===== *)
theory Node_Taint
  imports Csi_Prelude
begin

text \<open>
  The taint of a node that is not ready (\<^verbatim>\<open>pkg/driver/node/taint.go\<close>): a watcher removes it once the driver
  is registered. The other writers of the node, a second attempt of the same watcher among them, may
  change it before each call of an attempt; the API server decides over the patches.
\<close>

section \<open>The node and its other writers\<close>

definition AgentNotReadyNodeTaintKey :: string where
  "AgentNotReadyNodeTaintKey = ''s3.csi.aws.com/agent-not-ready''"

definition csiDriverName :: string where "csiDriverName = ''s3.csi.aws.com''"

record taint =
  taint_key :: string
  taint_value :: string
  taint_effect :: string
  taint_time :: "int option"

record knode =
  kn_name :: string
  kn_taints :: "taint list"

text \<open>A slice is marshalled as null when it is nil.\<close>

record json_patch =
  patch_op :: string
  patch_path :: string
  patch_value :: "taint list option"

text \<open>What is stored of a node: its taints and the drivers of its \<^verbatim>\<open>CSINode\<close>.\<close>

record stored_node =
  stored_taints :: "taint list"
  stored_drivers :: "string list"

datatype node_call =
    ReadDrivers "string list option"                  \<comment> \<open>None: the read failed\<close>
  | PatchNode "taint list" "taint list option"        \<comment> \<open>the taints before, and after if it was accepted\<close>
  | BackOff

type_synonym node_calls = "node_call list"

record taint_state =
  taint_node :: stored_node
  taint_calls :: node_calls

record taint_world =
  has_clientset :: bool
  other_writers :: "node_calls \<Rightarrow> stored_node \<Rightarrow> stored_node"
  read_fails :: "node_calls \<Rightarrow> bool"
  api_patch :: "node_calls \<Rightarrow> json_patch list \<Rightarrow> taint list \<Rightarrow> taint list option"
  watch_expired :: "node_calls \<Rightarrow> bool"

definition others_write :: "taint_world \<Rightarrow> taint_state \<Rightarrow> taint_state" where
  "others_write w s = s\<lparr>taint_node := other_writers w (taint_calls s) (taint_node s)\<rparr>"

definition record_call :: "node_call \<Rightarrow> taint_state \<Rightarrow> taint_state" where
  "record_call c s = s\<lparr>taint_calls := taint_calls s @ [c]\<rparr>"

section \<open>One attempt\<close>

definition hasNotReadyTaint :: "knode \<Rightarrow> bool" where
  "hasNotReadyTaint n = list_ex (\<lambda>t. taint_key t = AgentNotReadyNodeTaintKey) (kn_taints n)"

definition checkDriverRegistered :: "taint_world \<Rightarrow> taint_state \<Rightarrow> bool \<times> taint_state" where
  "checkDriverRegistered w s =
     (let s = others_write w s
      in if read_fails w (taint_calls s) then (False, record_call (ReadDrivers None) s)
         else let drivers = stored_drivers (taint_node s)
              in (list_ex (\<lambda>d. d = csiDriverName) drivers, record_call (ReadDrivers (Some drivers)) s))"

definition taints_to_keep :: "taint list \<Rightarrow> taint list" where
  "taints_to_keep ts = filter (\<lambda>t. taint_key t \<noteq> AgentNotReadyNodeTaintKey) ts"

definition patchRemoveTaints :: "knode \<Rightarrow> json_patch list" where
  "patchRemoveTaints n =
     (let nil_or = (\<lambda>ts. if ts = [] then None else Some ts)
      in [\<lparr>patch_op = ''test'', patch_path = ''/spec/taints'', patch_value = Some (kn_taints n)\<rparr>,
          \<lparr>patch_op = ''replace'', patch_path = ''/spec/taints'',
            patch_value = nil_or (taints_to_keep (kn_taints n))\<rparr>])"

text \<open>The patch goes to the API server, which sees the node as it is by then.\<close>

definition send_patch :: "taint_world \<Rightarrow> json_patch list \<Rightarrow> taint_state \<Rightarrow> bool \<times> taint_state" where
  "send_patch w patch s =
     (let s = others_write w s; before = stored_taints (taint_node s);
          result = api_patch w (taint_calls s) patch before;
          s = record_call (PatchNode before result) s
      in case result of
           None \<Rightarrow> (False, s)
         | Some after \<Rightarrow> (True, s\<lparr>taint_node := (taint_node s)\<lparr>stored_taints := after\<rparr>\<rparr>))"

definition removeNotReadyTaint :: "taint_world \<Rightarrow> knode \<Rightarrow> taint_state \<Rightarrow> bool \<times> taint_state" where
  "removeNotReadyTaint w n s =
     (if \<not> has_clientset w then (True, s)
      else if length (taints_to_keep (kn_taints n)) = length (kn_taints n) then (True, s)
      else send_patch w (patchRemoveTaints n) s)"

definition try_removal :: "taint_world \<Rightarrow> knode \<Rightarrow> taint_state \<Rightarrow> bool \<times> taint_state" where
  "try_removal w n s =
     (case checkDriverRegistered w s of
        (False, s) \<Rightarrow> (False, s)
      | (True, s) \<Rightarrow> removeNotReadyTaint w n s)"

text \<open>
  At most so many tries, with a pause between two of them, until one says that it is done or the context
  is: the documented behaviour of \<^verbatim>\<open>wait.ExponentialBackoffWithContext\<close>.
\<close>

fun backoff_tries :: "taint_world \<Rightarrow> knode \<Rightarrow> nat \<Rightarrow> taint_state \<Rightarrow> bool \<times> taint_state" where
  "backoff_tries w n 0 s = (False, s)"
| "backoff_tries w n (Suc k) s =
     (if watch_expired w (taint_calls s) then (False, s)
      else case try_removal w n s of
          (True, s) \<Rightarrow> (True, s)
        | (False, s) \<Rightarrow>
            if k = 0 then (False, s)
            else if watch_expired w (taint_calls s) then (False, s)
            else backoff_tries w n k (record_call BackOff s))"

definition removal_steps :: nat where "removal_steps = 5"

definition attemptTaintRemoval :: "taint_world \<Rightarrow> knode \<Rightarrow> taint_state \<Rightarrow> taint_state" where
  "attemptTaintRemoval w n s =
     (if \<not> hasNotReadyTaint n then s else snd (backoff_tries w n removal_steps s))"

text \<open>What the informer reports, and finds in its store: a node as it was seen, or some other object.\<close>

datatype informer_object = NodeObject knode | OtherObject

datatype informer_event = NodeAdded informer_object | NodeUpdated informer_object informer_object
  | StoreScanned "informer_object option"

definition handle_node_event :: "taint_world \<Rightarrow> informer_event \<Rightarrow> taint_state \<Rightarrow> taint_state" where
  "handle_node_event w e s =
     (let attempt = (\<lambda>obj. case obj of NodeObject n \<Rightarrow> attemptTaintRemoval w n s | OtherObject \<Rightarrow> s)
      in case e of
           NodeAdded obj \<Rightarrow> attempt obj
         | NodeUpdated old new \<Rightarrow> attempt new
         | StoreScanned found \<Rightarrow> (case found of None \<Rightarrow> s | Some obj \<Rightarrow> attempt obj))"

definition StartNotReadyTaintWatcher ::
    "taint_world \<Rightarrow> string \<Rightarrow> informer_event list \<Rightarrow> taint_state \<Rightarrow> taint_state" where
  "StartNotReadyTaintWatcher w nodeID events s =
     (if nodeID = [] then s else fold (handle_node_event w) events s)"

section \<open>What is removed\<close>

text \<open>
  The API server on a patch of these two operations (RFC 6902): it is accepted only if the tested value
  is the present one, and leaves the value that replaces it. Null is no taint.
\<close>

abbreviation test_and_replace :: "taint list \<Rightarrow> taint list option \<Rightarrow> json_patch list" where
  "test_and_replace v x \<equiv>
     [\<lparr>patch_op = ''test'', patch_path = ''/spec/taints'', patch_value = Some v\<rparr>,
      \<lparr>patch_op = ''replace'', patch_path = ''/spec/taints'', patch_value = x\<rparr>]"

definition or_none :: "taint list option \<Rightarrow> taint list" where
  "or_none x = (case x of None \<Rightarrow> [] | Some ts \<Rightarrow> ts)"

definition patches_tested :: "taint_world \<Rightarrow> bool" where
  "patches_tested w \<longleftrightarrow> (\<forall>h v x cur after.
     api_patch w h (test_and_replace v x) cur = Some after \<longrightarrow> cur = v \<and> after = or_none x)"

text \<open>
  A log of removals: the taints are patched right after a read in which the driver is registered, and a
  patch that is accepted removes the taint of this driver and keeps every other one, in order.
\<close>

fun removals :: "bool \<Rightarrow> node_calls \<Rightarrow> bool" where
  "removals registered [] \<longleftrightarrow> True"
| "removals registered (ReadDrivers ds # cs) \<longleftrightarrow>
     removals (case ds of None \<Rightarrow> False | Some ds \<Rightarrow> ''s3.csi.aws.com'' \<in> set ds) cs"
| "removals registered (PatchNode before result # cs) \<longleftrightarrow>
     registered \<and> (case result of None \<Rightarrow> True | Some after \<Rightarrow>
       after = filter (\<lambda>t. taint_key t \<noteq> ''s3.csi.aws.com/agent-not-ready'') before \<and>
       length after < length before) \<and> removals False cs"
| "removals registered (BackOff # cs) \<longleftrightarrow> removals False cs"

fun patches :: "node_calls \<Rightarrow> nat" where
  "patches [] = 0"
| "patches (c # cs) = (case c of PatchNode b r \<Rightarrow> 1 | _ \<Rightarrow> 0) + patches cs"

lemma removals_append: "removals r xs \<Longrightarrow> removals False ys \<Longrightarrow> removals r (xs @ ys)"
proof -
  have mono: "removals True zs" if "removals False zs" for zs
    using that by (cases zs; cases "hd zs") auto
  then have any: "removals False ys \<Longrightarrow> removals q ys" for q by (cases q) auto
  show "removals r xs \<Longrightarrow> removals False ys \<Longrightarrow> removals r (xs @ ys)"
    by (induction r xs rule: removals.induct) (auto intro: any)
qed

lemma patches_append: "patches (xs @ ys) = patches xs + patches ys"
  by (induction xs) auto

text \<open>A step that adds removals to the log, at most so many of them patches.\<close>

definition adds_removals :: "nat \<Rightarrow> taint_state \<Rightarrow> taint_state \<Rightarrow> bool" where
  "adds_removals k s s' \<longleftrightarrow>
     (\<exists>cs. taint_calls s' = taint_calls s @ cs \<and> removals False cs \<and> patches cs \<le> k)"

lemma adds_refl: "adds_removals k s s"
  by (simp add: adds_removals_def)

lemma adds_mono: "adds_removals j s t \<Longrightarrow> j \<le> k \<Longrightarrow> adds_removals k s t"
  by (auto simp: adds_removals_def)

lemma adds_trans:
  assumes "adds_removals j s t" "adds_removals k t u" "j + k \<le> m" shows "adds_removals m s u"
proof -
  obtain xs ys where "taint_calls t = taint_calls s @ xs" "removals False xs" "patches xs \<le> j"
    "taint_calls u = taint_calls t @ ys" "removals False ys" "patches ys \<le> k"
    using assms by (auto simp: adds_removals_def)
  then show ?thesis using assms(3)
    by (auto simp: adds_removals_def removals_append patches_append intro!: exI [of _ "xs @ ys"])
qed

lemma kept_taints:
  "taints_to_keep ts = filter (\<lambda>t. taint_key t \<noteq> ''s3.csi.aws.com/agent-not-ready'') ts"
  by (simp add: taints_to_keep_def AgentNotReadyNodeTaintKey_def)

lemma keep_fewer: "hasNotReadyTaint n \<Longrightarrow> length (taints_to_keep (kn_taints n)) < length (kn_taints n)"
  by (auto simp: hasNotReadyTaint_def taints_to_keep_def list_ex_iff intro!: length_filter_less)

lemma patch_shape: "patchRemoveTaints n = test_and_replace (kn_taints n)
    (if taints_to_keep (kn_taints n) = [] then None else Some (taints_to_keep (kn_taints n)))"
  by (simp add: patchRemoveTaints_def Let_def)

lemma patch_accepted:
  assumes "patches_tested w" "api_patch w h (patchRemoveTaints n) cur = Some after"
  shows "cur = kn_taints n \<and> after = taints_to_keep (kn_taints n)"
proof -
  have "cur = kn_taints n" "after = or_none
      (if taints_to_keep (kn_taints n) = [] then None else Some (taints_to_keep (kn_taints n)))"
    using assms unfolding patches_tested_def patch_shape by blast+
  then show ?thesis by (simp add: or_none_def split: if_splits)
qed

lemmas call_defs = checkDriverRegistered_def others_write_def record_call_def send_patch_def

lemma try_adds:
  assumes law: "patches_tested w" and taint: "hasNotReadyTaint n" and run: "try_removal w n s = (b, s')"
  shows "adds_removals 1 s s'"
proof -
  obtain r t where c: "checkDriverRegistered w s = (r, t)" by force
  obtain ds where t: "taint_calls t = taint_calls s @ [ReadDrivers ds]"
    "r \<Longrightarrow> \<exists>d. ds = Some d \<and> csiDriverName \<in> set d"
    using c by (auto simp: call_defs Let_def list_ex_iff split: if_splits)
  show ?thesis
  proof (cases "r \<and> has_clientset w")
    case False
    then have "taint_calls s' = taint_calls t"
      using run c by (auto simp: try_removal_def removeNotReadyTaint_def split: bool.splits)
    with t show ?thesis by (auto simp: adds_removals_def)
  next
    case True
    then have s': "send_patch w (patchRemoveTaints n) t = (b, s')"
      using run c keep_fewer [OF taint] by (auto simp: try_removal_def removeNotReadyTaint_def)
    let ?before = "stored_taints (other_writers w (taint_calls t) (taint_node t))"
    let ?result = "api_patch w (taint_calls t) (patchRemoveTaints n) ?before"
    have calls: "taint_calls s' = taint_calls s @ [ReadDrivers ds, PatchNode ?before ?result]"
      using s' t(1) by (auto simp: call_defs Let_def split: option.splits)
    have "after = taints_to_keep ?before \<and> length after < length ?before" if "?result = Some after" for after
      using patch_accepted [OF law that] keep_fewer [OF taint] by simp
    then have "removals False [ReadDrivers ds, PatchNode ?before ?result]"
      using t(2) True by (auto simp: kept_taints csiDriverName_def split: option.split)
    then show ?thesis using calls by (auto simp: adds_removals_def)
  qed
qed

lemma back_off_adds: "adds_removals 0 s (record_call BackOff s)"
  by (simp add: adds_removals_def record_call_def)

lemma tries_add:
  assumes law: "patches_tested w" and taint: "hasNotReadyTaint n"
  shows "backoff_tries w n k s = (b, s') \<Longrightarrow> adds_removals k s s'"
proof (induction k arbitrary: s)
  case 0
  then show ?case by (simp add: adds_refl)
next
  case (Suc k)
  obtain c t where t: "try_removal w n s = (c, t)" by force
  note one = try_adds [OF law taint t]
  show ?case
  proof (cases "watch_expired w (taint_calls s) \<or> c \<or> k = 0 \<or> watch_expired w (taint_calls t)")
    case True
    then have "s' = s \<or> s' = t" using Suc.prems t by (auto split: if_splits bool.splits)
    then show ?thesis using adds_mono [OF one, of "Suc k"] adds_refl [of "Suc k" s] by auto
  next
    case False
    then have "backoff_tries w n k (record_call BackOff t) = (b, s')" using Suc.prems t by auto
    from Suc.IH [OF this] have "adds_removals k t s'" by (rule adds_trans [OF back_off_adds]) simp
    then show ?thesis by (rule adds_trans [OF one]) simp
  qed
qed

lemma attempt_adds: "patches_tested w \<Longrightarrow> adds_removals removal_steps s (attemptTaintRemoval w n s)"
  using tries_add [of w n removal_steps s] adds_refl
  by (cases "backoff_tries w n removal_steps s") (simp add: attemptTaintRemoval_def)

lemma event_adds: "patches_tested w \<Longrightarrow> adds_removals removal_steps s (handle_node_event w e s)"
  by (auto simp: handle_node_event_def Let_def attempt_adds adds_refl
      split: informer_event.split informer_object.split option.split)

lemma events_add:
  "patches_tested w \<Longrightarrow> adds_removals (removal_steps * length es) s (fold (handle_node_event w) es s)"
proof (induction es arbitrary: s)
  case (Cons e es)
  show ?case using adds_trans [OF event_adds [OF Cons.prems] Cons.IH [OF Cons.prems]] by simp
qed (simp add: adds_refl)

text \<open>
  C38: Removing the taint never loses another one. However stale the nodes are that the informer reports,
  and whatever the other writers of the node do between the calls of the watcher, each patch that the
  API server accepts leaves exactly the taints that the node had at that moment, in order, less those with
  the key of this driver, of which there was one; each patch comes right after a read that saw the driver registered; and there are at most five per event.
\<close>

theorem taint_removal_exact:
  assumes "patches_tested w"
  shows "\<exists>cs. taint_calls (StartNotReadyTaintWatcher w nodeID events s) = taint_calls s @ cs \<and>
    removals False cs \<and> patches cs \<le> 5 * length events"
  using events_add [OF assms, of events s] adds_refl [of _ s]
  by (auto simp: StartNotReadyTaintWatcher_def adds_removals_def removal_steps_def)

text \<open>A server that follows the RFC, on a node whose taints others change, and whose driver is registered.\<close>

definition follow_patch :: "json_patch list \<Rightarrow> taint list \<Rightarrow> taint list option" where
  "follow_patch ps cur = (case ps of
     [p, q] \<Rightarrow> if patch_op p = ''test'' \<and> patch_op q = ''replace'' \<and> patch_path p = ''/spec/taints'' \<and>
         patch_path q = ''/spec/taints'' \<and> patch_value p = Some cur
       then Some (or_none (patch_value q)) else None
   | _ \<Rightarrow> None)"

definition own_taint :: taint where
  "own_taint = \<lparr>taint_key = ''s3.csi.aws.com/agent-not-ready'', taint_value = [],
     taint_effect = ''NoExecute'', taint_time = None\<rparr>"

definition foreign_taint :: taint where
  "foreign_taint = \<lparr>taint_key = ''dedicated'', taint_value = ''gpu'', taint_effect = ''NoSchedule'',
     taint_time = Some 7\<rparr>"

text \<open>The other taint comes before the third call, so the first node that was seen is stale then.\<close>

definition busy_world :: taint_world where
  "busy_world = \<lparr>has_clientset = True,
     other_writers = (\<lambda>h n. if length h = 1 then n\<lparr>stored_taints := stored_taints n @ [foreign_taint]\<rparr> else n),
     read_fails = (\<lambda>h. False), api_patch = (\<lambda>h. follow_patch), watch_expired = (\<lambda>h. False)\<rparr>"

definition tainted_start :: taint_state where
  "tainted_start = \<lparr>taint_node = \<lparr>stored_taints = [own_taint], stored_drivers = [''s3.csi.aws.com'']\<rparr>,
     taint_calls = []\<rparr>"

definition node_seen :: "taint list \<Rightarrow> informer_event" where
  "node_seen ts = NodeAdded (NodeObject \<lparr>kn_name = ''node'', kn_taints = ts\<rparr>)"

theorem taint_removal_exact_witness:
  "let final = StartNotReadyTaintWatcher busy_world ''node''
       [node_seen [own_taint], node_seen [own_taint, foreign_taint]] tainted_start
   in stored_taints (taint_node final) = [foreign_taint] \<and>
     (\<exists>cs. taint_calls final = [] @ cs \<and> removals False cs \<and> patches cs \<le> 10)"
proof -
  have law: "patches_tested busy_world"
    by (auto simp: patches_tested_def busy_world_def follow_patch_def split: if_splits)
  have left: "stored_taints (taint_node (StartNotReadyTaintWatcher busy_world ''node''
      [node_seen [own_taint], node_seen [own_taint, foreign_taint]] tainted_start)) = [foreign_taint]"
    by code_simp
  have start: "taint_calls tainted_start = []" by (simp add: tainted_start_def)
  show ?thesis
    using taint_removal_exact [OF law, of "''node''" "[node_seen [own_taint], node_seen [own_taint, foreign_taint]]"
      tainted_start] left unfolding start by (simp add: Let_def)
qed

section \<open>That it is removed\<close>

text \<open>
  The driver is registered by the read number \<open>k\<close>, the node was seen with the taints it has, and nothing
  interferes.
\<close>

fun reads :: "node_calls \<Rightarrow> nat" where
  "reads [] = 0"
| "reads (c # cs) = (case c of ReadDrivers d \<Rightarrow> 1 | _ \<Rightarrow> 0) + reads cs"

definition undisturbed :: "taint_world \<Rightarrow> nat \<Rightarrow> bool" where
  "undisturbed w k \<longleftrightarrow> has_clientset w \<and>
     (\<forall>h n. stored_taints (other_writers w h n) = stored_taints n \<and> \<not> watch_expired w h \<and>
        (k \<le> reads h \<longrightarrow> \<not> read_fails w h \<and> csiDriverName \<in> set (stored_drivers (other_writers w h n)))) \<and>
     (\<forall>h v x. v \<noteq> [] \<longrightarrow> api_patch w h (test_and_replace v x) v = Some (or_none x))"

lemma reads_append: "reads (xs @ ys) = reads xs + reads ys"
  by (induction xs) auto

lemma undisturbed_try:
  assumes w: "undisturbed w k" and taint: "hasNotReadyTaint n"
    and current: "kn_taints n = stored_taints (taint_node s)" and run: "try_removal w n s = (b, s')"
  shows "(if b then stored_taints (taint_node s') = taints_to_keep (kn_taints n)
     else stored_taints (taint_node s') = kn_taints n) \<and>
    reads (taint_calls s') = Suc (reads (taint_calls s)) \<and> (k \<le> reads (taint_calls s) \<longrightarrow> b)"
proof -
  obtain r t where c: "checkDriverRegistered w s = (r, t)" by force
  have t: "stored_taints (taint_node t) = kn_taints n" "reads (taint_calls t) = Suc (reads (taint_calls s))"
    "k \<le> reads (taint_calls s) \<longrightarrow> r"
    using c w current by (auto simp: call_defs Let_def undisturbed_def reads_append list_ex_iff split: if_splits)
  have accepted: "api_patch w h (patchRemoveTaints n) (kn_taints n) = Some (taints_to_keep (kn_taints n))" for h
  proof -
    have "kn_taints n \<noteq> []" using keep_fewer [OF taint] by auto
    with w show ?thesis unfolding undisturbed_def patch_shape by (simp add: or_none_def)
  qed
  have others: "stored_taints (other_writers w h m) = stored_taints m" and clients: "has_clientset w" for h m
    using w by (auto simp: undisturbed_def)
  show ?thesis
    using run c t keep_fewer [OF taint]
    by (auto simp: try_removal_def removeNotReadyTaint_def clients call_defs Let_def others accepted reads_append
        split: bool.splits)
qed

lemma undisturbed_tries:
  assumes w: "undisturbed w k" and taint: "hasNotReadyTaint n"
  shows "kn_taints n = stored_taints (taint_node s) \<Longrightarrow> k < j + reads (taint_calls s) \<Longrightarrow>
    \<exists>s'. backoff_tries w n j s = (True, s') \<and> stored_taints (taint_node s') = taints_to_keep (kn_taints n) \<or>
      j = 0"
proof (induction j arbitrary: s)
  case (Suc j)
  obtain b t where t: "try_removal w n s = (b, t)" by force
  note tried = undisturbed_try [OF w taint Suc.prems(1) t]
  have alive: "\<not> watch_expired w h" for h using w by (simp add: undisturbed_def)
  show ?case
  proof (cases b)
    case True
    with tried t alive show ?thesis by simp
  next
    case False
    with tried Suc.prems(2) have "j \<noteq> 0" by auto
    moreover have "kn_taints n = stored_taints (taint_node (record_call BackOff t))"
      "k < j + reads (taint_calls (record_call BackOff t))"
      using tried False Suc.prems(2) by (auto simp: record_call_def reads_append)
    ultimately show ?thesis using Suc.IH False t alive by auto
  qed
qed simp

text \<open>
  The taint goes away once the driver is registered. When the informer reports the node as it is, the
  driver is registered by the fifth read of the attempt, and no other writer and no failure interferes,
  then the attempt leaves exactly the other taints.
\<close>

theorem ready_node_loses_taint:
  assumes "undisturbed w k" "k < 5" "hasNotReadyTaint n" "kn_taints n = stored_taints (taint_node s)"
    "taint_calls s = []"
  shows "stored_taints (taint_node (attemptTaintRemoval w n s)) =
    filter (\<lambda>t. taint_key t \<noteq> AgentNotReadyNodeTaintKey) (stored_taints (taint_node s))"
  using undisturbed_tries [OF assms(1,3,4), of removal_steps] assms(2-5)
  by (auto simp: removal_steps_def attemptTaintRemoval_def taints_to_keep_def)

text \<open>The driver is registered while the second pause lasts.\<close>

definition late_world :: taint_world where
  "late_world = \<lparr>has_clientset = True,
     other_writers = (\<lambda>h n. if reads h < 2 then n else n\<lparr>stored_drivers := [''s3.csi.aws.com'']\<rparr>),
     read_fails = (\<lambda>h. reads h = 0), api_patch = (\<lambda>h. follow_patch), watch_expired = (\<lambda>h. False)\<rparr>"

theorem ready_node_loses_taint_witness:
  "let n = \<lparr>kn_name = ''node'', kn_taints = [foreign_taint, own_taint]\<rparr>;
       s = \<lparr>taint_node = \<lparr>stored_taints = [foreign_taint, own_taint], stored_drivers = []\<rparr>, taint_calls = []\<rparr>
   in stored_taints (taint_node (attemptTaintRemoval late_world n s)) = [foreign_taint]"
proof -
  let ?n = "\<lparr>kn_name = ''node'', kn_taints = [foreign_taint, own_taint]\<rparr>"
  let ?s = "\<lparr>taint_node = \<lparr>stored_taints = [foreign_taint, own_taint], stored_drivers = []\<rparr>, taint_calls = []\<rparr>"
  have "undisturbed late_world 2"
    by (auto simp: undisturbed_def late_world_def follow_patch_def csiDriverName_def)
  moreover have "hasNotReadyTaint ?n" by code_simp
  moreover have "filter (\<lambda>t. taint_key t \<noteq> AgentNotReadyNodeTaintKey) [foreign_taint, own_taint] = [foreign_taint]"
    by code_simp
  ultimately show ?thesis using ready_node_loses_taint [of late_world 2 ?n ?s] by (simp add: Let_def)
qed

text \<open>
  A stale node is no use: while the taints differ from those that were seen, all tries of an attempt fail,
  since each of them tests the same taints.
\<close>

lemma stale_tries_fail:
  assumes law: "patches_tested w" and client: "has_clientset w" and taint: "hasNotReadyTaint n"
    and stale: "\<And>h m. stored_taints (other_writers w h m) \<noteq> kn_taints n"
  shows "\<not> fst (backoff_tries w n j s)"
proof -
  have "\<not> fst (send_patch w (patchRemoveTaints n) t)" for t
  proof -
    have "api_patch w h (patchRemoveTaints n) (stored_taints (other_writers w h m)) = None" for h m
      using patch_accepted [OF law] stale [of h m] by (metis option.exhaust)
    then show ?thesis by (simp add: send_patch_def Let_def others_write_def)
  qed
  then have fails: "\<not> fst (try_removal w n s)" for s
    using client keep_fewer [OF taint] by (auto simp: try_removal_def removeNotReadyTaint_def split: prod.split bool.split)
  show ?thesis
  proof (induction j arbitrary: s)
    case (Suc j)
    then show ?case using fails [of s] by (cases "try_removal w n s") auto
  qed simp
qed

end
