(* ===== verification/Pod_Labels.thy ===== *)
theory Pod_Labels
  imports Mount_Options Example_Cluster
begin

text \<open>
  Labels of the operator (\<^verbatim>\<open>pkg/util/labels.go\<close>): a JSON document with labels that every Mountpoint Pod or
  every Headroom Pod is to carry. The validators of Kubernetes are arguments; they return a list of errors.
\<close>

definition ReservedLabelPrefix :: string where "ReservedLabelPrefix = ''s3.csi.aws.com/''"

abbreviation reserved_label :: "string \<Rightarrow> bool" where
  "reserved_label k \<equiv> has_prefix k ReservedLabelPrefix"

section \<open>Reading the document\<close>

text \<open>
  \<^verbatim>\<open>json.Unmarshal\<close> into a map of strings: a null element is the empty string, a later member replaces an
  earlier one, and any other element is an error of the whole document.
\<close>

fun read_label_members :: "(bytes \<times> json) list \<Rightarrow> strmap \<Rightarrow> strmap option" where
  "read_label_members [] m = Some m"
| "read_label_members ((k, v) # ms) m =
     (case read_string v [] of
        None \<Rightarrow> None
      | Some s \<Rightarrow> read_label_members ms (m(text_of k \<mapsto> s)))"

definition unmarshal_labels :: "string \<Rightarrow> strmap option" where
  "unmarshal_labels s =
     (case parse_json (bytes_of s) of
        Some (JObject ms) \<Rightarrow> read_label_members ms Map.empty
      | Some JNull \<Rightarrow> Some Map.empty
      | _ \<Rightarrow> None)"

definition ParseLabels :: "(string \<Rightarrow> string list) \<Rightarrow> (string \<Rightarrow> string list) \<Rightarrow> string \<Rightarrow> strmap" where
  "ParseLabels IsQualifiedName IsValidLabelValue labelsJSON =
     (if labelsJSON = [] \<or> labelsJSON = ''{}'' \<or> labelsJSON = ''null'' then Map.empty
      else case unmarshal_labels labelsJSON of
          None \<Rightarrow> Map.empty
        | Some labels \<Rightarrow>
            (\<lambda>key. case labels key of
                None \<Rightarrow> None
              | Some v \<Rightarrow>
                  if has_prefix key ReservedLabelPrefix then None
                  else if IsQualifiedName key \<noteq> [] then None
                  else if IsValidLabelValue v \<noteq> [] then None
                  else Some v))"

section \<open>The labels of the Pods\<close>

text \<open>
  What a Pod should carry: of the reserved labels those of the driver, and of all others the valid ones
  that the operator asked for, all of them or, if the document cannot be read, none.
\<close>

definition requested_labels :: "string \<Rightarrow> strmap" where
  "requested_labels s = (case unmarshal_labels s of None \<Rightarrow> Map.empty | Some m \<Rightarrow> m)"

definition expected_labels ::
    "(string \<Rightarrow> string list) \<Rightarrow> (string \<Rightarrow> string list) \<Rightarrow> string \<Rightarrow> (string \<times> string) list \<Rightarrow> strmap" where
  "expected_labels isq isv s own k =
     (if reserved_label k then map_of own k
      else case requested_labels s k of
          None \<Rightarrow> None
        | Some v \<Rightarrow> if isq k = [] \<and> isv v = [] then Some v else None)"

lemma short_documents: "unmarshal_labels s = None \<or> unmarshal_labels s = Some Map.empty"
  if "s = [] \<or> s = ''{}'' \<or> s = ''null''"
proof -
  have "unmarshal_labels [] = None"
    by (simp add: unmarshal_labels_def parse_json_def ended_def)
  moreover have "parse_json (bytes_of ''{}'') = Some (JObject [])" by code_simp
  moreover have "parse_json (bytes_of ''null'') = Some JNull" by code_simp
  ultimately show ?thesis using that by (auto simp: unmarshal_labels_def)
qed

lemma ParseLabels_look:
  "ParseLabels isq isv s k = (if reserved_label k then None else expected_labels isq isv s [] k)"
  using short_documents [of s]
  by (auto simp: ParseLabels_def expected_labels_def requested_labels_def split: option.splits)

lemma labels_expected:
  assumes "reserved_label a" "reserved_label b" "a \<noteq> b"
  shows "(ParseLabels isq isv s)(a \<mapsto> x, b \<mapsto> y) = expected_labels isq isv s [(a, x), (b, y)]"
  using assms by (intro ext) (auto simp: ParseLabels_look expected_labels_def)

lemmas reserved_consts = ReservedLabelPrefix_def has_prefix_def LabelMountpointVersion_def
  LabelCSIDriverVersion_def LabelHeadroomForPod_def LabelHeadroomForVolume_def

lemma own_labels_reserved:
  "reserved_label LabelMountpointVersion" "reserved_label LabelCSIDriverVersion"
  "reserved_label LabelHeadroomForPod" "reserved_label LabelHeadroomForVolume"
  by (simp_all add: reserved_consts)

lemma own_labels_differ:
  "LabelMountpointVersion \<noteq> LabelCSIDriverVersion" "LabelHeadroomForPod \<noteq> LabelHeadroomForVolume"
  by (simp_all add: reserved_consts)

text \<open>The labels of the operator, as the controller configures them when it starts.\<close>

definition configured_labels ::
    "(string \<Rightarrow> string list) \<Rightarrow> (string \<Rightarrow> string list) \<Rightarrow> string \<Rightarrow> string \<Rightarrow> mppod_config \<Rightarrow> mppod_config" where
  "configured_labels isq isv mountpointPodLabels mountpointHeadroomPodLabels cfg =
     cfg\<lparr>cfg_pod_labels := ParseLabels isq isv mountpointPodLabels,
       cfg_headroom_pod_labels := ParseLabels isq isv mountpointHeadroomPodLabels\<rparr>"

text \<open>
  C39: The operator's labels never get in the way of the driver's. Whatever the two documents say, a
  Mountpoint Pod and a Headroom Pod carry, of the reserved labels, exactly those by which the driver
  recognises them later, with its own values; and of all others exactly the valid ones of the document.
\<close>

theorem driver_labels_prevail:
  assumes "cfg' = configured_labels isq isv s1 s2 cfg"
    and "MountpointPod out cfg' node p kind = Inr m" and "HeadroomPod out cfg' w p = Inr hr"
  shows "pod_labels m = Some (expected_labels isq isv s1
      [(LabelMountpointVersion, mountpoint_version cfg), (LabelCSIDriverVersion, csi_driver_version cfg)]) \<and>
    pod_labels hr = Some (expected_labels isq isv s2
      [(LabelHeadroomForPod, pod_uid w), (LabelHeadroomForVolume, pv_name p)])"
proof
  show "pod_labels m = Some (expected_labels isq isv s1
      [(LabelMountpointVersion, mountpoint_version cfg), (LabelCSIDriverVersion, csi_driver_version cfg)])"
    using assms(1,2)
    by (auto elim!: MountpointPod_Inr simp: mountpoint_pod_base_def configured_labels_def labels_expected
        own_labels_reserved own_labels_differ)
  show "pod_labels hr = Some (expected_labels isq isv s2
      [(LabelHeadroomForPod, pod_uid w), (LabelHeadroomForVolume, pv_name p)])"
    using assms(1) HeadroomPod_Inr [OF assms(3)]
    by (auto simp: headroom_pod_base_def configured_labels_def labels_expected
        own_labels_reserved own_labels_differ)
qed

definition example_labels :: string where
  "example_labels = ''{\"team\": \"a\", \"bad key\": \"b\", \"s3.csi.aws.com/mountpoint-version\": \"0\"}''"

definition no_spaces :: "string \<Rightarrow> string list" where
  "no_spaces s = (if CHR '' '' \<in> set s then [''a space''] else [])"

theorem driver_labels_prevail_witness:
  "\<exists>m hr. MountpointPod example_outside (configured_labels no_spaces no_spaces example_labels [] example_config)
       ''node'' example_pv DefaultPriorityClass = Inr m \<and>
     HeadroomPod example_outside (configured_labels no_spaces no_spaces example_labels [] example_config)
       example_workload example_pv = Inr hr \<and>
     map (the (pod_labels m)) [''team'', ''bad key'', LabelMountpointVersion, ''s3.csi.aws.com/team''] =
       [Some ''a'', None, Some ''1.20.0'', None] \<and>
     map (the (pod_labels hr)) [''team'', LabelHeadroomForPod] = [None, Some ''u1'']"
proof -
  let ?cfg = "configured_labels no_spaces no_spaces example_labels [] example_config"
  have "\<exists>m. MountpointPod example_outside ?cfg ''node'' example_pv DefaultPriorityClass = Inr m"
    by (simp add: MountpointPod_def Let_def configureLocalCache_def configureResourceRequests_def
        configureResourceLimits_def ExtractVolumeAttributes_def go_lookup_def example_defs
        args_Has_def args_find_def ParseArgs_def parse_one_def Let_def index_of_def trim_char_def
        normalizeKey_def disallowed_keys_def ArgCache_def ArgNoValue_def has_prefix_def
        go_range_def volume_context_consts)
  moreover have "\<exists>hr. HeadroomPod example_outside ?cfg example_workload example_pv = Inr hr"
    by (simp add: HeadroomPod_def Let_def configureResourceRequests_def configureResourceLimits_def
        ExtractVolumeAttributes_def go_lookup_def example_defs volume_context_consts)
  ultimately obtain m hr where
    m: "MountpointPod example_outside ?cfg ''node'' example_pv DefaultPriorityClass = Inr m" and
    hr: "HeadroomPod example_outside ?cfg example_workload example_pv = Inr hr" by blast
  have "requested_labels example_labels = Map.empty(''team'' \<mapsto> ''a'', ''bad key'' \<mapsto> ''b'',
      ''s3.csi.aws.com/mountpoint-version'' \<mapsto> ''0'')"
  proof -
    have "parse_json (bytes_of example_labels) = Some (JObject
        [(bytes_of ''team'', JString (bytes_of ''a'')), (bytes_of ''bad key'', JString (bytes_of ''b'')),
         (bytes_of ''s3.csi.aws.com/mountpoint-version'', JString (bytes_of ''0''))])"
      unfolding example_labels_def by code_simp
    moreover have "text_of (bytes_of ''team'') = ''team''" "text_of (bytes_of ''bad key'') = ''bad key''"
      "text_of (bytes_of ''s3.csi.aws.com/mountpoint-version'') = ''s3.csi.aws.com/mountpoint-version''"
      "text_of (bytes_of ''a'') = ''a''" "text_of (bytes_of ''b'') = ''b''" "text_of (bytes_of ''0'') = ''0''"
      by code_simp+
    ultimately show ?thesis by (simp add: requested_labels_def unmarshal_labels_def read_string_def)
  qed
  moreover have "requested_labels [] = Map.empty"
    using short_documents [of "[]"] by (auto simp: requested_labels_def)
  ultimately show ?thesis
    using driver_labels_prevail [OF refl m hr] m hr
    by (auto simp: expected_labels_def reserved_consts no_spaces_def example_defs)
qed

end
