(* ===== verification/File_Replace.thy ===== *)
theory File_Replace
  imports Csi_Prelude
begin

text \<open>
  Replacing a file (\<^verbatim>\<open>pkg/util/file.go\<close>), as the credential provider does with tokens that Mountpoint
  reads at any time. The model keeps every state of the file system that a reader may see. The results of
  the system calls are arguments: the name \<^verbatim>\<open>os.CreateTemp\<close> picks, whether a call fails, how the source is
  read and how much of a chunk is written.
\<close>

record disk_file =
  file_data :: string
  file_perm :: nat

type_synonym files = "string \<rightharpoonup> disk_file"

record file_calls =
  temp_created :: "string option"        \<comment> \<open>its name, None if it fails\<close>
  chmod_works :: bool
  source_opens :: bool
  source_chunks :: "string list"         \<comment> \<open>what the reads return\<close>
  source_ends :: bool                    \<comment> \<open>at the end of the file, not with an error\<close>
  written :: "nat \<Rightarrow> nat option"         \<comment> \<open>None: the whole chunk; Some: so many bytes and an error\<close>
  rename_works :: bool

section \<open>The operation\<close>

definition append_data :: "string \<Rightarrow> string \<Rightarrow> files \<Rightarrow> files" where
  "append_data t s fs = (case fs t of None \<Rightarrow> fs | Some f \<Rightarrow> fs(t \<mapsto> f\<lparr>file_data := file_data f @ s\<rparr>))"

text \<open>\<^verbatim>\<open>io.CopyBuffer\<close>: whether it succeeds, and the states after each write, the last one first.\<close>

fun CopyBuffer :: "file_calls \<Rightarrow> string \<Rightarrow> nat \<Rightarrow> string list \<Rightarrow> files list \<Rightarrow> bool \<times> files list" where
  "CopyBuffer c t i [] sts = (source_ends c, sts)"
| "CopyBuffer c t i (s # ss) sts =
     (case written c i of
        None \<Rightarrow> CopyBuffer c t (Suc i) ss (append_data t s (hd sts) # sts)
      | Some n \<Rightarrow> (False, append_data t (take n s) (hd sts) # sts))"

definition ReplaceFile :: "file_calls \<Rightarrow> string \<Rightarrow> nat \<Rightarrow> files \<Rightarrow> bool \<times> files list" where
  "ReplaceFile c destPath perm fs =
     (case temp_created c of
        None \<Rightarrow> (False, [fs])
      | Some t \<Rightarrow>
          let created = fs(t \<mapsto> \<lparr>file_data = [], file_perm = 384\<rparr>)     \<comment> \<open>0600\<close>
          in if \<not> chmod_works c then (False, [created, fs])
             else
               let changed = created(t \<mapsto> \<lparr>file_data = [], file_perm = perm\<rparr>)
               in if \<not> source_opens c then (False, [changed, created, fs])
                  else case CopyBuffer c t 0 (source_chunks c) [changed, created, fs] of
                      (False, sts) \<Rightarrow> (False, sts)
                    | (True, sts) \<Rightarrow>
                        if \<not> rename_works c then (False, sts)
                        else (True, (hd sts)(destPath := (hd sts) t, t := None) # sts))"

section \<open>What a reader sees\<close>

lemma copy_states:
  assumes "fs t = Some f" "file_perm f = perm"
  shows "CopyBuffer c t i ss (fs # sts) = (ok, sts') \<Longrightarrow>
    \<exists>new. sts' = new @ fs # sts \<and>
      (\<forall>g \<in> set new. \<exists>d. g = fs(t \<mapsto> \<lparr>file_data = d, file_perm = perm\<rparr>)) \<and>
      (ok \<longrightarrow> hd sts' t = Some \<lparr>file_data = file_data f @ concat ss, file_perm = perm\<rparr>)"
  using assms
proof (induction ss arbitrary: i fs f sts)
  case Nil
  then show ?case by (cases f) auto
next
  case (Cons s ss)
  let ?fs = "fs(t \<mapsto> \<lparr>file_data = file_data f @ s, file_perm = perm\<rparr>)"
  have app: "append_data t x fs = fs(t \<mapsto> \<lparr>file_data = file_data f @ x, file_perm = perm\<rparr>)" for x
    using Cons.prems(2,3) by (cases f) (simp add: append_data_def)
  show ?case
  proof (cases "written c i")
    case None
    then have rest: "CopyBuffer c t (Suc i) ss (?fs # fs # sts) = (ok, sts')"
      using Cons.prems(1) app by simp
    have start: "?fs t = Some \<lparr>file_data = file_data f @ s, file_perm = perm\<rparr>" by simp
    obtain new where "sts' = new @ ?fs # fs # sts"
      "\<forall>g \<in> set new. \<exists>d. g = fs(t \<mapsto> \<lparr>file_data = d, file_perm = perm\<rparr>)"
      "ok \<longrightarrow> hd sts' t = Some \<lparr>file_data = file_data f @ s @ concat ss, file_perm = perm\<rparr>"
      using Cons.IH [OF rest start] by (simp only: fun_upd_upd disk_file.simps append_assoc) blast
    moreover from this have "\<forall>g \<in> set (new @ [?fs]). \<exists>d. g = fs(t \<mapsto> \<lparr>file_data = d, file_perm = perm\<rparr>)"
      by (simp only: set_append ball_Un list.set ball_simps) blast
    ultimately show ?thesis
      by (intro exI [of _ "new @ [?fs]"] conjI) (simp_all only: append_assoc append.simps concat.simps)
  next
    case (Some n)
    let ?cut = "fs(t \<mapsto> \<lparr>file_data = file_data f @ take n s, file_perm = perm\<rparr>)"
    have "sts' = [?cut] @ fs # sts" "\<not> ok" using Some Cons.prems(1) app by auto
    moreover have "\<forall>g \<in> set [?cut]. \<exists>d. g = fs(t \<mapsto> \<lparr>file_data = d, file_perm = perm\<rparr>)"
      by (simp only: list.set ball_simps) blast
    ultimately show ?thesis by blast
  qed
qed

text \<open>The file is there as before, or complete; the temporary file aside nothing else changes.\<close>

definition old_or_new :: "files \<Rightarrow> string \<Rightarrow> string \<Rightarrow> disk_file \<Rightarrow> files \<Rightarrow> bool" where
  "old_or_new fs t dest f g \<longleftrightarrow> (g dest = fs dest \<or> g dest = Some f) \<and> (\<forall>p. p \<notin> {t, dest} \<longrightarrow> g p = fs p)"

text \<open>
  C40: A file is replaced at once or not at all. Let the temporary name be unused. At every moment a reader
  finds under the destination the old file, or a file with all data of the source and the wanted
  permissions; all other files stay as they are. On success the file is replaced, and no temporary file is
  left; on an error the destination is as before.
\<close>

theorem file_replaced_atomically:
  assumes run: "ReplaceFile c destPath perm fs = (ok, sts)"
    and t: "temp_created c = Some t" "fs t = None" "t \<noteq> destPath"
  shows "let f = \<lparr>file_data = concat (source_chunks c), file_perm = perm\<rparr>
    in list_all (old_or_new fs t destPath f) sts \<and>
      (if ok then hd sts = fs(destPath \<mapsto> f) else hd sts destPath = fs destPath)"
proof -
  let ?f = "\<lparr>file_data = concat (source_chunks c), file_perm = perm\<rparr>"
  let ?start = "\<lparr>file_data = [], file_perm = perm\<rparr>"
  let ?created = "fs(t \<mapsto> \<lparr>file_data = [], file_perm = 384\<rparr>)"
  let ?changed = "?created(t \<mapsto> ?start)"
  have unseen: "old_or_new fs t destPath ?f (fs(t \<mapsto> x))" "old_or_new fs t destPath ?f fs" for x
    using t by (auto simp: old_or_new_def)
  obtain okc stc where copy: "CopyBuffer c t 0 (source_chunks c) [?changed, ?created, fs] = (okc, stc)" by force
  obtain new where new: "stc = new @ [?changed, ?created, fs]"
    "\<forall>g \<in> set new. \<exists>d. g = ?changed(t \<mapsto> \<lparr>file_data = d, file_perm = perm\<rparr>)"
    "okc \<longrightarrow> hd stc t = Some ?f"
    using copy_states [OF _ _ copy, of ?start] by auto
  have stc: "list_all (old_or_new fs t destPath ?f) stc"
    using new(1,2) unseen by (auto simp: list_all_iff)
  have top: "\<exists>x. hd stc = fs(t \<mapsto> x)" using new(1,2) by (cases new) auto
  have "list_all (old_or_new fs t destPath ?f) sts \<and>
      (if ok then hd sts = fs(destPath \<mapsto> ?f) else hd sts destPath = fs destPath)"
  proof (cases ok)
    case False
    then have "sts = [?created, fs] \<or> sts = [?changed, ?created, fs] \<or> sts = stc"
      using run t copy by (auto simp: ReplaceFile_def Let_def split: if_splits bool.splits)
    then show ?thesis using False stc top unseen t by auto
  next
    case True
    then have "okc" "sts = (hd stc)(destPath := hd stc t, t := None) # stc"
      using run t copy by (auto simp: ReplaceFile_def Let_def split: if_splits bool.splits)
    moreover obtain x where "hd stc = fs(t \<mapsto> x)" using top by blast
    ultimately have "hd sts = fs(destPath \<mapsto> ?f)" "sts = hd sts # stc"
      using new(3) t by (auto simp: fun_eq_iff)
    moreover have "old_or_new fs t destPath ?f (fs(destPath \<mapsto> ?f))" by (simp add: old_or_new_def)
    ultimately show ?thesis using True stc by (metis list.pred_inject(2))
  qed
  then show ?thesis by (simp add: Let_def)
qed

text \<open>Two chunks; the second try is cut short in the second one, and leaves its temporary file.\<close>

definition example_file_calls :: "(nat \<Rightarrow> nat option) \<Rightarrow> file_calls" where
  "example_file_calls wr = \<lparr>temp_created = Some ''/c/token.tmp-1'', chmod_works = True, source_opens = True,
     source_chunks = [''ab'', ''cd''], source_ends = True, written = wr, rename_works = True\<rparr>"

definition old_token :: files where
  "old_token = Map.empty(''/c/token'' \<mapsto> \<lparr>file_data = ''xyz'', file_perm = 416\<rparr>)"

theorem file_replaced_atomically_witness:
  "hd (snd (ReplaceFile (example_file_calls (\<lambda>i. None)) ''/c/token'' 416 old_token)) =
     old_token(''/c/token'' \<mapsto> \<lparr>file_data = ''abcd'', file_perm = 416\<rparr>) \<and>
   map (\<lambda>p. map_option file_data
       (hd (snd (ReplaceFile (example_file_calls (\<lambda>i. if i = 1 then Some 1 else None)) ''/c/token'' 416 old_token)) p))
     [''/c/token'', ''/c/token.tmp-1''] = [Some ''xyz'', Some ''abc'']"
proof -
  let ?good = "example_file_calls (\<lambda>i. None)"
  let ?bad = "example_file_calls (\<lambda>i. if i = 1 then Some 1 else None)"
  obtain sts where g: "ReplaceFile ?good ''/c/token'' 416 old_token = (True, sts)"
    by (simp add: ReplaceFile_def example_file_calls_def Let_def)
  obtain sts' where b: "ReplaceFile ?bad ''/c/token'' 416 old_token = (False, sts')"
    by (simp add: ReplaceFile_def example_file_calls_def Let_def)
  have t: "temp_created (example_file_calls wr) = Some ''/c/token.tmp-1''"
    "old_token ''/c/token.tmp-1'' = None" "''/c/token.tmp-1'' \<noteq> ''/c/token''" for wr
    by (simp_all add: example_file_calls_def old_token_def)
  have d: "old_token ''/c/token'' = Some \<lparr>file_data = ''xyz'', file_perm = 416\<rparr>"
    by (simp add: old_token_def)
  have left: "map_option file_data (hd sts' ''/c/token.tmp-1'') = Some ''abc''"
    using b by (auto simp: ReplaceFile_def example_file_calls_def Let_def append_data_def)
  show ?thesis
    using file_replaced_atomically [OF g t] file_replaced_atomically [OF b t] g b left d
    by (simp add: Let_def example_file_calls_def)
qed

end
