(* ===== verification/Controller_Workload.thy ===== *)
theory Controller_Workload
  imports Controller_Runs Controller_Safety
begin

text \<open>
  What the reconciliation of a workload achieves as a whole: when it reports success, every volume of
  the workload is served; and the workload is released for scheduling only after room was reserved for
  all its Mountpoint Pods.
\<close>

section \<open>One volume of a running or scheduled workload\<close>

text \<open>
  The attachment that goes with a volume holds the workload: a listing showed it, or an update of a listed
  attachment with the workload in it was accepted. A workload that runs already gets no new attachment.
\<close>

definition assigned_in :: "pod \<Rightarrow> s3pa list \<Rightarrow> history \<Rightarrow> bool" where
  "assigned_in w as h \<longleftrightarrow>
     (\<exists>a \<in> set as. s3paContainsWorkload a (pod_uid w)) \<or>
     (\<exists>a \<in> set as. \<exists>b rv. EvUpdateS3PA b (Inr rv) \<in> set h \<and> sp_name b = sp_name a \<and>
        s3paContainsWorkload b (pod_uid w)) \<or>
     isPodRunning w \<and> (\<forall>a \<in> set as. sp_attachments a = [])"

definition assigned :: "pod \<Rightarrow> pv \<Rightarrow> history \<Rightarrow> bool" where
  "assigned w p h \<longleftrightarrow>
     (\<exists>role f as. buildFieldFilters w p role = Inr f \<and> EvListS3PA (Some f) (Inr as) \<in> set h \<and>
        assigned_in w as h)"

lemma assigned_mono: "assigned w p h \<Longrightarrow> set h \<subseteq> set h' \<Longrightarrow> assigned w p h'"
  unfolding assigned_def assigned_in_def by blast

lemma assigned_append: "assigned w p h \<Longrightarrow> assigned w p (h' @ h)" "assigned w p h \<Longrightarrow> assigned w p (h @ h')"
  by (erule assigned_mono; simp)+

lemma contains_update [simp]:
  "s3paContainsWorkload (set_workload a k uid t) uid" "s3paContainsWorkload (append_workload a k uid t) uid"
proof -
  have in_update: "(k, v) \<in> set (AList.update k v m)" for v and m :: "(string \<times> workload_attachment list) list"
    by (induction m) auto
  have contains: "s3paContainsWorkload b uid"
    if "(k, ws) \<in> set (sp_attachments b)" "list_ex (\<lambda>w. workload_pod_uid w = uid) ws" for b ws
    using that by (auto simp: s3paContainsWorkload_def list_ex_iff)
  show "s3paContainsWorkload (set_workload a k uid t) uid"
    by (rule contains [of "[\<lparr>workload_pod_uid = uid, attachment_time = t\<rparr>]"])
      (simp_all add: set_workload_def in_update)
  show "s3paContainsWorkload (append_workload a k uid t) uid"
    by (rule contains [of "alookup (sp_attachments a) k @ [\<lparr>workload_pod_uid = uid, attachment_time = t\<rparr>]"])
      (simp_all add: append_workload_def in_update)
qed

lemma update_names [simp]:
  "sp_name (set_workload a k uid t) = sp_name a" "sp_name (append_workload a k uid t) = sp_name a"
  by (simp_all add: set_workload_def append_workload_def)

text \<open>The steps that add a workload to an attachment report success only after an accepted update.\<close>

definition updated_for :: "string \<Rightarrow> s3pa \<Rightarrow> history \<Rightarrow> bool" where
  "updated_for uid a h \<longleftrightarrow>
     (\<exists>b rv. EvUpdateS3PA b (Inr rv) \<in> set h \<and> sp_name b = sp_name a \<and> s3paContainsWorkload b uid)"

lemma updated_mono: "updated_for uid a h \<Longrightarrow> set h \<subseteq> set h' \<Longrightarrow> updated_for uid a h'"
  unfolding updated_for_def by blast

lemma performs_find_suitable: "performs (find_suitable_loop r names) (\<lambda>_ _. True)"
proof (induction names)
  case (Cons k names)
  then show ?case
    unfolding find_suitable_loop.simps getMountpointPod_def by (intro performs) simp_all
qed (simp add: performs_return)

lemma performs_assign:
  "performs (assignWorkloadToAnExistingMountpointPod r a uid)
     (\<lambda>res new. res = (DontRequeue, None) \<longrightarrow> updated_for uid a new)"
  unfolding assignWorkloadToAnExistingMountpointPod_def
  by (intro performs, rule performs_bind [OF performs_find_suitable], intro performs)
    (auto simp: updated_for_def split: sum.splits)

lemma performs_spawn_for_existing:
  "performs (spawn_for_existing r w p a kind)
     (\<lambda>res new. res = (DontRequeue, None) \<longrightarrow> updated_for (pod_uid w) a new)"
  unfolding spawn_for_existing_def spawnMountpointPod_def
  by (cases "MountpointPod (creatorOutside r) (mountpointPodConfig r) (node_name w) p kind";
      simp only: sum.case; intro performs)
    (auto simp: updated_for_def split: sum.splits)

lemma performs_handleExisting:
  "performs (handleExistingS3PodAttachment r w p a f kind)
     (\<lambda>res new. res = (DontRequeue, None) \<longrightarrow>
        s3paContainsWorkload a (pod_uid w) \<or> updated_for (pod_uid w) a new)"
proof -
  have add: "performs (addWorkloadToS3PodAttachment r w p a kind)
      (\<lambda>res new. res = (DontRequeue, None) \<longrightarrow> updated_for (pod_uid w) a new)"
    unfolding addWorkloadToS3PodAttachment_def
    by (rule performs_bind [OF performs_assign], intro performs performs_mono [OF performs_spawn_for_existing])
      (auto elim!: updated_mono)
  then have "performs (if s3paContainsWorkload a (pod_uid w) then State_Monad.return (DontRequeue, None)
      else addWorkloadToS3PodAttachment r w p a kind)
     (\<lambda>res new. res = (DontRequeue, None) \<longrightarrow>
        s3paContainsWorkload a (pod_uid w) \<or> updated_for (pod_uid w) a new)"
    by (auto intro!: performs elim: performs_mono)
  then show ?thesis
    unfolding handleExistingS3PodAttachment_def
    by (intro performs; cases) (auto intro!: performs)
qed

text \<open>Which attachment a listing of the code gives: one of those that were listed, or none of them has a Pod.\<close>

lemma performs_delete_attachments: "performs (delete_attachments r as) (\<lambda>_ _. True)"
proof (induction as)
  case (Cons a as)
  then show ?case
    unfolding delete_attachments.simps deleteS3PodAttachment_def by (intro performs) simp_all
qed (simp add: performs_return)

lemma performs_getExisting:
  "performs (getExistingS3PodAttachment r f) (\<lambda>res new.
     \<forall>x. res = Inr x \<longrightarrow> (\<exists>as. EvListS3PA (Some f) (Inr as) \<in> set new \<and>
       (case x of Some a \<Rightarrow> a \<in> set as | None \<Rightarrow> \<forall>a \<in> set as. sp_attachments a = [])))"
proof -
  define found :: "s3pa list \<Rightarrow> s3pa option \<Rightarrow> bool" where
    "found as x = (case x of Some a \<Rightarrow> a \<in> set as | None \<Rightarrow> \<forall>a \<in> set as. sp_attachments a = [])" for as x
  have recover: "performs (recoverFromDuplicateS3PodAttachments r as f) (\<lambda>res new. \<forall>x. res = Inr x \<longrightarrow> found as x)"
    for as
  proof -
    have hd: "a \<in> set as" if "filter (\<lambda>a. sp_attachments a \<noteq> []) as = a # as'" for a as'
      using that by (metis Cons_eq_filterD in_set_conv_decomp)
    show ?thesis
      unfolding recoverFromDuplicateS3PodAttachments_def Let_def found_def
      by (intro performs, simp, rule performs_bind [OF performs_delete_attachments], intro performs)
        (auto simp: filter_empty_conv dest: hd)
  qed
  have "performs (getExistingS3PodAttachment r f) (\<lambda>res new.
     \<forall>x. res = Inr x \<longrightarrow> (\<exists>as. EvListS3PA (Some f) (Inr as) \<in> set new \<and> found as x))"
    unfolding getExistingS3PodAttachment_def
  proof (intro performs, goal_cases)
    case (4 x y z zs)
    then show ?case
      by (intro performs_mono [OF recover]) auto
  qed (auto simp: found_def)
  then show ?thesis by (simp add: found_def)
qed

lemma performs_IRSA: "performs (findIRSAServiceAccountRole r w) (\<lambda>_ _. True)"
  unfolding findIRSAServiceAccountRole_def by (intro performs) simp

lemma performs_createS3PA: "performs (createS3PodAttachmentWithMPPod r w p role kind) (\<lambda>_ _. True)"
  unfolding createS3PodAttachmentWithMPPod_def spawnMountpointPod_def
  by (cases "MountpointPod (creatorOutside r) (mountpointPodConfig r) (node_name w) p kind";
      simp only: sum.case; intro performs) simp_all

lemma performs_handleNew:
  "performs (handleNewS3PodAttachment r w p role f kind) (\<lambda>res _. res = (DontRequeue, None) \<longrightarrow> isPodRunning w)"
  unfolding handleNewS3PodAttachment_def
  by (intro performs, simp_all, rule performs_bind [OF performs_createS3PA], intro performs) auto

lemma performs_volume:
  assumes "isPodActive w"
  shows "performs (spawnOrDeleteMountpointPodIfNeeded r w p kind)
    (\<lambda>res new. res = (DontRequeue, None) \<longrightarrow> assigned w p new)"
  unfolding spawnOrDeleteMountpointPodIfNeeded_def
proof (rule performs_bind [OF performs_IRSA], intro performs)
  fix role f and earlier :: history
  assume f: "buildFieldFilters w p role = Inr f"
  show "performs (State_Monad.bind (getExistingS3PodAttachment r f) (\<lambda>res. case res of
        Inl e \<Rightarrow> State_Monad.return (True, Some e)
      | Inr a \<Rightarrow>
          if \<not> isPodActive w then handleInactivePod r a (pod_uid w) f
          else (case a of Some a \<Rightarrow> handleExistingS3PodAttachment r w p a f kind
                | None \<Rightarrow> handleNewS3PodAttachment r w p role f kind)))
    (\<lambda>res later. res = (False, None) \<longrightarrow> assigned w p (later @ earlier))"
  proof (rule performs_bind [OF performs_getExisting], intro performs, simp, use assms in simp)
    fix res new x
    assume read: "\<forall>x. res = Inr x \<longrightarrow> (\<exists>as. EvListS3PA (Some f) (Inr as) \<in> set new \<and>
       (case x of Some a \<Rightarrow> a \<in> set as | None \<Rightarrow> \<forall>a \<in> set as. sp_attachments a = []))"
      and res: "res = Inr x"
    show "performs (handleNewS3PodAttachment r w p role f kind)
      (\<lambda>res later. res = (False, None) \<longrightarrow> assigned w p ((later @ new) @ earlier))" if "x = None"
      by (rule performs_mono [OF performs_handleNew])
        (use read res that f in \<open>auto simp: assigned_def assigned_in_def\<close>)
    show "performs (handleExistingS3PodAttachment r w p a f kind)
      (\<lambda>res later. res = (False, None) \<longrightarrow> assigned w p ((later @ new) @ earlier))" if "x = Some a" for a
      by (rule performs_mono [OF performs_handleExisting])
        (use read res that f in \<open>fastforce simp: assigned_def assigned_in_def updated_for_def\<close>)
  qed
qed (use assms in auto)

section \<open>The volumes of a workload\<close>

definition claims_of :: "volume list \<Rightarrow> string set" where
  "claims_of vols = {claim. \<exists>v \<in> set vols. volume_source v = PersistentVolumeClaimSource claim}"

lemma claims_of_simps [simp]:
  "claims_of [] = {}"
  "claims_of (v # vols) =
     (case volume_source v of PersistentVolumeClaimSource claim \<Rightarrow> insert claim (claims_of vols)
      | _ \<Rightarrow> claims_of vols)"
  by (auto simp: claims_of_def split: volume_source.splits)

text \<open>The PersistentVolume bound to a claim of the workload, as the API server showed it.\<close>

definition bound_in :: "pod \<Rightarrow> string \<Rightarrow> pv \<Rightarrow> history \<Rightarrow> bool" where
  "bound_in w claim p h \<longleftrightarrow>
     (\<exists>c. EvGetPVC (pod_namespace w) claim (Inr c) \<in> set h \<and> pvc_phase c = ClaimBound \<and>
        EvGetPV (pvc_volume_name c) (Inr p) \<in> set h \<and> pv_claim_ref p = Some (pvc_name c))"

lemma bound_mono: "bound_in w claim p h \<Longrightarrow> set h \<subseteq> set h' \<Longrightarrow> bound_in w claim p h'"
  unfolding bound_in_def by blast

lemma performs_boundPV:
  "performs (getBoundPVForPodClaim r w claim) (\<lambda>res new. \<forall>c p. res = Inr (c, p) \<longrightarrow> bound_in w claim p new)"
  unfolding getBoundPVForPodClaim_def
  by (intro performs) (auto simp: bound_in_def split: sum.splits if_splits)

text \<open>Every claim was resolved, and the volumes of this driver are among \<open>ps\<close>.\<close>

definition all_bound :: "pod \<Rightarrow> volume list \<Rightarrow> pv list \<Rightarrow> history \<Rightarrow> bool" where
  "all_bound w vols ps h \<longleftrightarrow>
     (\<forall>claim \<in> claims_of vols. \<exists>p. bound_in w claim p h \<and> (extractCSISpecFromPV p \<noteq> None \<longrightarrow> p \<in> set ps))"

lemma all_bound_mono:
  "all_bound w vols ps h \<Longrightarrow> set ps \<subseteq> set ps' \<Longrightarrow> set h \<subseteq> set h' \<Longrightarrow> all_bound w vols ps' h'"
  unfolding all_bound_def by (meson bound_mono subsetD)

lemma all_bound_Cons:
  "all_bound w vols ps h \<Longrightarrow> volume_source vol = PersistentVolumeClaimSource claim \<Longrightarrow>
     bound_in w claim p h \<Longrightarrow> (extractCSISpecFromPV p \<noteq> None \<Longrightarrow> p \<in> set ps) \<Longrightarrow>
     all_bound w (vol # vols) ps h"
  unfolding all_bound_def by auto

lemma performs_workload_volumes:
  "performs (workload_volumes_loop r w vols)
     (\<lambda>(vs, unbound, errs) new. errs = [] \<and> \<not> unbound \<longrightarrow> all_bound w vols (map fst vs) new)"
proof (induction vols)
  case (Cons vol vols)
  show ?case
  proof (cases "volume_source vol")
    case (PersistentVolumeClaimSource claim)
    show ?thesis
      unfolding workload_volumes_loop.simps PersistentVolumeClaimSource volume_source.case
    proof (rule performs_bind [OF performs_boundPV], intro performs, goal_cases)
      case (1 res new e)
      show ?case
        by (rule performs_bind [OF Cons], intro performs) (auto split: if_splits)
    next
      case (2 res new y c p)
      then have p: "bound_in w claim p new" by simp
      have grow: "all_bound w (vol # vols) ps' (later @ new)"
        if "all_bound w vols ps later" "set ps \<subseteq> set ps'"
          "extractCSISpecFromPV p \<noteq> None \<Longrightarrow> p \<in> set ps'" for later ps ps'
        by (rule all_bound_Cons [OF all_bound_mono [OF that(1)] PersistentVolumeClaimSource bound_mono [OF p]])
          (use that(2,3) in auto)
      show ?case
      proof (rule performs_bind [OF Cons], intro performs, goal_cases)
        case (1 rest later)
        then show ?case
          by (cases rest) (auto intro!: grow split: option.splits)
      qed
    qed
  qed (use Cons in \<open>auto simp: all_bound_def\<close>)
qed (auto intro!: performs simp: all_bound_def)

section \<open>The calls of a step\<close>

text \<open>
  Whatever happens, the calls of a request come on top of those made before, and only the requests for
  the workload itself change a Pod in place by a patch: the transaction of a volume does not.
\<close>

fun patches :: "api_event \<Rightarrow> bool" where
  "patches (EvPatchPod _ _ _) = True"
| "patches _ = False"

definition grown :: "bool \<Rightarrow> history \<Rightarrow> ctl_state \<Rightarrow> bool" where
  "grown may_patch h s \<longleftrightarrow> (\<exists>new. calls s = new @ h \<and> (\<forall>e \<in> set new. patches e \<longrightarrow> may_patch))"

lemma grown_refl [simp]: "grown b (calls s) s"
  by (simp add: grown_def)

lemma grown_expectations [simp]: "grown b h (s\<lparr>s3paExpectations := x\<rparr>) = grown b h s"
  by (simp add: grown_def)

lemma grown_call [intro]: "grown b h s \<Longrightarrow> (patches e \<Longrightarrow> b) \<Longrightarrow> grown b h (s\<lparr>calls := e # calls s\<rparr>)"
  unfolding grown_def by (elim exE) (rule_tac x = "e # new" in exI, simp)

lemma grown_calls [intro]:
  "grown b h s \<Longrightarrow> \<not> patches e \<Longrightarrow> \<not> patches f \<Longrightarrow> grown b h (s\<lparr>calls := e # f # calls s\<rparr>)"
  "grown b h s \<Longrightarrow> \<not> patches e \<Longrightarrow> \<not> patches f \<Longrightarrow> \<not> patches g \<Longrightarrow> grown b h (s\<lparr>calls := e # f # g # calls s\<rparr>)"
  unfolding grown_def by (elim exE; rule_tac x = "e # f # new" in exI, simp)
    (elim exE; rule_tac x = "e # f # g # new" in exI, simp)

lemma not_patches: "read_event e \<Longrightarrow> \<not> patches e"
  by (cases e) auto

interpretation grow: volume_invariant r "grown b h" "\<lambda>_. True" for r b h
  by unfold_locales
    (auto simp: preserves_def wp addNeedsUnmountAnnotation_def getMountpointPod_def deleteS3PodAttachment_def
      spawn_for_existing_def spawnMountpointPod_def createS3PodAttachmentWithMPPod_def not_patches
      split: sum.splits option.splits)

interpretation grow_request: request_invariant r "grown True h" for r h
proof unfold_locales
  show "preserves (grown True h) (spawnOrDeleteMountpointPodIfNeeded r w p kind)" for w p kind
    by (rule grow.pres_spawnOrDelete)
qed (auto simp: preserves_def wp createHeadroomPodForMountpointPod_def create_headroom_def
      getHeadroomPodForMountpointPod_def deleteHeadroomPodForMountpointPod_def
      split: sum.splits option.splits)

lemma performs_grows:
  assumes "\<And>h. preserves (grown b h) m"
  shows "performs m (\<lambda>_ new. \<forall>e \<in> set new. patches e \<longrightarrow> b)"
  unfolding performs_def
proof
  fix s
  show "wp m (\<lambda>a s'. \<exists>new. calls s' = new @ calls s \<and> (\<forall>e \<in> set new. patches e \<longrightarrow> b)) s"
    by (rule wp_mono [OF preservesD [OF assms [of "calls s"]]]) (auto simp: grown_def)
qed

lemmas performs_workload_grows = performs_grows [OF grow_request.pres_reconcileWorkloadPod]
lemmas performs_volume_grows = performs_grows [OF grow.pres_spawnOrDelete]

lemma performs_mountpoint_quiet: "performs (reconcileMountpointPod r p) (\<lambda>_ new. \<forall>e \<in> set new. \<not> patches e)"
  unfolding reconcileMountpointPod_def deleteMountpointPod_def
  by (intro performs, (rule performs_bind [where S = "\<lambda>_ new. \<forall>e \<in> set new. \<not> patches e"]; intro performs)) simp_all

section \<open>A successful request\<close>

lemma performs_remove_headroom:
  "performs (remove_headroom_step r b p acc) (\<lambda>acc' _.
     acc_pod acc' = acc_pod acc \<and> acc_requeue acc' = acc_requeue acc \<and>
     numHeadroomPods acc' = numHeadroomPods acc \<and> (acc_errs acc' = [] \<longrightarrow> acc_errs acc = []))"
  unfolding remove_headroom_step_def deleteHeadroomPodForMountpointPod_def getHeadroomPodForMountpointPod_def
proof (intro performs, goal_cases)
  case 1
  have "performs (State_Monad.bind (get_pod (client r) (mountpoint_namespace (mountpointPodConfig r))
       (HeadroomPodNameFor (creatorOutside r) (acc_pod acc) p)) f) (\<lambda>_ _. True)"
    if "\<And>x. performs (f x) (\<lambda>_ _. True)" for f :: "error + pod \<Rightarrow> (ctl_state, error option) state"
    by (rule performs_bind_client) (rule that)
  show ?case
    by (rule performs_bind [where S = "\<lambda>_ _. True"]; intro performs) (auto simp: add_err_def split: option.splits)
qed auto

lemma performs_finish:
  "performs (finish_workload r b1 b2 b3 n acc)
     (\<lambda>res _. res = (DontRequeue, None) \<longrightarrow> acc_errs acc = [] \<and> \<not> acc_requeue acc)"
proof (cases "acc_errs acc")
  case Nil
  have patches: "performs (if c then patch_pod (client r) w w' else State_Monad.return (Inr w)) (\<lambda>_ _. True)"
    for c w w'
    by (intro performs) simp_all
  show ?thesis
    unfolding finish_workload_def ungateHeadroomSchedulingGateForWorkloadPod_def
      unlabelWorkloadPodForHeadroomPod_def errors_join_def Nil
    by (simp only: simp_thms if_True option.case, rule performs_bind [OF patches], intro performs, simp,
        rule performs_bind [OF patches], intro performs) (auto split: sum.splits)
qed (simp add: finish_workload_def errors_join_def performs_return)

text \<open>
  Every volume of a workload is served: its claim is resolved, and when the driver provides the volume,
  the workload is assigned to the attachment of that volume.
\<close>

definition served :: "pod \<Rightarrow> history \<Rightarrow> bool" where
  "served w h \<longleftrightarrow>
     (\<forall>claim \<in> claims_of (pod_volumes w). \<exists>p. bound_in w claim p h \<and>
        (extractCSISpecFromPV p \<noteq> None \<longrightarrow> assigned w p h))"

lemma served_mono: "served w h \<Longrightarrow> set h \<subseteq> set h' \<Longrightarrow> served w h'"
  unfolding served_def by (meson bound_mono assigned_mono)

lemma served_append: "served w h \<Longrightarrow> served w (h' @ h)"
  by (erule served_mono) simp

lemma served_from_volumes:
  "all_bound w (pod_volumes w) ps old \<Longrightarrow> \<forall>p \<in> set ps. assigned w p new \<Longrightarrow> served w (new @ old)"
  unfolding served_def all_bound_def by (fastforce elim!: bound_mono assigned_mono)

lemma performs_scheduled_volumes:
  assumes "isPodActive (acc_pod acc)"
  shows "performs (volumes_loop r True b1 b2 kind first ps acc) (\<lambda>res new. \<forall>acc'. res = Inr acc' \<longrightarrow>
     (acc_errs acc' = [] \<longrightarrow> acc_errs acc = []) \<and>
     (acc_errs acc' = [] \<and> \<not> acc_requeue acc' \<longrightarrow>
        \<not> acc_requeue acc \<and> (\<forall>p \<in> set ps. assigned (acc_pod acc) p new)))"
  using assms
proof (induction ps arbitrary: first acc)
  case (Cons p ps)
  let ?w = "acc_pod acc"
  have step: "performs (volume_step r True b1 b2 kind first p acc) (\<lambda>res new. \<forall>acc'. res = Inr acc' \<longrightarrow>
     acc_pod acc' = ?w \<and> (acc_errs acc' = [] \<longrightarrow> acc_errs acc = []) \<and>
     (acc_errs acc' = [] \<and> \<not> acc_requeue acc' \<longrightarrow> \<not> acc_requeue acc \<and> assigned ?w p new))"
    unfolding volume_step_def simp_thms if_True Let_def
    by (rule performs_bind [OF performs_volume [OF Cons.prems]], intro performs,
        rule performs_bind [OF performs_remove_headroom], intro performs)
      (auto simp: add_err_def split: if_splits intro: assigned_append)
  show ?case
    unfolding volumes_loop.simps
  proof (rule performs_bind [OF step], intro performs, simp, goal_cases)
    case (1 res new acc')
    then have w: "acc_pod acc' = ?w" and fine: "acc_errs acc' = [] \<longrightarrow> acc_errs acc = []"
      and p: "acc_errs acc' = [] \<and> \<not> acc_requeue acc' \<longrightarrow> \<not> acc_requeue acc \<and> assigned ?w p new"
      by simp_all
    show ?case
    proof (rule performs_mono [OF Cons.IH [of acc']], simp add: w Cons.prems, goal_cases)
      case (1 res' later)
      with fine p show ?case
        by (simp add: w) (blast intro: assigned_append)
    qed
  qed
qed (auto intro: performs_return)

lemma performs_getWorkloadVolumes:
  "performs (getWorkloadVolumes r w) (\<lambda>(vs, unbound, err) new.
      err = None \<and> \<not> unbound \<longrightarrow> all_bound w (pod_volumes w) (map fst vs) new)"
  unfolding getWorkloadVolumes_def
  by (rule performs_bind [OF performs_workload_volumes], intro performs)
    (auto simp: errors_join_def split: if_splits)

lemma performs_workload:
  assumes "isPodScheduled w" "isPodActive w"
  shows "performs (reconcileWorkloadPod r w) (\<lambda>res new. res = (DontRequeue, None) \<longrightarrow> served w new)"
proof -
  have accept: "performs (finish_workload r b1 b2 b3 n acc) (\<lambda>res later. res = (False, None) \<longrightarrow> served w ((later @ mid) @ old))"
    if "acc_errs acc = [] \<and> \<not> acc_requeue acc \<Longrightarrow> served w (mid @ old)" for b1 b2 b3 n acc mid old
    by (rule performs_mono [OF performs_finish])
      (use that in \<open>auto intro: served_append\<close>)
  have loop: "performs (State_Monad.bind
      (volumes_loop r (isPodScheduled w) b1 b2 kind True (map fst vs)
        \<lparr>acc_pod = w, acc_requeue = unbound, acc_errs = [], numHeadroomPods = 0, numRemovedHeadroomPods = 0\<rparr>)
      (\<lambda>res. case res of Inl e \<Rightarrow> State_Monad.return (False, Some e)
        | Inr acc \<Rightarrow> finish_workload r b1 b2 unbound (length vs) acc))
     (\<lambda>res later. res = (False, None) \<longrightarrow> served w (later @ old))"
    if old: "\<not> unbound \<longrightarrow> all_bound w (pod_volumes w) (map fst vs) old"
    for b1 b2 kind old unbound and vs :: "workload_volume list"
  proof -
    have w: "isPodScheduled w = True" using assms by simp
    show ?thesis
      unfolding w
      by (rule performs_bind [OF performs_scheduled_volumes], simp add: assms, intro performs, simp,
          rule accept, rule served_from_volumes [where ps = "map fst vs"])
        (use old in auto)
  qed
  show ?thesis
    unfolding reconcileWorkloadPod_def Let_def
    by (intro performs performs_bind [OF performs_getWorkloadVolumes] loop) (auto simp: served_def assms)
qed

text \<open>What is done with the Pod once it is read.\<close>

abbreviation (input) reconcile_read :: "reconciler \<Rightarrow> api_error + pod \<Rightarrow> (ctl_state, handled) state" where
  "reconcile_read r answer \<equiv>
     (case lift_sum answer of
        Inl e \<Rightarrow> State_Monad.return (False, if is_not_found e then None else Some e)
      | Inr p \<Rightarrow>
          if isInMountpointNamespace r p then
            (if IsHeadroomPod p then State_Monad.return (False, None) else reconcileMountpointPod r p)
          else reconcileWorkloadPod r p)"

lemma run_Reconcile:
  "run_state (Reconcile r ns name) s =
     run_state (reconcile_read r (on_get_pod (client r) (calls s) ns name))
       (s\<lparr>calls := EvGetPod ns name (on_get_pod (client r) (calls s) ns name) # calls s\<rparr>)"
  by (simp add: Reconcile_def get_pod_def api_call_def Let_def)

lemma performs_reconcile_read:
  "performs (reconcile_read r answer) (\<lambda>res later. res = (False, None) \<longrightarrow>
     (\<forall>w. answer = Inr w \<and> \<not> isInMountpointNamespace r w \<and> isPodScheduled w \<and> isPodActive w \<longrightarrow> served w later))"
  (is "performs _ ?R")
proof (intro performs)
  fix w
  assume w: "lift_sum answer = Inr w" and out: "\<not> isInMountpointNamespace r w"
  show "performs (reconcileWorkloadPod r w) ?R"
  proof (cases "isPodScheduled w \<and> isPodActive w")
    case True
    then show ?thesis
      using w by (intro performs_mono [OF performs_workload]) auto
  next
    case False
    with w show ?thesis by (intro performs_mono [OF performs_workload_grows]) auto
  qed
next
  fix p
  assume "lift_sum answer = Inr p" "isInMountpointNamespace r p"
  then show "performs (reconcileMountpointPod r p) ?R"
    by (intro performs_mono [OF performs_mountpoint_quiet]) auto
qed auto

text \<open>
  C3: When the reconciliation of a Pod reports that nothing is left to do, and the Pod that was read is a
  workload that is scheduled and active, then each of its claims was resolved in this very request to a
  bound PersistentVolume, and each volume of this driver has its workload in the MountpointS3PodAttachment:
  the listing with the fields of this workload and volume showed it there, or an update that adds it was
  accepted. The one exception is a workload that already runs and has no attachment.
\<close>

theorem reconciled_workload_is_served:
  assumes "run_state (Reconcile r ns name) s = ((DontRequeue, None), s')"
  shows "\<exists>later. calls s' = later @ EvGetPod ns name (on_get_pod (client r) (calls s) ns name) # calls s \<and>
     (\<forall>w. on_get_pod (client r) (calls s) ns name = Inr w \<and> \<not> isInMountpointNamespace r w \<and>
        isPodScheduled w \<and> isPodActive w \<longrightarrow> served w later)"
  by (rule performs_run [OF performs_reconcile_read assms [unfolded run_Reconcile]]) auto

definition served_example :: reconciler where
  "served_example = example_reconciler (\<lambda>ns n. Inr example_workload) [example_attachment]"

theorem reconciled_workload_is_served_witness:
  "\<exists>later. calls (snd (run_state (Reconcile served_example ''default'' ''w'') initial)) =
     later @ [EvGetPod ''default'' ''w'' (Inr example_workload)] \<and> served example_workload later"
proof -
  have "fst (run_state (Reconcile served_example ''default'' ''w'') initial) = (DontRequeue, None)"
    by code_simp
  then have "run_state (Reconcile served_example ''default'' ''w'') initial =
    ((DontRequeue, None), snd (run_state (Reconcile served_example ''default'' ''w'') initial))"
    by (simp add: prod_eq_iff)
  note served = reconciled_workload_is_served [OF this]
  have "\<not> isInMountpointNamespace served_example example_workload" "isPodScheduled example_workload"
    "isPodActive example_workload"
    by code_simp+
  moreover have "on_get_pod (client served_example) (calls initial) ''default'' ''w'' = Inr example_workload"
    by (simp add: served_example_def example_reconciler_def example_cluster_def)
  ultimately show ?thesis using served by (auto simp: initial_def)
qed

end
