(* ===== verification/Controller_Ungate.thy ===== *)
theory Controller_Ungate
  imports Controller_Workload
begin

text \<open>
  A workload that waits for room is released for scheduling only when the room is there: the controller
  takes the scheduling gate away last, after it created a Headroom Pod for every volume of this driver.
\<close>

section \<open>Taking the gate away\<close>

fun opens_gate :: "api_event \<Rightarrow> bool" where
  "opens_gate (EvPatchPod v v' _) =
     (ShouldReserveHeadroomForMountpointPod v \<and> \<not> ShouldReserveHeadroomForMountpointPod v')"
| "opens_gate _ = False"

lemma opens_patches: "opens_gate e \<Longrightarrow> patches e"
  by (cases e) auto

lemma labels_keep_gates [simp]:
  "scheduling_gates (fst (LabelWorkloadPodForHeadroomPod w)) = scheduling_gates w"
  "scheduling_gates (fst (UnlabelWorkloadPodForHeadroomPod w)) = scheduling_gates w"
  by (simp_all add: LabelWorkloadPodForHeadroomPod_def UnlabelWorkloadPodForHeadroomPod_def Let_def)

lemma labels_keep_reservation [simp]:
  "ShouldReserveHeadroomForMountpointPod (fst (LabelWorkloadPodForHeadroomPod w)) = ShouldReserveHeadroomForMountpointPod w"
  "ShouldReserveHeadroomForMountpointPod (fst (UnlabelWorkloadPodForHeadroomPod w)) = ShouldReserveHeadroomForMountpointPod w"
  by (simp_all add: ShouldReserveHeadroomForMountpointPod_def)

abbreviation shut :: "history \<Rightarrow> bool" where
  "shut h \<equiv> \<forall>e \<in> set h. \<not> opens_gate e"

section \<open>Room for a volume\<close>

text \<open>\<open>v\<close> is the workload \<open>w\<close> with the label the affinity of its Headroom Pods looks for.\<close>

definition labelled :: "pod \<Rightarrow> pod \<Rightarrow> history \<Rightarrow> bool" where
  "labelled w v h \<longleftrightarrow>
     v = w \<and> WorkloadHasLabelPodForHeadroomPod w \<or>
     EvPatchPod w (fst (LabelWorkloadPodForHeadroomPod w)) (Inr v) \<in> set h"

definition reserved :: "reconciler \<Rightarrow> pod \<Rightarrow> pv \<Rightarrow> history \<Rightarrow> bool" where
  "reserved r v p h \<longleftrightarrow>
     (\<exists>hr res. HeadroomPod (creatorOutside r) (mountpointPodConfig r) v p = Inr hr \<and>
        EvCreatePod hr res \<in> set h \<and> (\<forall>e. res = Inl e \<longrightarrow> e = AlreadyExists))"

lemma labelled_mono: "labelled w v h \<Longrightarrow> set h \<subseteq> set h' \<Longrightarrow> labelled w v h'"
  unfolding labelled_def by blast

lemma reserved_mono: "reserved r v p h \<Longrightarrow> set h \<subseteq> set h' \<Longrightarrow> reserved r v p h'"
  unfolding reserved_def by blast

lemma grow_append:
  "labelled w v h \<Longrightarrow> labelled w v (h' @ h)" "labelled w v h \<Longrightarrow> labelled w v (h @ h')"
  "reserved r v p h \<Longrightarrow> reserved r v p (h' @ h)" "reserved r v p h \<Longrightarrow> reserved r v p (h @ h')"
  by (erule labelled_mono reserved_mono; simp)+

lemma performs_label:
  "performs (labelWorkloadPodForHeadroomPod r w) (\<lambda>res new. shut new \<and> (\<forall>v. res = Inr v \<longrightarrow> labelled w v new))"
  unfolding labelWorkloadPodForHeadroomPod_def
  by (intro performs) (auto simp: labelled_def)

lemma performs_create_headroom:
  "performs (createHeadroomPodForMountpointPod r v p) (\<lambda>err new. shut new \<and> (err = None \<longrightarrow> reserved r v p new))"
proof -
  have "performs (create_headroom r v p) (\<lambda>err new. shut new \<and> (err = None \<longrightarrow> reserved r v p new))"
    unfolding create_headroom_def
    by (intro performs) (auto simp: reserved_def is_already_exists_def split: sum.splits if_splits)
  then show ?thesis
    unfolding createHeadroomPodForMountpointPod_def getHeadroomPodForMountpointPod_def
    by (intro performs) (auto intro: grow_append elim!: performs_mono)
qed

lemma performs_delete_headroom: "performs (deleteHeadroomPodForMountpointPod r v p) (\<lambda>_. shut)"
  unfolding deleteHeadroomPodForMountpointPod_def getHeadroomPodForMountpointPod_def
  by (intro performs) auto

lemma performs_remove_step:
  "performs (remove_headroom_step r b p acc) (\<lambda>acc' new.
     shut new \<and> acc_pod acc' = acc_pod acc \<and> numHeadroomPods acc' = numHeadroomPods acc)"
  unfolding remove_headroom_step_def
  by (intro performs, rule performs_bind [OF performs_delete_headroom], intro performs)
    (auto simp: add_err_def split: option.splits)

section \<open>The loop over the volumes\<close>

text \<open>
  A waiting workload: a turn counts a Headroom Pod only when its creation was accepted, so that the count
  reaches the number of volumes only if there is one for each of them.
\<close>

lemma performs_waiting_step:
  "performs (volume_step r False True b kind first p acc) (\<lambda>res new. shut new \<and> (\<forall>acc'. res = Inr acc' \<longrightarrow>
     (if first then labelled (acc_pod acc) (acc_pod acc') new else acc_pod acc' = acc_pod acc) \<and>
     (numHeadroomPods acc' = numHeadroomPods acc \<or>
      numHeadroomPods acc' = numHeadroomPods acc + 1 \<and> reserved r (acc_pod acc') p new)))"
proof -
  have label: "performs (if first then labelWorkloadPodForHeadroomPod r (acc_pod acc) else State_Monad.return (Inr (acc_pod acc)))
    (\<lambda>res new. shut new \<and> (\<forall>v. res = Inr v \<longrightarrow>
       (if first then labelled (acc_pod acc) v new else v = acc_pod acc)))"
    by (intro performs performs_mono [OF performs_label]) simp_all
  show ?thesis
    unfolding volume_step_def
    by (simp only: if_False if_True, rule performs_bind [OF label], intro performs, simp,
        rule performs_bind [OF performs_create_headroom], intro performs, (rule performs_bind [OF performs_remove_step])?)
      (auto intro!: performs elim!: reserved_mono labelled_mono simp: add_err_def split: if_splits)
qed

lemma performs_waiting_loop:
  "performs (volumes_loop r False True b kind first ps acc) (\<lambda>res new. shut new \<and> (\<forall>acc'. res = Inr acc' \<longrightarrow>
     (if first \<and> ps \<noteq> [] then labelled (acc_pod acc) (acc_pod acc') new else acc_pod acc' = acc_pod acc) \<and>
     numHeadroomPods acc' \<le> numHeadroomPods acc + length ps \<and>
     (numHeadroomPods acc' = numHeadroomPods acc + length ps \<longrightarrow>
        (\<forall>p \<in> set ps. reserved r (acc_pod acc') p new))))"
proof (induction ps arbitrary: first acc)
  case (Cons p ps)
  show ?case
    unfolding volumes_loop.simps
  proof (rule performs_bind [OF performs_waiting_step], intro performs, simp, goal_cases)
    case (1 res new acc')
    then have new: "shut new"
      and first: "if first then labelled (acc_pod acc) (acc_pod acc') new else acc_pod acc' = acc_pod acc"
      and count: "numHeadroomPods acc' = numHeadroomPods acc \<or>
        numHeadroomPods acc' = numHeadroomPods acc + 1 \<and> reserved r (acc_pod acc') p new"
      by simp_all
    show ?case
    proof (rule performs_mono [OF Cons.IH [of False acc']], intro conjI allI impI, goal_cases)
      case (1 res' later)
      with new show ?case by auto
    next
      case (2 res' later acc'')
      then have "acc_pod acc'' = acc_pod acc'" by simp
      with first show ?case by (auto intro: grow_append)
    next
      case (3 res' later acc'')
      then have "numHeadroomPods acc'' \<le> numHeadroomPods acc' + length ps" by simp
      with count show ?case by auto
    next
      case (4 res' later acc'')
      have "acc_pod acc'' = acc_pod acc' \<and> numHeadroomPods acc'' \<le> numHeadroomPods acc' + length ps \<and>
        (numHeadroomPods acc'' = numHeadroomPods acc' + length ps \<longrightarrow>
          (\<forall>p \<in> set ps. reserved r (acc_pod acc'') p later))"
        using 4(1) [THEN conjunct2, THEN spec, THEN mp, OF 4(2)] unfolding simp_thms if_False .
      then have w: "acc_pod acc'' = acc_pod acc'" and le: "numHeadroomPods acc'' \<le> numHeadroomPods acc' + length ps"
        and rest: "numHeadroomPods acc'' = numHeadroomPods acc' + length ps \<longrightarrow>
          (\<forall>p \<in> set ps. reserved r (acc_pod acc'') p later)"
        by blast+
      from le count 4(3) have one: "numHeadroomPods acc' = numHeadroomPods acc + 1" by auto
      with 4(3) have "numHeadroomPods acc'' = numHeadroomPods acc' + length ps" by simp
      with rest have later: "\<forall>p \<in> set ps. reserved r (acc_pod acc'') p later" by blast
      from one count have "reserved r (acc_pod acc'') p new" by (simp add: w)
      with later show ?case by (auto intro: grow_append)
    qed
  qed
qed (auto intro!: performs_return)

lemma performs_other_loop:
  assumes "scheduled \<or> \<not> needs"
  shows "performs (volumes_loop r scheduled needs b kind first ps acc) (\<lambda>res new. shut new \<and>
     (\<forall>acc'. res = Inr acc' \<longrightarrow> acc_pod acc' = acc_pod acc \<and> numHeadroomPods acc' = numHeadroomPods acc))"
proof (induction ps arbitrary: first acc)
  case (Cons p ps)
  have volume: "performs (spawnOrDeleteMountpointPodIfNeeded r w p kind) (\<lambda>_. shut)" for w
    by (rule performs_mono [OF performs_volume_grows [where b = False]]) (auto dest: opens_patches)
  have step: "performs (volume_step r scheduled needs b kind first p acc) (\<lambda>res new. shut new \<and>
     (\<forall>acc'. res = Inr acc' \<longrightarrow> acc_pod acc' = acc_pod acc \<and> numHeadroomPods acc' = numHeadroomPods acc))"
  proof (cases scheduled)
    case True
    show ?thesis
      unfolding volume_step_def Let_def if_P [OF True]
      by (rule performs_bind [OF volume], intro performs, simp_all add: add_err_def,
          rule performs_bind [OF performs_remove_step], intro performs) auto
  next
    case False
    with assms show ?thesis
      unfolding volume_step_def
      by (simp only: if_False simp_thms, intro performs_bind [OF performs_remove_step] performs) auto
  qed
  show ?case
    unfolding volumes_loop.simps
  proof (rule performs_bind [OF step], intro performs, simp, goal_cases)
    case (1 res new acc')
    then have "shut new" "acc_pod acc' = acc_pod acc" "numHeadroomPods acc' = numHeadroomPods acc"
      by simp_all
    then show ?case
      by (intro performs_mono [OF Cons.IH [of False acc']]) (simp only: set_append ball_Un simp_thms, blast)
  qed
qed (auto intro!: performs_return)

section \<open>The release\<close>

text \<open>
  Every volume of the workload \<open>w\<close> that this driver provides has its Headroom Pod, made for \<open>v\<close>, which is
  \<open>w\<close> after it got the label.
\<close>

definition room_for :: "reconciler \<Rightarrow> pod \<Rightarrow> pod \<Rightarrow> history \<Rightarrow> bool" where
  "room_for r w v h \<longleftrightarrow>
     (\<forall>claim \<in> claims_of (pod_volumes w). \<exists>p. bound_in w claim p h \<and>
        (extractCSISpecFromPV p \<noteq> None \<longrightarrow> labelled w v h \<and> reserved r v p h))"

definition release_guard :: "reconciler \<Rightarrow> api_error + pod \<Rightarrow> history \<Rightarrow> api_event \<Rightarrow> bool" where
  "release_guard r answer h e \<longleftrightarrow>
     (\<forall>v v' res. e = EvPatchPod v v' res \<and> opens_gate e \<longrightarrow>
        (\<exists>w. answer = Inr w \<and> \<not> isInMountpointNamespace r w \<and> room_for r w v h))"

lemma shut_guarded: "shut new \<Longrightarrow> guarded (\<lambda>h. release_guard r answer (h @ old)) new"
  by (rule guarded_all) (auto simp: release_guard_def)

lemma performs_finish_release:
  "performs (finish_workload r needs b unbound n acc) (\<lambda>_ new. \<exists>later early. new = later @ early \<and> shut later \<and>
     (shut early \<or> needs \<and> n = numHeadroomPods acc \<and> \<not> unbound \<and>
        (\<exists>v' res. early = [EvPatchPod (acc_pod acc) v' res])))"
proof (cases "acc_errs acc")
  case Nil
  have ungate: "performs (if needs \<and> n = numHeadroomPods acc \<and> \<not> unbound
      then ungateHeadroomSchedulingGateForWorkloadPod r (acc_pod acc) else State_Monad.return (Inr (acc_pod acc)))
    (\<lambda>_ new. shut new \<or> needs \<and> n = numHeadroomPods acc \<and> \<not> unbound \<and>
        (\<exists>v' res. new = [EvPatchPod (acc_pod acc) v' res]))"
    unfolding ungateHeadroomSchedulingGateForWorkloadPod_def by (intro performs) auto
  have unlabel: "performs (if c then unlabelWorkloadPodForHeadroomPod r w else State_Monad.return (Inr w)) (\<lambda>_. shut)"
    for c w
    unfolding unlabelWorkloadPodForHeadroomPod_def by (intro performs) auto
  show ?thesis
    unfolding finish_workload_def errors_join_def if_P [OF Nil] option.case
  proof (rule performs_bind [OF ungate], intro performs performs_bind [OF unlabel], goal_cases)
    case (1 res early e)
    then show ?case by (intro exI [of _ "[]"] exI [of _ early]) simp
  next
    case (2 res early w res' later)
    then show ?case by (intro exI [of _ later] exI [of _ early]) simp
  qed
next
  case (Cons e es)
  then show ?thesis by (simp add: finish_workload_def errors_join_def performs_return)
qed

lemma shut_append_guarded:
  "shut new \<Longrightarrow> guarded (release_guard r answer) old \<Longrightarrow> guarded (release_guard r answer) (new @ old)"
  by (simp add: guarded_append shut_guarded)

lemma guarded_shut: "shut h \<Longrightarrow> guarded (release_guard r answer) h"
  using shut_guarded [of h r answer "[]"] by simp

lemma room_from_volumes:
  assumes bound: "all_bound w (pod_volumes w) ps h" and ps: "\<forall>p \<in> set ps. reserved r v p h'"
    and label: "ps \<noteq> [] \<Longrightarrow> labelled w v h'"
  shows "room_for r w v (h' @ h)"
  unfolding room_for_def
proof
  fix claim
  assume "claim \<in> claims_of (pod_volumes w)"
  with bound obtain p where p: "bound_in w claim p h" "extractCSISpecFromPV p \<noteq> None \<longrightarrow> p \<in> set ps"
    unfolding all_bound_def by blast
  have "labelled w v h' \<and> reserved r v p h'" if "extractCSISpecFromPV p \<noteq> None"
    using that p(2) ps label by (cases ps) auto
  with p show "\<exists>p. bound_in w claim p (h' @ h) \<and>
      (extractCSISpecFromPV p \<noteq> None \<longrightarrow> labelled w v (h' @ h) \<and> reserved r v p (h' @ h))"
    by (intro exI [of _ p]) (auto elim: bound_mono intro: grow_append)
qed

lemma performs_volumes_release:
  fixes vs :: "workload_volume list"
  assumes "\<not> unbound \<longrightarrow> all_bound w (pod_volumes w) (map fst vs) old" "shut old"
    and out: "\<not> isInMountpointNamespace r w"
  shows "performs (State_Monad.bind
      (volumes_loop r scheduled needs b kind True (map fst vs)
        \<lparr>acc_pod = w, acc_requeue = unbound, acc_errs = [], numHeadroomPods = 0, numRemovedHeadroomPods = 0\<rparr>)
      (\<lambda>res. case res of Inl e \<Rightarrow> State_Monad.return (False, Some e)
        | Inr acc \<Rightarrow> finish_workload r needs b unbound (length vs) acc))
     (\<lambda>_ new. guarded (release_guard r (Inr w)) (new @ old))"
proof -
  let ?acc = "\<lparr>acc_pod = w, acc_requeue = unbound, acc_errs = [], numHeadroomPods = 0, numRemovedHeadroomPods = 0\<rparr>"
  have loop: "performs (volumes_loop r scheduled needs b kind True (map fst vs) ?acc) (\<lambda>res new. shut new \<and>
     (\<forall>acc. res = Inr acc \<and> needs \<and> length vs = numHeadroomPods acc \<and> \<not> unbound \<longrightarrow> room_for r w (acc_pod acc) (new @ old)))"
  proof (cases "scheduled \<or> \<not> needs")
    case True
    show ?thesis
      by (rule performs_mono [OF performs_other_loop [OF True]])
        (use assms in \<open>auto intro!: room_from_volumes [where ps = "[]"]\<close>)
  next
    case False
    then have mode: "scheduled = False" "needs = True" by simp_all
    show ?thesis
      unfolding mode
    proof (rule performs_mono [OF performs_waiting_loop], intro conjI allI impI, goal_cases)
      case (2 res new acc)
      then show ?case
        by (intro room_from_volumes [where ps = "map fst vs"]) (use assms in auto)
    qed simp
  qed
  show ?thesis
  proof (rule performs_bind [OF loop], intro performs, goal_cases)
    case (1 res new e)
    with assms(2) show ?case
      using shut_guarded [of "new @ old" r "Inr w" "[]"] by auto
  next
    case (2 res new acc)
    show ?case
    proof (rule performs_mono [OF performs_finish_release], elim exE conjE)
      fix all later early :: history
      assume all: "all = later @ early" and later: "shut later"
        and early: "shut early \<or> needs \<and> length vs = numHeadroomPods acc \<and> \<not> unbound \<and>
          (\<exists>v' res. early = [EvPatchPod (acc_pod acc) v' res])"
      have before: "guarded (release_guard r (Inr w)) (new @ old)"
        using 2 assms(2) by (intro guarded_shut) auto
      from early have "guarded (release_guard r (Inr w)) (early @ new @ old)"
      proof (elim disjE conjE exE)
        assume "shut early"
        then show ?thesis by (rule shut_append_guarded [OF _ before])
      next
        fix v' res'
        assume "early = [EvPatchPod (acc_pod acc) v' res']" "needs" "length vs = numHeadroomPods acc" "\<not> unbound"
        with before 2 out show ?thesis by (auto simp: release_guard_def)
      qed
      then show "guarded (release_guard r (Inr w)) ((all @ new) @ old)"
        by (simp add: all shut_append_guarded [OF later])
    qed
  qed
qed

lemma performs_workload_release:
  assumes "\<not> isInMountpointNamespace r w"
  shows "performs (reconcileWorkloadPod r w) (\<lambda>_. guarded (release_guard r (Inr w)))"
proof -
  have bound_pv: "performs (getBoundPVForPodClaim r w claim) (\<lambda>_. shut)" for claim
    unfolding getBoundPVForPodClaim_def by (intro performs) auto
  have "performs (workload_volumes_loop r w vols) (\<lambda>_. shut)" for vols
  proof (induction vols)
    case (Cons vol vols)
    then show ?case
      by (cases "volume_source vol")
        (auto intro!: performs performs_bind [OF bound_pv] performs_bind [OF Cons])
  qed (auto intro: performs_return)
  then have shut: "performs (getWorkloadVolumes r w) (\<lambda>_. shut)"
    unfolding getWorkloadVolumes_def by (rule performs_bind) (auto intro!: performs)
  have volumes: "performs (getWorkloadVolumes r w) (\<lambda>(vs, unbound, err) new. shut new \<and>
      (err = None \<and> \<not> unbound \<longrightarrow> all_bound w (pod_volumes w) (map fst vs) new))"
    by (rule performs_mono [OF performs_conj [OF shut performs_getWorkloadVolumes]]) auto
  show ?thesis
    unfolding reconcileWorkloadPod_def Let_def
    by (intro performs performs_bind [OF volumes] performs_volumes_release)
      (auto intro: guarded_shut simp: assms)
qed

lemma performs_read_release:
  "performs (reconcile_read r answer) (\<lambda>_. guarded (release_guard r answer))"
proof (intro performs)
  fix w
  assume "lift_sum answer = Inr w" "\<not> isInMountpointNamespace r w"
  then show "performs (reconcileWorkloadPod r w) (\<lambda>_. guarded (release_guard r answer))"
    using performs_workload_release [of r w] by simp
next
  fix p
  show "performs (reconcileMountpointPod r p) (\<lambda>_. guarded (release_guard r answer))"
    by (rule performs_mono [OF performs_mountpoint_quiet]) (auto intro!: guarded_shut dest: opens_patches)
qed simp_all

text \<open>
  C4: The controller takes the headroom scheduling gate away from a Pod only if that Pod is the workload
  it read at the start of the request, possibly with the label the controller just gave it, and only after
  it resolved each claim of the workload to a bound PersistentVolume and, for each volume of this driver,
  asked the API server for the Headroom Pod of that volume and was told that the Pod is made or exists.
\<close>

theorem headroom_reserved_before_release:
  "\<exists>later. calls (snd (run_state (Reconcile r ns name) s)) =
       later @ EvGetPod ns name (on_get_pod (client r) (calls s) ns name) # calls s \<and>
     guarded (release_guard r (on_get_pod (client r) (calls s) ns name)) later"
proof -
  let ?answer = "on_get_pod (client r) (calls s) ns name"
  obtain new where "calls (snd (run_state (Reconcile r ns name) s)) = new @ EvGetPod ns name ?answer # calls s"
    "guarded (release_guard r ?answer) new"
    by (rule performs_run [OF performs_read_release [of r ?answer],
          of "s\<lparr>calls := EvGetPod ns name ?answer # calls s\<rparr>", OF surjective_pairing])
      (simp add: run_Reconcile)
  then show ?thesis by blast
qed

text \<open>A workload that waits, and a cluster in which nothing goes wrong.\<close>

definition waiting_workload :: pod where
  "waiting_workload = example_workload\<lparr>node_name := [],
     scheduling_gates := [SchedulingGateReserveHeadroomForMountpointPod]\<rparr>"

definition waiting_example :: reconciler where
  "waiting_example = example_reconciler
     (\<lambda>ns n. if ns = ''default'' then Inr waiting_workload else Inl NotFound) []"

theorem headroom_reserved_before_release_witness:
  "\<exists>late v v' res early. calls (snd (run_state (Reconcile waiting_example ''default'' ''w'') initial)) =
       late @ EvPatchPod v v' res # early @ [EvGetPod ''default'' ''w'' (Inr waiting_workload)] \<and>
     opens_gate (EvPatchPod v v' res) \<and> room_for waiting_example waiting_workload v early"
proof -
  let ?calls = "calls (snd (run_state (Reconcile waiting_example ''default'' ''w'') initial))"
  have answer: "on_get_pod (client waiting_example) (calls initial) ''default'' ''w'' = Inr waiting_workload"
    by (simp add: waiting_example_def example_reconciler_def example_cluster_def)
  obtain later where later: "?calls = later @ [EvGetPod ''default'' ''w'' (Inr waiting_workload)]"
    and guard: "guarded (release_guard waiting_example (Inr waiting_workload)) later"
    using headroom_reserved_before_release [of waiting_example "''default''" "''w''" initial]
    unfolding answer by (auto simp: initial_def)
  have "list_ex opens_gate ?calls" by code_simp
  then obtain e where "e \<in> set later" and opens: "opens_gate e"
    by (auto simp: later list_ex_iff)
  then obtain late early where split: "later = late @ e # early" by (meson split_list)
  obtain v v' res where e: "e = EvPatchPod v v' res" using opens by (cases e) auto
  from guard have "release_guard waiting_example (Inr waiting_workload) early e"
    unfolding split by (rule guarded_suffix)
  with opens have "room_for waiting_example waiting_workload v early"
    by (auto simp: release_guard_def e)
  moreover have "?calls = late @ EvPatchPod v v' res # early @ [EvGetPod ''default'' ''w'' (Inr waiting_workload)]"
    by (simp add: later split e)
  ultimately show ?thesis using opens unfolding e by blast
qed

end
