(* ===== verification/Driver_Service.thy ===== *)
theory Driver_Service
  imports Paths
begin

text \<open>
  The process of the node driver around its services (\<^verbatim>\<open>cmd/aws-s3-csi-driver/main.go\<close>,
  \<^verbatim>\<open>pkg/driver/driver.go\<close>, \<^verbatim>\<open>pkg/driver/server.go\<close>): the endpoint, how the gRPC server is brought up
  on it, and how a signal takes it down. The CSI calls that need no more than a constant
  (\<^verbatim>\<open>controller.go\<close>, \<^verbatim>\<open>identity.go\<close>) and the writer of the log (\<^verbatim>\<open>pkg/util/log\<close>) stand at the end.
\<close>

section \<open>The endpoint\<close>

text \<open>What the code uses of the URL that \<^verbatim>\<open>url.Parse\<close> gives, and the answer of a call to the system.\<close>

record url =
  url_scheme :: string
  url_host :: string
  url_path :: string

type_synonym parse_url = "string \<Rightarrow> url option"

datatype sys_answer = Ok | NotExist | Failed

datatype run_error = BadEndpoint | SocketNotRemoved string | UnsupportedProtocol string
  | ListenFailed | ChmodFailed string | ServerStopped | AcceptFailed

definition lower_char :: "char \<Rightarrow> char" where
  "lower_char c =
     (if 65 \<le> (of_char c :: nat) \<and> (of_char c :: nat) \<le> 90 then char_of ((of_char c :: nat) + 32) else c)"

definition to_lower :: "string \<Rightarrow> string" where "to_lower s = map lower_char s"

definition endpoint_addr :: "url \<Rightarrow> string" where
  "endpoint_addr u = path_join [url_host u, url_path u]"

text \<open>
  The result, and the file the function asked the system to remove, if any. \<open>remove\<close> is the answer to
  that call.
\<close>

definition ParseEndpoint :: "parse_url \<Rightarrow> sys_answer \<Rightarrow> string \<Rightarrow> (run_error + string \<times> string) \<times> string option" where
  "ParseEndpoint parse remove endpoint =
     (case parse endpoint of
        None \<Rightarrow> (Inl BadEndpoint, None)
      | Some u \<Rightarrow>
          let addr = endpoint_addr u; scheme = to_lower (url_scheme u)
          in if scheme = ''tcp'' then (Inr (scheme, addr), None)
             else if scheme = ''unix'' then
               let addr = path_join [''/'', addr]
               in (if remove = Failed then Inl (SocketNotRemoved addr) else Inr (scheme, addr), Some addr)
             else (Inl (UnsupportedProtocol scheme), None))"

section \<open>Bringing the server up and down\<close>

datatype service = IdentityService | ControllerService | NodeService

record grpc_server =
  services :: "service list"
  stopped :: bool

text \<open>The calls of the process to the system and to the server, newest first in a state.\<close>

datatype driver_event =
    EvRemove string sys_answer
  | EvListen string string sys_answer
  | EvChmod string nat sys_answer
  | EvServe string string "service list"
  | EvAccept

definition unixSocketPerm :: nat where "unixSocketPerm = 448"      \<comment> \<open>octal 700\<close>

text \<open>Where the main goroutine is in \<^verbatim>\<open>Run\<close>, and the goroutine that waits for a signal in \<^verbatim>\<open>Stop\<close>.\<close>

datatype run_pc =
    Starting
  | Listening string string          \<comment> \<open>before \<^verbatim>\<open>net.Listen\<close>\<close>
  | Restricting string string        \<comment> \<open>before \<^verbatim>\<open>os.Chmod\<close>\<close>
  | Creating string string           \<comment> \<open>before \<^verbatim>\<open>grpc.NewServer\<close>\<close>
  | Registering string string "service list"    \<comment> \<open>before the registrations that are left\<close>
  | Watching string string           \<comment> \<open>before the taint watcher\<close>
  | BeforeServe string string
  | Serving string string
  | Returned "run_error option"

datatype stop_pc = AwaitingSignal | ClosingChannel | StoppingServer | StopDone | StopPanicked

record driver =
  run_at :: run_pc
  stop_at :: stop_pc
  d_Srv :: "grpc_server option"      \<comment> \<open>the pointer of the struct, nil before \<^verbatim>\<open>Run\<close> sets it\<close>
  d_stopCh_closed :: bool
  has_clientset :: bool
  taint_watcher :: bool
  driver_calls :: "driver_event list"

definition called :: "driver_event \<Rightarrow> driver \<Rightarrow> driver" where
  "called e d = d\<lparr>driver_calls := e # driver_calls d\<rparr>"

definition return_err :: "run_error \<Rightarrow> driver \<Rightarrow> driver" where
  "return_err e d = d\<lparr>run_at := Returned (Some e)\<rparr>"

definition srv_stopped :: "driver \<Rightarrow> bool" where
  "srv_stopped d = (case d_Srv d of None \<Rightarrow> False | Some s \<Rightarrow> stopped s)"

definition register :: "service \<Rightarrow> driver \<Rightarrow> driver" where
  "register sv d = d\<lparr>d_Srv := map_option (\<lambda>s. s\<lparr>services := services s @ [sv]\<rparr>) (d_Srv d)\<rparr>"

definition registered :: "driver \<Rightarrow> service list" where
  "registered d = (case d_Srv d of None \<Rightarrow> [] | Some s \<Rightarrow> services s)"

text \<open>
  The steps of \<^verbatim>\<open>Run\<close>, each with the answer of its call. \<^verbatim>\<open>Serve\<close> is the one of \<^verbatim>\<open>grpc\<close>: it refuses a
  server that was stopped before, accepts connections, and returns no error once \<^verbatim>\<open>Stop\<close> was called.
\<close>

definition Run_step :: "parse_url \<Rightarrow> string \<Rightarrow> sys_answer \<Rightarrow> driver \<Rightarrow> driver option" where
  "Run_step parse endpoint a d =
     (case run_at d of
        Starting \<Rightarrow>
          (case ParseEndpoint parse a endpoint of
             (res, removed) \<Rightarrow>
               let d = (case removed of None \<Rightarrow> d | Some f \<Rightarrow> called (EvRemove f a) d)
               in Some (case res of
                    Inl e \<Rightarrow> return_err e d
                  | Inr (scheme, addr) \<Rightarrow> d\<lparr>run_at := Listening scheme addr\<rparr>))
      | Listening scheme addr \<Rightarrow>
          let d = called (EvListen scheme addr a) d
          in Some (if a \<noteq> Ok then return_err ListenFailed d
                   else d\<lparr>run_at := (if scheme = ''unix'' then Restricting scheme addr else Creating scheme addr)\<rparr>)
      | Restricting scheme addr \<Rightarrow>
          let d = called (EvChmod addr unixSocketPerm a) d
          in Some (if a \<noteq> Ok then return_err (ChmodFailed addr) d else d\<lparr>run_at := Creating scheme addr\<rparr>)
      | Creating scheme addr \<Rightarrow>
          Some (d\<lparr>d_Srv := Some \<lparr>services = [], stopped = False\<rparr>,
                  run_at := Registering scheme addr [IdentityService, ControllerService, NodeService]\<rparr>)
      | Registering scheme addr (sv # svs) \<Rightarrow>
          Some ((register sv d)\<lparr>run_at := Registering scheme addr svs\<rparr>)
      | Registering scheme addr [] \<Rightarrow> Some (d\<lparr>run_at := Watching scheme addr\<rparr>)
      | Watching scheme addr \<Rightarrow> Some (d\<lparr>taint_watcher := has_clientset d, run_at := BeforeServe scheme addr\<rparr>)
      | BeforeServe scheme addr \<Rightarrow>
          Some (if srv_stopped d then return_err ServerStopped d
                else (called (EvServe scheme addr (registered d)) d)\<lparr>run_at := Serving scheme addr\<rparr>)
      | Serving scheme addr \<Rightarrow>
          Some (if srv_stopped d then d\<lparr>run_at := Returned None\<rparr>
                else if a = Ok then called EvAccept d else return_err AcceptFailed d)
      | Returned e \<Rightarrow> None)"

text \<open>The steps of the goroutine of \<^verbatim>\<open>main\<close> and of \<^verbatim>\<open>Stop\<close>; stopping a nil server is a panic.\<close>

definition stop_step :: "driver \<Rightarrow> driver option" where
  "stop_step d =
     (case stop_at d of
        AwaitingSignal \<Rightarrow> Some (d\<lparr>stop_at := ClosingChannel\<rparr>)
      | ClosingChannel \<Rightarrow> Some (d\<lparr>d_stopCh_closed := True, stop_at := StoppingServer\<rparr>)
      | StoppingServer \<Rightarrow>
          Some (case d_Srv d of
              None \<Rightarrow> d\<lparr>stop_at := StopPanicked\<rparr>
            | Some s \<Rightarrow> d\<lparr>d_Srv := Some (s\<lparr>stopped := True\<rparr>), stop_at := StopDone\<rparr>)
      | StopDone \<Rightarrow> None
      | StopPanicked \<Rightarrow> None)"

text \<open>A panic, and the return of \<^verbatim>\<open>main\<close> or its \<^verbatim>\<open>klog.Fatalln\<close> after \<^verbatim>\<open>Run\<close>, end both goroutines.\<close>

definition process_ended :: "driver \<Rightarrow> bool" where
  "process_ended d \<longleftrightarrow> stop_at d = StopPanicked \<or> (case run_at d of Returned e \<Rightarrow> True | _ \<Rightarrow> False)"

inductive driver_step :: "parse_url \<Rightarrow> string \<Rightarrow> driver \<Rightarrow> driver \<Rightarrow> bool"
  for parse endpoint where
  run: "\<not> process_ended d \<Longrightarrow> Run_step parse endpoint a d = Some d' \<Longrightarrow> driver_step parse endpoint d d'"
| stop: "\<not> process_ended d \<Longrightarrow> stop_step d = Some d' \<Longrightarrow> driver_step parse endpoint d d'"

definition new_driver :: "bool \<Rightarrow> driver" where
  "new_driver clientset =
     \<lparr>run_at = Starting, stop_at = AwaitingSignal, d_Srv = None, d_stopCh_closed = False,
      has_clientset = clientset, taint_watcher = False, driver_calls = []\<rparr>"

definition driver_reachable :: "parse_url \<Rightarrow> string \<Rightarrow> driver \<Rightarrow> bool" where
  "driver_reachable parse endpoint d \<longleftrightarrow> (\<exists>c. (driver_step parse endpoint)\<^sup>*\<^sup>* (new_driver c) d)"

section \<open>What is open when\<close>

abbreviation all_services :: "service list" where
  "all_services \<equiv> [IdentityService, ControllerService, NodeService]"

text \<open>The calls of \<^verbatim>\<open>Run\<close> before \<^verbatim>\<open>net.Listen\<close>, and those before \<^verbatim>\<open>Serve\<close>.\<close>

definition entered :: "parse_url \<Rightarrow> string \<Rightarrow> string \<Rightarrow> string \<Rightarrow> driver_event list \<Rightarrow> bool" where
  "entered parse endpoint scheme addr h \<longleftrightarrow>
     (\<exists>u. parse endpoint = Some u \<and> to_lower (url_scheme u) = scheme \<and>
        (scheme = ''tcp'' \<and> addr = endpoint_addr u \<and> h = [] \<or>
         scheme = ''unix'' \<and> addr = path_join [''/'', endpoint_addr u] \<and>
           (\<exists>res. res \<noteq> Failed \<and> h = [EvRemove addr res])))"

definition prepared :: "parse_url \<Rightarrow> string \<Rightarrow> string \<Rightarrow> string \<Rightarrow> driver_event list \<Rightarrow> bool" where
  "prepared parse endpoint scheme addr h \<longleftrightarrow>
     (\<exists>h'. entered parse endpoint scheme addr h' \<and>
        h = (if scheme = ''unix'' then [EvChmod addr unixSocketPerm Ok] else []) @ EvListen scheme addr Ok # h')"

definition served_calls :: "parse_url \<Rightarrow> string \<Rightarrow> string \<Rightarrow> string \<Rightarrow> driver_event list \<Rightarrow> bool" where
  "served_calls parse endpoint scheme addr h \<longleftrightarrow>
     (\<exists>n h'. h = replicate n EvAccept @ EvServe scheme addr all_services # h' \<and>
        prepared parse endpoint scheme addr h')"

lemma entered_no_accept: "entered parse endpoint scheme addr h \<Longrightarrow> EvAccept \<notin> set h"
  by (auto simp: entered_def)

lemma prepared_no_accept: "prepared parse endpoint scheme addr h \<Longrightarrow> EvAccept \<notin> set h"
  by (auto simp: prepared_def dest: entered_no_accept)

lemma served_accept: "served_calls parse endpoint scheme addr h \<Longrightarrow> served_calls parse endpoint scheme addr (EvAccept # h)"
  unfolding served_calls_def by (metis append_Cons replicate_Suc)

lemma path_join_root: "has_prefix (path_join [''/'', s]) ''/''"
proof -
  have "has_prefix (path_clean (CHR ''/'' # s')) ''/''" for s'
    by (simp add: path_clean_def Let_def has_prefix_def)
  then show ?thesis by (simp add: path_join_def)
qed

definition driver_ok :: "parse_url \<Rightarrow> string \<Rightarrow> driver \<Rightarrow> bool" where
  "driver_ok parse endpoint d =
     (case run_at d of
        Starting \<Rightarrow> driver_calls d = [] \<and> d_Srv d = None
      | Listening scheme addr \<Rightarrow> entered parse endpoint scheme addr (driver_calls d) \<and> d_Srv d = None
      | Restricting scheme addr \<Rightarrow> scheme = ''unix'' \<and> d_Srv d = None \<and>
          (\<exists>h. driver_calls d = EvListen scheme addr Ok # h \<and> entered parse endpoint scheme addr h)
      | Creating scheme addr \<Rightarrow> prepared parse endpoint scheme addr (driver_calls d) \<and> d_Srv d = None
      | Registering scheme addr svs \<Rightarrow> prepared parse endpoint scheme addr (driver_calls d) \<and>
          d_Srv d \<noteq> None \<and> registered d @ svs = all_services
      | Watching scheme addr \<Rightarrow> prepared parse endpoint scheme addr (driver_calls d) \<and>
          d_Srv d \<noteq> None \<and> registered d = all_services
      | BeforeServe scheme addr \<Rightarrow> prepared parse endpoint scheme addr (driver_calls d) \<and>
          d_Srv d \<noteq> None \<and> registered d = all_services
      | Serving scheme addr \<Rightarrow> served_calls parse endpoint scheme addr (driver_calls d) \<and> d_Srv d \<noteq> None
      | Returned e \<Rightarrow> EvAccept \<notin> set (driver_calls d) \<or>
          (\<exists>scheme addr. served_calls parse endpoint scheme addr (driver_calls d)))"

lemma driver_ok_new: "driver_ok parse endpoint (new_driver c)"
  by (simp add: driver_ok_def new_driver_def)

lemma stop_frame:
  assumes "stop_step d = Some d'"
  shows "run_at d' = run_at d" "driver_calls d' = driver_calls d" "registered d' = registered d"
    "(d_Srv d' = None) = (d_Srv d = None)"
  using assms by (auto simp: stop_step_def registered_def split: stop_pc.splits option.splits)

lemma driver_ok_stop: "driver_ok parse endpoint d \<Longrightarrow> stop_step d = Some d' \<Longrightarrow> driver_ok parse endpoint d'"
  by (simp add: driver_ok_def stop_frame cong: run_pc.case_cong)

lemmas run_simps = Run_step_def driver_ok_def called_def return_err_def Let_def

lemma driver_ok_run:
  assumes "driver_ok parse endpoint d" "Run_step parse endpoint a d = Some d'"
  shows "driver_ok parse endpoint d'"
proof (cases "run_at d")
  case Starting
  with assms show ?thesis
    by (auto simp: run_simps ParseEndpoint_def entered_def split: option.splits if_splits)
next
  case (Listening scheme addr)
  with assms show ?thesis
    by (auto simp: run_simps prepared_def dest: entered_no_accept split: if_splits)
next
  case (Restricting scheme addr)
  with assms show ?thesis
    by (auto simp: run_simps prepared_def dest: entered_no_accept split: if_splits)
next
  case (Registering scheme addr svs)
  with assms show ?thesis
    by (cases svs) (auto simp: run_simps register_def registered_def)
next
  case (BeforeServe scheme addr)
  have "served_calls parse endpoint scheme addr (EvServe scheme addr all_services # h)"
    if "prepared parse endpoint scheme addr h" for h
    unfolding served_calls_def using that by (intro exI [of _ 0] exI [of _ h]) simp
  with BeforeServe assms show ?thesis
    by (auto simp: run_simps dest: prepared_no_accept split: if_splits)
next
  case (Serving scheme addr)
  with assms show ?thesis
    by (auto simp: run_simps intro: served_accept split: if_splits) blast+
qed (use assms in \<open>auto simp: run_simps registered_def\<close>)

lemma driver_reachable_ok: "driver_reachable parse endpoint d \<Longrightarrow> driver_ok parse endpoint d"
proof -
  assume "driver_reachable parse endpoint d"
  then obtain c where "(driver_step parse endpoint)\<^sup>*\<^sup>* (new_driver c) d"
    by (auto simp: driver_reachable_def)
  then show ?thesis
    by induction (auto simp: driver_ok_new elim!: driver_step.cases intro: driver_ok_stop driver_ok_run)
qed

text \<open>
  C28: In every interleaving of the start of the driver and its shutdown, whatever the system answers: once a
  connection is accepted, the calls so far are exactly these. For a Unix socket the old file at the address
  was removed or was not there, the socket was created, its permissions were restricted to the owner, and
  only then the server, with all three CSI services registered, began to accept; the address is absolute.
  For TCP the address is that of the URL and nothing was removed.
\<close>

theorem connections_only_when_private:
  assumes "driver_reachable parse endpoint d" and "EvAccept \<in> set (driver_calls d)"
  shows "\<exists>u n. parse endpoint = Some u \<and>
     (to_lower (url_scheme u) = ''tcp'' \<and>
        driver_calls d = replicate n EvAccept @
          [EvServe ''tcp'' (endpoint_addr u) all_services, EvListen ''tcp'' (endpoint_addr u) Ok] \<or>
      to_lower (url_scheme u) = ''unix'' \<and>
        (\<exists>addr res. addr = path_join [''/'', endpoint_addr u] \<and> has_prefix addr ''/'' \<and> res \<noteq> Failed \<and>
          driver_calls d = replicate n EvAccept @
            [EvServe ''unix'' addr all_services, EvChmod addr unixSocketPerm Ok, EvListen ''unix'' addr Ok, EvRemove addr res]))"
proof -
  have "driver_ok parse endpoint d" by (rule driver_reachable_ok [OF assms(1)])
  with assms(2) obtain scheme addr where "served_calls parse endpoint scheme addr (driver_calls d)"
    by (cases "run_at d")
      (auto simp: driver_ok_def entered_def dest: entered_no_accept prepared_no_accept)
  then show ?thesis
    unfolding served_calls_def prepared_def entered_def
    by (auto intro: path_join_root)
qed

text \<open>The URL of the default endpoint, and a start of the driver on it up to the first connection.\<close>

definition example_parse :: parse_url where
  "example_parse e =
     (if e = ''unix://tmp/csi.sock''
      then Some \<lparr>url_scheme = ''unix'', url_host = ''tmp'', url_path = ''/csi.sock''\<rparr> else None)"

lemma example_endpoint:
  "ParseEndpoint example_parse Ok ''unix://tmp/csi.sock'' = (Inr (''unix'', ''/tmp/csi.sock''), Some ''/tmp/csi.sock'')"
  by code_simp

text \<open>The first steps of \<^verbatim>\<open>Run\<close> when no call fails and no signal comes.\<close>

fun started :: "nat \<Rightarrow> driver" where
  "started 0 = new_driver True"
| "started (Suc n) =
     (case Run_step example_parse ''unix://tmp/csi.sock'' Ok (started n) of None \<Rightarrow> started n | Some d \<Rightarrow> d)"

lemma started_reachable:
  "(\<And>m. m < n \<Longrightarrow> \<not> process_ended (started m)) \<Longrightarrow>
     driver_reachable example_parse ''unix://tmp/csi.sock'' (started n)"
proof (induction n)
  case 0
  show ?case by (auto simp: driver_reachable_def)
next
  case (Suc n)
  have "driver_step example_parse ''unix://tmp/csi.sock'' (started n) (started (Suc n)) \<or> started (Suc n) = started n"
    using Suc.prems [of n] by (auto intro: driver_step.run split: option.split)
  moreover have "driver_reachable example_parse ''unix://tmp/csi.sock'' (started n)"
    by (rule Suc.IH) (simp add: Suc.prems)
  ultimately show ?case
    by (auto simp only: driver_reachable_def intro: rtranclp.rtrancl_into_rtrancl)
qed

theorem connections_only_when_private_witness:
  "\<exists>addr. driver_calls (started 11) =
     [EvAccept, EvServe ''unix'' addr all_services, EvChmod addr unixSocketPerm Ok, EvListen ''unix'' addr Ok, EvRemove addr Ok] \<and>
     has_prefix addr ''/''"
proof -
  note eval = run_simps example_endpoint new_driver_def register_def registered_def srv_stopped_def
  have "\<forall>m<11. \<not> process_ended (started m)"
    by (simp add: eval_nat_numeral All_less_Suc eval process_ended_def)
  then have "driver_reachable example_parse ''unix://tmp/csi.sock'' (started 11)"
    by (intro started_reachable) blast
  moreover have calls: "driver_calls (started 11) = [EvAccept, EvServe ''unix'' ''/tmp/csi.sock'' all_services,
      EvChmod ''/tmp/csi.sock'' unixSocketPerm Ok, EvListen ''unix'' ''/tmp/csi.sock'' Ok, EvRemove ''/tmp/csi.sock'' Ok]"
    by (simp add: eval_nat_numeral eval)
  ultimately obtain n u addr res where "has_prefix addr ''/''" "driver_calls (started 11) =
      replicate n EvAccept @
        [EvServe ''unix'' addr all_services, EvChmod addr unixSocketPerm Ok, EvListen ''unix'' addr Ok, EvRemove addr res]"
    using connections_only_when_private [of example_parse "''unix://tmp/csi.sock''" "started 11"]
    by (fastforce simp: append_eq_Cons_conv)
  with calls show ?thesis
    by (cases n) auto
qed

section \<open>Shutting down\<close>

text \<open>
  Once the server is stopped no further connection is accepted, and \<^verbatim>\<open>Run\<close> returns within six steps,
  without an error if it was serving. A signal before \<^verbatim>\<open>Run\<close> made the server stops a nil server instead.
\<close>

fun steps_left :: "run_pc \<Rightarrow> nat" where
  "steps_left Starting = 10"
| "steps_left (Listening _ _) = 9"
| "steps_left (Restricting _ _) = 8"
| "steps_left (Creating _ _) = 7"
| "steps_left (Registering _ _ svs) = 3 + length svs"
| "steps_left (Watching _ _) = 2"
| "steps_left (BeforeServe _ _) = 1"
| "steps_left (Serving _ _) = 1"
| "steps_left (Returned _) = 0"

definition down :: "driver \<Rightarrow> bool" where
  "down d \<longleftrightarrow> stop_at d = StopDone \<and> srv_stopped d \<and>
     (case run_at d of Starting \<Rightarrow> False | Listening _ _ \<Rightarrow> False | Restricting _ _ \<Rightarrow> False | Creating _ _ \<Rightarrow> False | _ \<Rightarrow> True)"

lemma down_step:
  assumes "down d" "driver_step parse endpoint d d'"
  shows "down d'" "steps_left (run_at d') < steps_left (run_at d)" "driver_calls d' = driver_calls d"
proof -
  have "\<exists>a. Run_step parse endpoint a d = Some d'"
    using assms by (auto elim!: driver_step.cases simp: down_def stop_step_def)
  then have "down d' \<and> steps_left (run_at d') < steps_left (run_at d) \<and> driver_calls d' = driver_calls d"
    using assms(1)
    by (auto simp: down_def Run_step_def register_def srv_stopped_def return_err_def
        split: run_pc.splits list.splits option.splits)
  then show "down d'" "steps_left (run_at d') < steps_left (run_at d)" "driver_calls d' = driver_calls d"
    by simp_all
qed

lemma down_goes_on: "down d \<Longrightarrow> process_ended d \<or> (\<exists>d'. driver_step parse endpoint d d')"
proof -
  assume d: "down d"
  have "process_ended d \<or> (\<exists>d'. Run_step parse endpoint Ok d = Some d')"
    using d by (cases "run_at d") (auto simp: process_ended_def down_def Run_step_def Let_def split: list.splits)
  then show ?thesis by (auto intro: driver_step.run)
qed

lemma stop_goes_down:
  assumes "driver_reachable parse endpoint d" "stop_at d = StoppingServer" "stop_step d = Some d'"
  shows "if d_Srv d = None then stop_at d' = StopPanicked else down d'"
  using driver_reachable_ok [OF assms(1)] assms(2,3)
  by (auto simp: stop_step_def down_def srv_stopped_def driver_ok_def split: option.splits run_pc.splits)

lemma early_signal_panics:
  "\<exists>d. driver_reachable parse endpoint d \<and> stop_at d = StopPanicked"
proof -
  let ?d0 = "new_driver True"
  let ?d1 = "?d0\<lparr>stop_at := ClosingChannel\<rparr>"
  let ?d2 = "?d1\<lparr>d_stopCh_closed := True, stop_at := StoppingServer\<rparr>"
  let ?d3 = "?d2\<lparr>stop_at := StopPanicked\<rparr>"
  have "driver_step parse endpoint ?d0 ?d1" "driver_step parse endpoint ?d1 ?d2" "driver_step parse endpoint ?d2 ?d3"
    by (rule driver_step.stop; simp add: process_ended_def stop_step_def new_driver_def)+
  then have "(driver_step parse endpoint)\<^sup>*\<^sup>* ?d0 ?d3" by (meson r_into_rtranclp rtranclp_trans)
  then show ?thesis unfolding driver_reachable_def by (intro exI [of _ ?d3]) auto
qed

section \<open>The entry point\<close>

text \<open>What \<^verbatim>\<open>main\<close> does with its flags, before the driver is made and run.\<close>

datatype entry = PrintVersion | NodeIdRequired | MakeDriver string string string

definition driver_main :: "bool \<Rightarrow> string \<Rightarrow> string \<Rightarrow> string \<Rightarrow> entry" where
  "driver_main printVersion endpoint mpVersion nodeID =
     (if printVersion then PrintVersion
      else if nodeID = [] then NodeIdRequired
      else MakeDriver endpoint mpVersion nodeID)"

section \<open>The CSI calls with a constant answer\<close>

datatype controller_capability = CapabilityUnknown | CreateDeleteVolume | PublishUnpublishVolume | ListVolumesCapability
  | GetCapacityCapability | CreateDeleteSnapshot | ListSnapshotsCapability | ExpandVolume | GetVolume | ModifyVolume

datatype controller_answer = Unimplemented | Capabilities "controller_capability list" | NotConfirmed

definition CreateVolume :: controller_answer where "CreateVolume = Unimplemented"
definition DeleteVolume :: controller_answer where "DeleteVolume = Unimplemented"
definition ControllerPublishVolume :: controller_answer where "ControllerPublishVolume = Unimplemented"
definition ControllerUnpublishVolume :: controller_answer where "ControllerUnpublishVolume = Unimplemented"
definition GetCapacity :: controller_answer where "GetCapacity = Unimplemented"
definition ListVolumes :: controller_answer where "ListVolumes = Unimplemented"
definition CreateSnapshot :: controller_answer where "CreateSnapshot = Unimplemented"
definition DeleteSnapshot :: controller_answer where "DeleteSnapshot = Unimplemented"
definition ListSnapshots :: controller_answer where "ListSnapshots = Unimplemented"
definition ControllerExpandVolume :: controller_answer where "ControllerExpandVolume = Unimplemented"
definition ControllerGetVolume :: controller_answer where "ControllerGetVolume = Unimplemented"
definition ControllerModifyVolume :: controller_answer where "ControllerModifyVolume = Unimplemented"
definition ValidateVolumeCapabilities :: controller_answer where "ValidateVolumeCapabilities = NotConfirmed"

definition ControllerGetCapabilities :: controller_answer where
  "ControllerGetCapabilities = Capabilities (map (\<lambda>cap. cap) [CapabilityUnknown])"

definition driverName :: string where "driverName = ''s3.csi.aws.com''"

definition GetPluginInfo :: "string \<Rightarrow> string \<times> string" where
  "GetPluginInfo driverVersion = (driverName, driverVersion)"

definition GetPluginCapabilities :: "string list" where "GetPluginCapabilities = []"

definition Probe :: bool where "Probe = True"

text \<open>The calls a capability promises by the CSI specification: the driver promises no call it does not have.\<close>

fun promised :: "controller_capability \<Rightarrow> controller_answer list" where
  "promised CapabilityUnknown = []"
| "promised CreateDeleteVolume = [CreateVolume, DeleteVolume]"
| "promised PublishUnpublishVolume = [ControllerPublishVolume, ControllerUnpublishVolume]"
| "promised ListVolumesCapability = [ListVolumes]"
| "promised GetCapacityCapability = [GetCapacity]"
| "promised CreateDeleteSnapshot = [CreateSnapshot, DeleteSnapshot]"
| "promised ListSnapshotsCapability = [ListSnapshots]"
| "promised ExpandVolume = [ControllerExpandVolume]"
| "promised GetVolume = [ControllerGetVolume]"
| "promised ModifyVolume = [ControllerModifyVolume]"

lemma promises_kept:
  "ControllerGetCapabilities = Capabilities caps \<Longrightarrow> cap \<in> set caps \<Longrightarrow> Unimplemented \<notin> set (promised cap)"
  by (auto simp: ControllerGetCapabilities_def)

section \<open>The log\<close>

text \<open>
  Each entry of the log is written with one call. The result is the length of the entry and what goes to
  the standard error.
\<close>

definition log_newline :: char where "log_newline = CHR 0x0A"
definition newlineEscape :: string where "newlineEscape = []"

definition log_Write :: "string \<Rightarrow> nat \<times> string" where
  "log_Write b = (length b, concat (map (\<lambda>c. if c = log_newline then newlineEscape else [c]) b) @ [log_newline])"

lemma log_concat: "concat (map (\<lambda>c. if c = log_newline then newlineEscape else [c]) b) = filter (\<lambda>c. c \<noteq> log_newline) b"
  by (induction b) (auto simp: newlineEscape_def)

lemma log_one_line: "\<exists>line. snd (log_Write b) = line @ [log_newline] \<and> log_newline \<notin> set line"
  by (auto simp: log_Write_def log_concat)

lemma log_forgets_lines: "snd (log_Write (a @ log_newline # b)) = snd (log_Write (a @ b))"
  by (simp add: log_Write_def log_concat newlineEscape_def)

end
