(* ===== verification/Spec2Isabelle.thy ===== *)
theory Spec2Isabelle
  imports Args Paths Controller_Pending Controller_Removal Controller_Assignment
    Credential_Properties Mountpoint_Start Process_Manager_Safety Pod_Exclusion
    Attachment_Lookup Node_Taint Pod_Labels File_Replace Controller_Ungate
    Driver_Service
begin

text \<open>
  A verification library for the Mountpoint for Amazon S3 CSI driver.

  \<^bold>\<open>The program.\<close> Kubernetes volumes that are S3 buckets are served by Mountpoint processes, each in
  a \<^emph>\<open>Mountpoint Pod\<close> of its own. The \<^emph>\<open>controller\<close> (\<^verbatim>\<open>cmd/aws-s3-csi-controller\<close>) watches Pods: for a
  workload with such a volume it creates a Mountpoint Pod, or lets workloads with the same settings share
  one, and records the assignment in a \<^verbatim>\<open>MountpointS3PodAttachment\<close>; when the last workload is gone it
  marks the Mountpoint Pod for unmounting. The \<^emph>\<open>node service\<close> (\<^verbatim>\<open>pkg/driver\<close>) is called by the kubelet to
  publish a volume. It looks the assignment up, waits for the Mountpoint Pod, writes credentials, opens
  and mounts a FUSE device at a source directory, sends the descriptor and the options to the Pod over
  a Unix socket, waits until the mount is served and binds it to the target of the workload. In the Pod,
  \<^emph>\<open>aws-s3-csi-mounter\<close> receives the options and runs Mountpoint; \<^emph>\<open>aws-s3-csi-daemonset-mounter\<close> is the
  variant that runs many Mountpoint processes in one Pod.

  \<^bold>\<open>The model.\<close> Records are structs, data types are enumerations and errors, a Go map is a partial
  map, or an association list where its iteration matters, and each walk over one takes its order as an
  argument. Effects are a state monad over the calls made so far: \<^verbatim>\<open>cluster\<close> (theory K8s) for the
  controller and \<^verbatim>\<open>world\<close> (Node_World) for the node answer a call as a function of that history. A
  theorem about every \<^verbatim>\<open>cluster\<close> or \<^verbatim>\<open>world\<close> therefore holds for every behaviour of the API server, the
  operating system and concurrent actors, stale reads and failures included. Where goroutines share
  memory the code is a step relation over all of them (Mp_Lock, Pod_Exclusion, Process_Manager, Driver_Service). Go's int64 is \<^verbatim>\<open>int\<close>
  with its range written out, and its floating point product an exact rounding (Cache_Size).

  \<^bold>\<open>Base.\<close>
  \<^item> Csi_Prelude: maps, walks, strings, and the weakest-precondition rules \<^verbatim>\<open>runs\<close> of the state monad.
  \<^item> Keyed_Store: the interface \<^verbatim>\<open>keyed_store\<close> of the two key-value containers, which Args
    (\<^verbatim>\<open>pkg/mountpoint/args.go\<close>) and Env (\<^verbatim>\<open>envprovider\<close>) provide.
  \<^item> Runes, Go_Json, Json_Round: UTF-8, and the part of \<^verbatim>\<open>encoding/json\<close> that the options and labels pass
    through, with its round trip.
  \<^item> Paths, Volume_Context, User_Agent, Cache_Size: the pure helpers of both sides.

  \<^bold>\<open>Controller\<close> (\<^verbatim>\<open>csicontroller\<close>, \<^verbatim>\<open>pkg/podmounter/mppod\<close>).
  \<^item> K8s, Attachments: the objects, the calls, and when an attachment is well formed.
  \<^item> Creator, Headroom, Pod_Labels: the Pods the controller creates, and the labels they carry.
  \<^item> Expectations, Reconciler, Cleaner: the operations, one definition per function of the code.
  \<^item> Controller_Protocol: the locales \<^verbatim>\<open>request_invariant\<close> and \<^verbatim>\<open>attachment_invariant\<close> walk once through
    the control flow; Controller_Safety, Controller_Pending, Controller_Removal and
    Controller_Assignment interpret them: what may be deleted, that no Mountpoint Pod is forgotten, that
    attachments stay well formed, that no second attachment is created while the first one is unseen, that
    removing a workload refines its specification, and which Mountpoint Pod a workload gets.
  \<^item> Controller_Runs: rules for what a request returns together with the calls it adds, from which
    Controller_Workload shows what success of a whole request means for the volumes of a workload, and
    Controller_Ungate that a waiting workload is released only after room was reserved for all of them.

  \<^bold>\<open>Node\<close> (\<^verbatim>\<open>pkg/driver/node\<close>).
  \<^item> Node_World, Mount_Utils, Watcher: the calls, mounts, and waiting for a Pod.
  \<^item> Aws_Profile, Credentials, Credential_Properties: the files and the environment of the credential
    provider, and that what is provided is cleaned up, but for the temporary file of a failed copy;
    File_Replace: how a file is replaced.
  \<^item> Pod_Mounter, Pod_Mounter_Properties, Pod_Mounter_Safety; Pod_Unmounter, Pod_Unmounter_Safety: what is
    mounted and unmounted, in which order and under which lock, and what is undone on a failure.
  \<^item> Mp_Lock: the reference-counted locks: exclusion, exact counts, and no deadlock; Pod_Exclusion: any
    number of goroutines that mount, unmount and clean up, each with its guards, interleaved with the steps
    of the locks: whoever mounts or unmounts a source is the only holder of its lock, except for the
    clean-up of a source whose Pod was not found, and none gets stuck.
  \<^item> Node_Server, Publish_Args, Node_Server_Safety: the CSI node service, the arguments of a volume, and
    the limit of its cache.
  \<^item> Attachment_Lookup: the filters of the node against those of the controller.
  \<^item> Driver_Service: the process around it: its endpoint, how the server is brought up and taken down by
    two goroutines (no connection before the socket is private), the constant CSI calls, and the log.
  \<^item> Node_Taint: the removal of the not-ready taint among other writers of the node.

  \<^bold>\<open>Mountpoint Pods.\<close>
  \<^item> Mount_Options, Options_Transfer, Options_Delivery: what is sent arrives, however the stream splits it,
    and no descriptor leaks.
  \<^item> Csi_Mounter: the entry point and its exit status; Process_Manager, Process_Manager_Safety: the variant
    with many processes: one process per mount, and a shutdown that ends.
  \<^item> Mountpoint_Start: from the arguments in the node service to the command line of the process.

  Example_Cluster and Example_World are the concrete cluster and world at which the theorems with
  hypotheses are applied.

  \<^bold>\<open>Bounds and termination.\<close> Every function is total. Loops over data are structural, or end by a
  measure. The code polls until a context expires, so a world says how often each poll is repeated
  (\<^verbatim>\<open>polls\<close>), the lists of events of the watcher and the accept loop are finite, and the theorems hold for
  all of them. The JSON reader keeps Go's limit of 10000 open brackets and needs no fuel. The retries of
  the taint watcher are the five of the code. Schedules of goroutines are arbitrary; that shutdown ends and
  that locks are free of deadlock is proved of the step relations, not assumed of a scheduler.

  \<^bold>\<open>Arguments for code that is not in the repository.\<close> The API server and its caches, the kernel, the
  parsers of URLs and of quantities, SHA-224, the validators and the name escaping of Kubernetes, the decoder of the token
  document, the instance metadata service, the printable code points of Unicode, and the processes. Where a
  theorem relies on them, its hypotheses say so: the JSON patch of RFC 6902 (\<^verbatim>\<open>patches_tested\<close>), control
  messages that fit their buffers (\<^verbatim>\<open>piece_ok\<close>), a limit of the cache of at most 256 TiB, and
  the temporary name that \<^verbatim>\<open>os.CreateTemp\<close> picks being unused.

  \<^bold>\<open>Not modelled.\<close> The interpolated parts of messages, and logging but for its writer; the definitions of
  flags; the inside of the gRPC server and of \<^verbatim>\<open>url.Parse\<close>; the wiring of informers, clients and signals in
  the \<^verbatim>\<open>main\<close> functions and \<^verbatim>\<open>NewDriver\<close>; the status logging of the DaemonSet mounter; deep copies, which
  are generated; the stubs for other platforms; test doubles.
\<close>

end
